(* ===== verification/Prelude.thy ===== *)
theory Prelude
  imports Main "HOL-Library.Word" "HOL-Library.AList"
begin

text \<open>
  What every component of the model shares: the machine integers, the standard library's hash
  maps and hash sets, the string functions the code calls, and the generic lemmas about them.

  \<^item> \<open>u8\<close>, \<open>u32\<close> and \<open>u64\<close> are words of their width. A signed \<open>i64\<close> is an \<open>int\<close> in the range
    of the type; every addition and subtraction the code does on it is written with
    \<open>i64_add\<close> or \<open>i64_sub\<close>, which wrap as the release build does.
  \<^item> A \<open>HashMap\<close> is an association list with distinct keys, a \<open>HashSet\<close> a list without
    duplicates. The order of the list is the order in which the code happens to iterate; the
    theorems quantify over all such lists, so over all iteration orders.
  \<^item> A \<open>String\<close> is the list of its UTF-8 bytes (\<open>char\<close> is a byte), so \<open>length\<close> is Rust's
    \<open>len\<close>; a byte payload (\<open>Raw\<close>, \<open>Vec<u8>\<close>) is a list of \<open>u8\<close>.
\<close>

named_theorems dict_simps \<open>lookups in updated hash maps and hash sets\<close>
named_theorems wf_intros \<open>operations preserve well-formedness\<close>

section \<open>Integers\<close>

type_synonym u8 = "8 word"
type_synonym u32 = "32 word"
type_synonym u64 = "64 word"
type_synonym bytes = "u8 list"

definition i64_min :: int where "i64_min = - (2 ^ 63)"
definition i64_max :: int where "i64_max = 2 ^ 63 - 1"

definition i64_wrap :: "int \<Rightarrow> int" where
  "i64_wrap x = (x + 2 ^ 63) mod 2 ^ 64 - 2 ^ 63"

definition i64_add :: "int \<Rightarrow> int \<Rightarrow> int" where
  "i64_add a b = i64_wrap (a + b)"

definition i64_sub :: "int \<Rightarrow> int \<Rightarrow> int" where
  "i64_sub a b = i64_wrap (a - b)"

lemma i64_wrap_id: "i64_min \<le> x \<Longrightarrow> x \<le> i64_max \<Longrightarrow> i64_wrap x = x"
  by (simp add: i64_wrap_def i64_min_def i64_max_def)

lemma i64_wrap_range: "i64_min \<le> i64_wrap x \<and> i64_wrap x \<le> i64_max"
proof -
  have "0 \<le> (x + 2 ^ 63) mod 2 ^ 64" and "(x + 2 ^ 63) mod 2 ^ 64 < (2 ^ 64 :: int)"
    by (rule pos_mod_sign, simp) (rule pos_mod_bound, simp)
  then show ?thesis by (simp add: i64_wrap_def i64_min_def i64_max_def)
qed

lemma i64_add_id: "i64_min \<le> a + b \<Longrightarrow> a + b \<le> i64_max \<Longrightarrow> i64_add a b = a + b"
  by (simp add: i64_add_def i64_wrap_id)

lemma i64_sub_id: "i64_min \<le> a - b \<Longrightarrow> a - b \<le> i64_max \<Longrightarrow> i64_sub a b = a - b"
  by (simp add: i64_sub_def i64_wrap_id)

text \<open>\<open>d.as_secs() as i64\<close>, \<open>secs as i64\<close>: the cast from \<open>u64\<close> reads the bits as signed.\<close>

definition u64_as_i64 :: "u64 \<Rightarrow> int" where
  "u64_as_i64 w = sint w"

text \<open>\<open>(x).max(0) as u32\<close>: the cast keeps the low 32 bits.\<close>

definition i64_as_u32 :: "int \<Rightarrow> u32" where
  "i64_as_u32 x = word_of_int x"

section \<open>Hash maps and hash sets\<close>

type_synonym ('k, 'v) hmap = "('k \<times> 'v) list"
type_synonym 'a hset = "'a list"

abbreviation hm_get :: "('k, 'v) hmap \<Rightarrow> 'k \<Rightarrow> 'v option" where
  "hm_get m k \<equiv> map_of m k"

abbreviation hm_insert :: "'k \<Rightarrow> 'v \<Rightarrow> ('k, 'v) hmap \<Rightarrow> ('k, 'v) hmap" where
  "hm_insert k v m \<equiv> AList.update k v m"

abbreviation hm_remove :: "'k \<Rightarrow> ('k, 'v) hmap \<Rightarrow> ('k, 'v) hmap" where
  "hm_remove k m \<equiv> AList.delete k m"

definition hm_contains :: "('k, 'v) hmap \<Rightarrow> 'k \<Rightarrow> bool" where
  "hm_contains m k = (map_of m k \<noteq> None)"

text \<open>\<open>map.entry(k).or_default()\<close>, read: the value stored under \<open>k\<close>, or the default.\<close>

definition hm_get_or :: "'v \<Rightarrow> ('k, 'v) hmap \<Rightarrow> 'k \<Rightarrow> 'v" where
  "hm_get_or d m k = (case map_of m k of None \<Rightarrow> d | Some v \<Rightarrow> v)"

text \<open>\<open>map.retain(|_, v| ..)\<close> with a closure that also rewrites the value.\<close>

fun hm_retain :: "('k \<Rightarrow> 'v \<Rightarrow> 'v option) \<Rightarrow> ('k, 'v) hmap \<Rightarrow> ('k, 'v) hmap" where
  "hm_retain f [] = []"
| "hm_retain f ((k, v) # m) =
     (case f k v of None \<Rightarrow> hm_retain f m | Some v' \<Rightarrow> (k, v') # hm_retain f m)"

definition hm_wf :: "('k, 'v) hmap \<Rightarrow> bool" where
  "hm_wf m = distinct (map fst m)"

abbreviation hs_insert :: "'a \<Rightarrow> 'a hset \<Rightarrow> 'a hset" where
  "hs_insert x s \<equiv> List.insert x s"

abbreviation hs_remove :: "'a \<Rightarrow> 'a hset \<Rightarrow> 'a hset" where
  "hs_remove x s \<equiv> removeAll x s"

lemma hm_get_insert [simp, dict_simps]: "hm_get (hm_insert k v m) = (hm_get m)(k \<mapsto> v)"
  by (rule update_conv')

lemma hm_get_remove [simp, dict_simps]: "hm_get (hm_remove k m) = (hm_get m)(k := None)"
  by (rule delete_conv')

lemma hm_contains_insert [simp]: "hm_contains (hm_insert k v m) j = (j = k \<or> hm_contains m j)"
  by (simp add: hm_contains_def)

lemma hm_contains_remove [simp]: "hm_contains (hm_remove k m) j = (j \<noteq> k \<and> hm_contains m j)"
  by (simp add: hm_contains_def)

lemma hm_contains_keys: "hm_contains m k \<longleftrightarrow> k \<in> fst ` set m"
  by (simp add: hm_contains_def map_of_eq_None_iff)

lemma hm_remove_keys: "fst ` set (hm_remove k m) = fst ` set m - {k}"
  by (induction m) auto

lemma hm_insert_keys: "fst ` set (hm_insert k v m) = insert k (fst ` set m)"
  by (induction m) auto

lemma hm_wf_Nil [simp, wf_intros]: "hm_wf []"
  by (simp add: hm_wf_def)

lemma hm_wf_insert [simp, wf_intros]: "hm_wf m \<Longrightarrow> hm_wf (hm_insert k v m)"
  unfolding hm_wf_def by (rule distinct_update)

lemma hm_wf_remove [simp, wf_intros]: "hm_wf m \<Longrightarrow> hm_wf (hm_remove k m)"
  unfolding hm_wf_def by (rule distinct_delete)

lemma hm_wf_in_set: "hm_wf m \<Longrightarrow> (k, v) \<in> set m \<longleftrightarrow> hm_get m k = Some v"
  unfolding hm_wf_def by simp

lemma hm_retain_keys: "fst ` set (hm_retain f m) \<subseteq> fst ` set m"
  by (induction m rule: hm_retain.induct) (auto split: option.splits)

lemma hm_wf_retain [simp, wf_intros]: "hm_wf m \<Longrightarrow> hm_wf (hm_retain f m)"
proof (induction f m rule: hm_retain.induct)
  case (2 f k v m)
  then show ?case
    using hm_retain_keys [of f m] by (auto simp: hm_wf_def split: option.splits)
qed simp

lemma hm_get_retain:
  assumes "hm_wf m"
  shows "hm_get (hm_retain f m) j = Option.bind (hm_get m j) (f j)"
  using assms
proof (induction f m rule: hm_retain.induct)
  case (2 f k v m)
  have "hm_get (hm_retain f m) k = None"
    using 2(3) hm_retain_keys [of f m] by (force simp: hm_wf_def map_of_eq_None_iff)
  with 2 show ?case by (auto simp: hm_wf_def split: option.splits)
qed simp

lemma hm_length_insert:
  "length (hm_insert k v m) = (if hm_contains m k then length m else Suc (length m))"
  by (induction m) (auto simp: hm_contains_def)

lemma hm_length_card:
  assumes "hm_wf m"
  shows "length m = card (dom (hm_get m))"
proof -
  have "card (set (map fst m)) = length (map fst m)"
    using assms unfolding hm_wf_def by (rule distinct_card)
  then show ?thesis by (simp add: dom_map_of_conv_image_fst)
qed

lemma hm_remove_same_get: "hm_get m k = None \<Longrightarrow> hm_remove k m = m"
  by (induction m) (auto split: if_splits)

section \<open>Strings\<close>

definition strip_prefix :: "'a list \<Rightarrow> 'a list \<Rightarrow> 'a list option" where
  "strip_prefix p s = (if take (length p) s = p then Some (drop (length p) s) else None)"

definition starts_with :: "'a list \<Rightarrow> 'a list \<Rightarrow> bool" where
  "starts_with p s = (take (length p) s = p)"

text \<open>\<open>s.split_once(sep)\<close>: before and after the first occurrence of \<open>sep\<close>.\<close>

fun split_once :: "'a list \<Rightarrow> 'a list \<Rightarrow> ('a list \<times> 'a list) option" where
  "split_once sep [] = (if sep = [] then Some ([], []) else None)"
| "split_once sep (c # cs) =
     (case strip_prefix sep (c # cs) of
        Some r \<Rightarrow> Some ([], r)
      | None \<Rightarrow> map_option (\<lambda>(a, b). (c # a, b)) (split_once sep cs))"

text \<open>\<open>s.rsplit_once(c)\<close> for a single character: before and after its last occurrence.\<close>

fun rsplit_once_char :: "'a \<Rightarrow> 'a list \<Rightarrow> ('a list \<times> 'a list) option" where
  "rsplit_once_char c [] = None"
| "rsplit_once_char c (x # xs) =
     (case rsplit_once_char c xs of
        Some (a, b) \<Rightarrow> Some (x # a, b)
      | None \<Rightarrow> if x = c then Some ([], xs) else None)"

text \<open>\<open>s.split(c)\<close>: the pieces between the occurrences of \<open>c\<close>, at least one.\<close>

fun split_char :: "'a \<Rightarrow> 'a list \<Rightarrow> 'a list list" where
  "split_char c [] = [[]]"
| "split_char c (x # xs) =
     (if x = c then [] # split_char c xs
      else (case split_char c xs of [] \<Rightarrow> [[x]] | p # ps \<Rightarrow> (x # p) # ps))"

definition ascii_upper :: "char \<Rightarrow> char" where
  "ascii_upper c =
     (if 97 \<le> (of_char c :: nat) \<and> (of_char c :: nat) \<le> 122 then char_of (of_char c - 32 :: nat) else c)"

definition ascii_lower :: "char \<Rightarrow> char" where
  "ascii_lower c =
     (if 65 \<le> (of_char c :: nat) \<and> (of_char c :: nat) \<le> 90 then char_of (of_char c + 32 :: nat) else c)"

lemma strip_prefix_Some: "strip_prefix p s = Some r \<longleftrightarrow> s = p @ r"
  unfolding strip_prefix_def by (auto simp: append_eq_conv_conj) (metis append_take_drop_id)

lemma strip_prefix_None: "strip_prefix p s = None \<longleftrightarrow> (\<nexists>r. s = p @ r)"
  by (metis not_None_eq strip_prefix_Some)

lemma starts_with_iff: "starts_with p s \<longleftrightarrow> (\<exists>r. s = p @ r)"
  by (auto simp: starts_with_def) (metis append_take_drop_id)

lemma split_once_SomeD: "split_once sep s = Some (a, b) \<Longrightarrow> s = a @ sep @ b"
proof (induction sep s arbitrary: a rule: split_once.induct)
  case (1 sep)
  then show ?case by (auto split: if_splits)
next
  case (2 sep c cs)
  then show ?case by (auto simp: strip_prefix_Some split: option.splits)
qed

lemma split_once_first:
  "split_once sep s = Some (a, b) \<Longrightarrow> s = x @ sep @ y \<Longrightarrow> length a \<le> length x"
proof (induction sep s arbitrary: a x rule: split_once.induct)
  case (1 sep)
  then show ?case by (auto split: if_splits)
next
  case (2 sep c cs)
  show ?case
  proof (cases "strip_prefix sep (c # cs)")
    case None
    from None "2.prems"(1) obtain a' where a': "split_once sep cs = Some (a', b)" "a = c # a'"
      by auto
    from None "2.prems"(2) obtain x' where "x = c # x'" "cs = x' @ sep @ y"
      by (cases x) (auto simp: strip_prefix_None)
    with "2.IH" [OF None a'(1)] a'(2) show ?thesis by simp
  next
    case (Some r)
    with "2.prems"(1) have "a = []" by simp
    then show ?thesis by simp
  qed
qed

lemma split_once_None: "sep \<noteq> [] \<Longrightarrow> split_once sep s = None \<longleftrightarrow> (\<nexists>a b. s = a @ sep @ b)"
proof (induction sep s rule: split_once.induct)
  case (2 sep c cs)
  show ?case
  proof (cases "strip_prefix sep (c # cs)")
    case None
    then have "(\<nexists>a b. cs = a @ sep @ b) = (\<nexists>a b. c # cs = a @ sep @ b)"
      by (metis append_Cons list.inject neq_Nil_conv append_Nil strip_prefix_None)
    with 2 None show ?thesis by simp
  next
    case (Some r)
    then have "\<exists>a b. c # cs = a @ sep @ b"
      by (metis append_Nil strip_prefix_Some)
    with Some show ?thesis by simp
  qed
qed simp

lemma rsplit_once_char_None: "rsplit_once_char c s = None \<longleftrightarrow> c \<notin> set s"
  by (induction s) (auto split: option.splits)

lemma rsplit_once_char_append: "c \<notin> set b \<Longrightarrow> rsplit_once_char c (a @ c # b) = Some (a, b)"
proof (induction a)
  case Nil
  then have "rsplit_once_char c b = None" by (simp add: rsplit_once_char_None)
  then show ?case by simp
qed simp

lemma rsplit_once_char_SomeD:
  "rsplit_once_char c s = Some (a, b) \<Longrightarrow> s = a @ c # b \<and> c \<notin> set b"
proof (induction s arbitrary: a b)
  case (Cons x xs)
  then show ?case
    by (cases "rsplit_once_char c xs")
       (auto simp: rsplit_once_char_None split: if_splits)
qed simp

lemma rsplit_once_char_Some:
  "rsplit_once_char c s = Some (a, b) \<longleftrightarrow> s = a @ c # b \<and> c \<notin> set b"
  using rsplit_once_char_SomeD rsplit_once_char_append by metis

lemma split_char_not_Nil [simp]: "split_char c s \<noteq> []"
  by (induction s) (auto split: list.splits)

lemma split_char_append:
  "c \<notin> set a \<Longrightarrow> split_char c (a @ c # b) = a # split_char c b"
  by (induction a) auto

lemma split_char_single: "c \<notin> set a \<Longrightarrow> split_char c a = [a]"
  by (induction a) auto

lemma split_once_char:
  "split_once [c] s =
     (if c \<in> set s then Some (takeWhile (\<lambda>x. x \<noteq> c) s, tl (dropWhile (\<lambda>x. x \<noteq> c) s)) else None)"
  by (induction s) (auto simp: strip_prefix_def)

lemma split_once_char_append: "c \<notin> set s \<Longrightarrow> split_once [c] (s @ c # r) = Some (s, r)"
  by (induction s) (auto simp: strip_prefix_def)

end
