(* ===== verification/Origin.thy ===== *)
theory Origin
  imports Prelude
begin

text \<open>
  Origin checking of the WebSocket and SockJS transports (\<open>crates/centrifugo-server/src/origin.rs\<close>):
  the checker built from the configured patterns and the backtracking glob matcher, whose index
  loop is translated as it stands. The reference is the usual recursive reading of a pattern,
  \<open>glob\<close>; the loop is proved to terminate on every state and to agree with the reference.
\<close>

section \<open>The matcher\<close>

text \<open>
  The state of the loop: the position in the pattern, the position in the text, the last
  \<open>*\<close> passed and the text position it was last tried at. \<open>glob_bad\<close> is the part of the state
  space the loop leaves at its first \<open>*\<close>; it only serves the termination measure.
\<close>

definition glob_bad :: "nat \<Rightarrow> nat \<Rightarrow> nat option \<Rightarrow> nat \<Rightarrow> nat" where
  "glob_bad p t star mark =
     (case star of None \<Rightarrow> 1 | Some sp \<Rightarrow> if sp < p \<and> mark \<le> t then 0 else 1)"

function glob_loop :: "string \<Rightarrow> string \<Rightarrow> nat \<Rightarrow> nat \<Rightarrow> nat option \<Rightarrow> nat \<Rightarrow> nat option" where
  "glob_loop pat str p t star mark =
     (if t < length str then
        if p < length pat \<and> (pat ! p = CHR ''?'' \<or> pat ! p = str ! t)
        then glob_loop pat str (p + 1) (t + 1) star mark
        else if p < length pat \<and> pat ! p = CHR ''*''
        then glob_loop pat str (p + 1) t (Some p) t
        else
          (case star of
             Some sp \<Rightarrow> glob_loop pat str (sp + 1) (mark + 1) star (mark + 1)
           | None \<Rightarrow> None)
      else Some p)"
  by pat_completeness auto
termination
  by (relation "measures
       [\<lambda>(pat, str, p, t, star, mark). glob_bad p t star mark,
        \<lambda>(pat, str, p, t, star, mark). length pat - (case star of None \<Rightarrow> 0 | Some sp \<Rightarrow> sp),
        \<lambda>(pat, str, p, t, star, mark). length str - mark,
        \<lambda>(pat, str, p, t, star, mark). (length str - t) + (length pat - p)]")
     (auto simp: glob_bad_def split: option.splits if_splits)

declare glob_loop.simps [simp del]

text \<open>The trailing loop over \<open>*\<close>.\<close>

function skip_stars :: "string \<Rightarrow> nat \<Rightarrow> nat" where
  "skip_stars pat p =
     (if p < length pat \<and> pat ! p = CHR ''*'' then skip_stars pat (p + 1) else p)"
  by pat_completeness auto
termination
  by (relation "measure (\<lambda>(pat, p). length pat - p)") auto

declare skip_stars.simps [simp del]

definition glob_match :: "string \<Rightarrow> string \<Rightarrow> bool" where
  "glob_match pat str =
     (case glob_loop pat str 0 0 None 0 of
        None \<Rightarrow> False
      | Some p \<Rightarrow> skip_stars pat p = length pat)"

section \<open>The checker\<close>

record origin_checker =
  oc_allow_all :: bool
  oc_patterns :: "string list"

definition origin_checker_new :: "string list option \<Rightarrow> origin_checker" where
  "origin_checker_new allowed =
     (case allowed of
        None \<Rightarrow> \<lparr>oc_allow_all = True, oc_patterns = []\<rparr>
      | Some ps \<Rightarrow> \<lparr>oc_allow_all = False, oc_patterns = ps\<rparr>)"

definition origin_check :: "origin_checker \<Rightarrow> string option \<Rightarrow> bool" where
  "origin_check c origin =
     (if oc_allow_all c then True
      else
        (case origin of
           None \<Rightarrow> True
         | Some o1 \<Rightarrow>
             if o1 = [] then True
             else
               (let lower = map ascii_lower o1 in
                \<exists>p \<in> set (oc_patterns c). glob_match p lower)))"

section \<open>The reference\<close>

fun glob :: "string \<Rightarrow> string \<Rightarrow> bool" where
  "glob [] ts = (ts = [])"
| "glob (c # ps) [] = (c = CHR ''*'' \<and> glob ps [])"
| "glob (c # ps) (t # ts) =
     (if c = CHR ''*'' then glob ps (t # ts) \<or> glob (c # ps) ts
      else (c = CHR ''?'' \<or> c = t) \<and> glob ps ts)"

lemma glob_star: "glob (CHR ''*'' # ps) ts \<longleftrightarrow> (\<exists>k \<le> length ts. glob ps (drop k ts))"
proof (induction ts)
  case (Cons t ts)
  have "(\<exists>k \<le> Suc n. P k) \<longleftrightarrow> P 0 \<or> (\<exists>k \<le> n. P (Suc k))" for n and P :: "nat \<Rightarrow> bool"
    by (metis Suc_le_mono le0 not0_implies_Suc)
  with Cons show ?case by simp
qed simp

lemma glob_star_drop:
  assumes "glob (CHR ''*'' # ps) (drop j ts)" "i \<le> j"
  shows "glob (CHR ''*'' # ps) (drop i ts)"
proof -
  from assms(1) obtain k where k: "glob ps (drop (k + j) ts)" "k \<le> length ts - j"
    by (auto simp: glob_star)
  show ?thesis
  proof (cases "j \<le> length ts")
    case True
    then have "(k + j - i) \<le> length (drop i ts)" "drop (k + j - i) (drop i ts) = drop (k + j) ts"
      using assms(2) k(2) by auto
    with k(1) show ?thesis unfolding glob_star by metis
  next
    case False
    with k have g: "glob ps []" by simp
    have "drop (length ts - i) (drop i ts) = []" by simp
    with g show ?thesis unfolding glob_star by (metis le_refl length_drop)
  qed
qed

lemma glob_prefix:
  "CHR ''*'' \<notin> set seg \<Longrightarrow> glob (seg @ ps) ts \<Longrightarrow>
   length seg \<le> length ts \<and> glob ps (drop (length seg) ts)"
proof (induction seg arbitrary: ts)
  case (Cons c seg)
  then show ?case by (cases ts) auto
qed simp

lemma glob_Nil: "glob ps [] \<longleftrightarrow> set ps \<subseteq> {CHR ''*''}"
  by (induction ps) auto

lemma skip_stars_end:
  "p \<le> length pat \<Longrightarrow> skip_stars pat p = length pat \<longleftrightarrow> glob (drop p pat) []"
proof (induction pat p rule: skip_stars.induct)
  case (1 pat p)
  show ?case
  proof (cases "p < length pat")
    case True
    then have "drop p pat = pat ! p # drop (Suc p) pat" by (simp add: Cons_nth_drop_Suc)
    with 1 True show ?thesis by (subst skip_stars.simps) auto
  next
    case False
    then show ?thesis by (subst skip_stars.simps) (use 1 in auto)
  qed
qed

text \<open>What the loop keeps of its last \<open>*\<close>, and what a state still stands for.\<close>

definition glob_inv :: "string \<Rightarrow> string \<Rightarrow> nat \<Rightarrow> nat \<Rightarrow> nat option \<Rightarrow> nat \<Rightarrow> bool" where
  "glob_inv pat str p t star mark =
     (p \<le> length pat \<and> t \<le> length str \<and>
      (\<forall>sp. star = Some sp \<longrightarrow>
         sp < p \<and> mark \<le> t \<and> t - mark = p - (sp + 1) \<and>
         CHR ''*'' \<notin> set (take (p - (sp + 1)) (drop (sp + 1) pat))))"

definition glob_rest :: "string \<Rightarrow> string \<Rightarrow> nat option \<Rightarrow> nat \<Rightarrow> bool" where
  "glob_rest pat str star mark =
     (\<exists>sp k. star = Some sp \<and> mark < k \<and> k \<le> length str \<and> glob (drop (sp + 1) pat) (drop k str))"

lemma drop_segment:
  "sp < p \<Longrightarrow> drop (sp + 1) pat = take (p - (sp + 1)) (drop (sp + 1) pat) @ drop p pat"
  by (metis Suc_eq_plus1 Suc_leI append_take_drop_id drop_drop le_add_diff_inverse2)

lemma glob_rest_commit:
  assumes inv: "glob_inv pat str p t star mark" and rest: "glob_rest pat str star mark"
  shows "\<exists>j > t. j \<le> length str \<and> glob (drop p pat) (drop j str)"
proof -
  from rest obtain sp k where sp: "star = Some sp" and k: "mark < k" "k \<le> length str"
    and g: "glob (drop (sp + 1) pat) (drop k str)" by (auto simp: glob_rest_def)
  let ?seg = "take (p - (sp + 1)) (drop (sp + 1) pat)"
  from inv sp have i: "sp < p" "mark \<le> t" "t - mark = p - (sp + 1)" "CHR ''*'' \<notin> set ?seg"
    "p \<le> length pat" by (auto simp: glob_inv_def)
  then have len: "length ?seg = t - mark" by auto
  have "glob (?seg @ drop p pat) (drop k str)" using g drop_segment [OF i(1), of pat] by simp
  from glob_prefix [OF i(4) this] have "t - mark \<le> length str - k"
    "glob (drop p pat) (drop (t - mark + k) str)" by (simp_all only: len length_drop drop_drop)
  moreover have "t < t - mark + k" using k i(2) by simp
  ultimately show ?thesis using k by (intro exI [of _ "t - mark + k"]) auto
qed

lemma glob_inv_match:
  assumes "glob_inv pat str p t star mark" "t < length str" "p < length pat" "pat ! p \<noteq> CHR ''*''"
  shows "glob_inv pat str (p + 1) (t + 1) star mark"
proof -
  have "CHR ''*'' \<notin> set (take (p + 1 - (sp + 1)) (drop (sp + 1) pat))"
    if "star = Some sp" for sp
  proof -
    from assms(1) that have i: "sp < p" "CHR ''*'' \<notin> set (take (p - (sp + 1)) (drop (sp + 1) pat))"
      by (auto simp: glob_inv_def)
    have "take (p + 1 - (sp + 1)) (drop (sp + 1) pat) =
        take (p - (sp + 1)) (drop (sp + 1) pat) @ [pat ! p]"
      using i(1) assms(3) take_Suc_conv_app_nth [of "p - (sp + 1)" "drop (sp + 1) pat"]
      by (simp add: Suc_diff_Suc)
    with i(2) assms(4) show ?thesis by simp
  qed
  with assms show ?thesis by (auto simp: glob_inv_def)
qed

lemma glob_loop_correct:
  "glob_inv pat str p t star mark \<Longrightarrow> CHR ''*'' \<notin> set str \<Longrightarrow>
   (case glob_loop pat str p t star mark of
      None \<Rightarrow> False | Some q \<Rightarrow> skip_stars pat q = length pat)
   \<longleftrightarrow> glob (drop p pat) (drop t str) \<or> glob_rest pat str star mark"
proof (induction pat str p t star mark rule: glob_loop.induct)
  case (1 pat str p t star mark)
  note inv = "1.prems"(1) and nostar = "1.prems"(2)
  show ?case
  proof (cases "t < length str")
    case t: True
    then have text_eq: "drop t str = str ! t # drop (t + 1) str" by (simp add: Cons_nth_drop_Suc)
    have tt: "str ! t \<noteq> CHR ''*''" using nostar t nth_mem by metis
    have pat: "drop p pat = pat ! p # drop (p + 1) pat" if "p < length pat"
      using that by (simp add: Cons_nth_drop_Suc)
    consider (same) "p < length pat" "pat ! p = CHR ''?'' \<or> pat ! p = str ! t"
      | (star) "p < length pat" "pat ! p = CHR ''*''"
      | (retry) sp where "\<not> (p < length pat \<and> (pat ! p = CHR ''?'' \<or> pat ! p = str ! t))"
          "\<not> (p < length pat \<and> pat ! p = CHR ''*'')" "star = Some sp"
      | (fail) "\<not> (p < length pat \<and> (pat ! p = CHR ''?'' \<or> pat ! p = str ! t))"
          "\<not> (p < length pat \<and> pat ! p = CHR ''*'')" "star = None"
      by (cases star) auto
    then show ?thesis
    proof cases
      case same
      with tt have ns: "pat ! p \<noteq> CHR ''*''" by auto
      have step: "glob_loop pat str p t star mark = glob_loop pat str (p + 1) (t + 1) star mark"
        using same t by (subst glob_loop.simps) simp
      have "glob (drop p pat) (drop t str) = glob (drop (p + 1) pat) (drop (t + 1) str)"
        using pat [OF same(1)] text_eq same(2) ns by simp
      with "1.IH"(1) [OF t] same glob_inv_match [OF inv t same(1) ns] nostar step
      show ?thesis by simp
    next
      case star
      have step: "glob_loop pat str p t star mark = glob_loop pat str (p + 1) t (Some p) t"
        using star t tt by (subst glob_loop.simps) auto
      have "glob_inv pat str (p + 1) t (Some p) t"
        using inv star by (simp add: glob_inv_def)
      then have IH: "(case glob_loop pat str p t star mark of
          None \<Rightarrow> False | Some q \<Rightarrow> skip_stars pat q = length pat)
        \<longleftrightarrow> glob (drop (p + 1) pat) (drop t str) \<or> glob_rest pat str (Some p) t"
        using "1.IH"(2) [OF t _ _ _ nostar] star tt step by auto
      have here: "glob (drop p pat) (drop t str) \<longleftrightarrow>
          glob (drop (p + 1) pat) (drop t str) \<or> glob_rest pat str (Some p) t"
      proof -
        have "glob (drop p pat) (drop t str) \<longleftrightarrow>
            (\<exists>k \<le> length str - t. glob (drop (p + 1) pat) (drop (k + t) str))"
          using pat [OF star(1)] star(2) glob_star [of "drop (p + 1) pat" "drop t str"]
          by simp
        also have "\<dots> \<longleftrightarrow> (\<exists>j \<ge> t. j \<le> length str \<and> glob (drop (p + 1) pat) (drop j str))"
          (is "?L = ?R")
        proof
          show "?L \<Longrightarrow> ?R"
            using t by (metis add_le_imp_le_diff le_add2 le_diff_conv2 less_imp_le)
          show "?R \<Longrightarrow> ?L" by (metis diff_le_mono le_add_diff_inverse2)
        qed
        also have "\<dots> \<longleftrightarrow> glob (drop (p + 1) pat) (drop t str) \<or> glob_rest pat str (Some p) t"
          using t by (auto simp: glob_rest_def le_less)
        finally show ?thesis .
      qed
      moreover have "glob_rest pat str star mark \<Longrightarrow> glob (drop p pat) (drop t str)"
        using glob_rest_commit [OF inv] glob_star_drop pat [OF star(1)] star(2)
        by (metis less_imp_le)
      ultimately show ?thesis using IH by blast
    next
      case (retry sp)
      have step: "glob_loop pat str p t star mark =
          glob_loop pat str (sp + 1) (mark + 1) star (mark + 1)"
        using retry t by (subst glob_loop.simps) auto
      from inv retry(3) have i: "sp < p" "mark \<le> t" "p \<le> length pat" by (auto simp: glob_inv_def)
      have "glob_inv pat str (sp + 1) (mark + 1) star (mark + 1)"
        using i t retry(3) by (simp add: glob_inv_def)
      then have IH: "(case glob_loop pat str p t star mark of
          None \<Rightarrow> False | Some q \<Rightarrow> skip_stars pat q = length pat)
        \<longleftrightarrow> glob (drop (sp + 1) pat) (drop (mark + 1) str) \<or> glob_rest pat str star (mark + 1)"
        using "1.IH"(3) [OF t retry(1,2,3) _ nostar] step by simp
      have "\<not> glob (drop p pat) (drop t str)"
        using retry(1,2) pat text_eq i by (cases "p < length pat") auto
      moreover have "glob_rest pat str star mark \<longleftrightarrow>
          glob (drop (sp + 1) pat) (drop (mark + 1) str) \<or> glob_rest pat str star (mark + 1)"
      proof -
        have "(\<exists>k > mark. k \<le> n \<and> P k) \<longleftrightarrow> P (mark + 1) \<or> (\<exists>k > mark + 1. k \<le> n \<and> P k)"
          if "mark < n" for n and P :: "nat \<Rightarrow> bool"
          using that by (metis Suc_eq_plus1 Suc_leI Suc_lessI lessI less_trans)
        then show ?thesis using retry(3) i(2) t by (simp add: glob_rest_def)
      qed
      ultimately show ?thesis using IH by blast
    next
      case fail
      have "glob_loop pat str p t star mark = None"
        using fail t by (subst glob_loop.simps) auto
      moreover have "\<not> glob (drop p pat) (drop t str)"
        using fail pat text_eq inv by (cases "p < length pat") (auto simp: glob_inv_def)
      ultimately show ?thesis using fail(3) by (simp add: glob_rest_def)
    qed
  next
    case False
    with inv have t: "t = length str" "p \<le> length pat" by (auto simp: glob_inv_def)
    then have "\<not> glob_rest pat str star mark" using glob_rest_commit [OF inv] by auto
    with t False show ?thesis by (subst glob_loop.simps) (simp add: skip_stars_end)
  qed
qed

lemma glob_literal:
  "CHR ''*'' \<notin> set p \<Longrightarrow> CHR ''?'' \<notin> set p \<Longrightarrow> glob p ts \<longleftrightarrow> ts = p"
proof (induction p arbitrary: ts)
  case (Cons c p)
  then show ?case by (cases ts) auto
qed simp

section \<open>Properties\<close>

text \<open>
  C24: on every text without a literal \<open>*\<close>, the backtracking index loop decides exactly the
  recursive meaning of the pattern, in which \<open>*\<close> stands for any run of characters and \<open>?\<close> for
  one. In particular it always returns.
\<close>

theorem glob_match_reference:
  assumes "CHR ''*'' \<notin> set str"
  shows "glob_match pat str = glob pat str"
  using glob_loop_correct [of pat str 0 0 None 0] assms
  by (simp add: glob_match_def glob_inv_def glob_rest_def)

theorem glob_match_reference_witness:
  "glob_match ''https://*.ex?mple.com'' ''https://a.b.example.com''"
  using glob_match_reference [of "''https://a.b.example.com''" "''https://*.ex?mple.com''"]
  by simp

text \<open>
  a text that itself contains \<open>*\<close> is compared with a \<open>*\<close> of the pattern as a literal first, and
  the pattern's \<open>*\<close> is then not recorded for backtracking: the matcher refuses a text the pattern
  matches.
\<close>

theorem glob_match_literal_star:
  "\<not> glob_match ''*b'' ''*ab'' \<and> glob ''*b'' ''*ab''"
  by code_simp


end
