(* ===== verification/Protocol.thy ===== *)
theory Protocol
  imports Prelude
begin

text \<open>
  The wire types of \<open>crates/centrifugo-protocol\<close>: the protocol errors (\<open>error.rs\<close>), the
  disconnects (\<open>disconnect.rs\<close>), the method and push kinds (\<open>method.rs\<close>), the envelopes
  (\<open>command.rs\<close>) and the request, result and inner messages (\<open>messages.rs\<close>). A \<open>Raw\<close> payload
  is a byte list and \<open>Option<Raw>\<close> an option of it. The serde attributes are not modelled
  here: they configure third-party serializers, which are parameters of the codec.
\<close>

section \<open>Errors (error.rs)\<close>

record perror =
  err_code :: u32
  err_message :: string

definition perror_new :: "u32 \<Rightarrow> string \<Rightarrow> perror" where
  "perror_new code message = \<lparr>err_code = code, err_message = message\<rparr>"

definition err_internal :: perror where
  "err_internal = perror_new 100 ''internal server error''"
definition err_unauthorized :: perror where
  "err_unauthorized = perror_new 101 ''unauthorized''"
definition err_unknown_channel :: perror where
  "err_unknown_channel = perror_new 102 ''unknown channel''"
definition err_permission_denied :: perror where
  "err_permission_denied = perror_new 103 ''permission denied''"
definition err_method_not_found :: perror where
  "err_method_not_found = perror_new 104 ''method not found''"
definition err_already_subscribed :: perror where
  "err_already_subscribed = perror_new 105 ''already subscribed''"
definition err_limit_exceeded :: perror where
  "err_limit_exceeded = perror_new 106 ''limit exceeded''"
definition err_bad_request :: perror where
  "err_bad_request = perror_new 107 ''bad request''"
definition err_not_available :: perror where
  "err_not_available = perror_new 108 ''not available''"
definition err_token_expired :: perror where
  "err_token_expired = perror_new 109 ''token expired''"
definition err_expired :: perror where
  "err_expired = perror_new 110 ''expired''"
definition err_too_many_requests :: perror where
  "err_too_many_requests = perror_new 111 ''too many requests''"

lemmas perror_defs = perror_new_def err_internal_def err_unauthorized_def err_unknown_channel_def
  err_permission_denied_def err_method_not_found_def err_already_subscribed_def
  err_limit_exceeded_def err_bad_request_def err_not_available_def err_token_expired_def
  err_expired_def err_too_many_requests_def

section \<open>Disconnects (disconnect.rs)\<close>

record disconnect =
  dc_code :: u32
  dc_reason :: string
  dc_reconnect :: bool

definition disconnect_new :: "u32 \<Rightarrow> string \<Rightarrow> bool \<Rightarrow> disconnect" where
  "disconnect_new code reason reconnect =
     \<lparr>dc_code = code, dc_reason = reason, dc_reconnect = reconnect\<rparr>"

definition dc_normal :: disconnect where
  "dc_normal = disconnect_new 3000 ''normal'' True"
definition dc_shutdown :: disconnect where
  "dc_shutdown = disconnect_new 3001 ''shutdown'' True"
definition dc_invalid_token :: disconnect where
  "dc_invalid_token = disconnect_new 3002 ''invalid token'' False"
definition dc_bad_request :: disconnect where
  "dc_bad_request = disconnect_new 3003 ''bad request'' False"
definition dc_server_error :: disconnect where
  "dc_server_error = disconnect_new 3004 ''internal server error'' True"
definition dc_expired :: disconnect where
  "dc_expired = disconnect_new 3005 ''expired'' True"
definition dc_sub_expired :: disconnect where
  "dc_sub_expired = disconnect_new 3006 ''subscription expired'' True"
definition dc_stale :: disconnect where
  "dc_stale = disconnect_new 3007 ''stale'' False"
definition dc_slow :: disconnect where
  "dc_slow = disconnect_new 3008 ''slow'' True"
definition dc_write_error :: disconnect where
  "dc_write_error = disconnect_new 3009 ''write error'' True"
definition dc_insufficient_state :: disconnect where
  "dc_insufficient_state = disconnect_new 3010 ''insufficient state'' True"
definition dc_force_reconnect :: disconnect where
  "dc_force_reconnect = disconnect_new 3011 ''force reconnect'' True"
definition dc_force_no_reconnect :: disconnect where
  "dc_force_no_reconnect = disconnect_new 3012 ''force disconnect'' False"
definition dc_connection_limit :: disconnect where
  "dc_connection_limit = disconnect_new 3013 ''connection limit'' False"

lemmas disconnect_defs = disconnect_new_def dc_normal_def dc_shutdown_def dc_invalid_token_def
  dc_bad_request_def dc_server_error_def dc_expired_def dc_sub_expired_def dc_stale_def
  dc_slow_def dc_write_error_def dc_insufficient_state_def dc_force_reconnect_def
  dc_force_no_reconnect_def dc_connection_limit_def

section \<open>Methods and push kinds (method.rs)\<close>

datatype method_type =
  Connect | Subscribe | Unsubscribe | Publish | Presence | PresenceStats | History | Ping
| Send | Rpc | Refresh | SubRefresh | UnknownMethod

text \<open>The discriminants of the \<open>repr(u8)\<close> enum.\<close>

fun method_u8 :: "method_type \<Rightarrow> nat" where
  "method_u8 Connect = 0"
| "method_u8 Subscribe = 1"
| "method_u8 Unsubscribe = 2"
| "method_u8 Publish = 3"
| "method_u8 Presence = 4"
| "method_u8 PresenceStats = 5"
| "method_u8 History = 6"
| "method_u8 Ping = 7"
| "method_u8 Send = 8"
| "method_u8 Rpc = 9"
| "method_u8 Refresh = 10"
| "method_u8 SubRefresh = 11"
| "method_u8 UnknownMethod = 12"

lemma method_u8_inj: "method_u8 m = method_u8 n \<longleftrightarrow> m = n"
  by (cases m; cases n) simp_all

text \<open>The enum is ordered by its discriminant, as the casts in the code use it.\<close>

instantiation method_type :: linorder
begin

definition less_eq_method_type :: "method_type \<Rightarrow> method_type \<Rightarrow> bool" where
  "less_eq_method_type m n = (method_u8 m \<le> method_u8 n)"

definition less_method_type :: "method_type \<Rightarrow> method_type \<Rightarrow> bool" where
  "less_method_type m n = (method_u8 m < method_u8 n)"

instance
  by standard (auto simp: less_eq_method_type_def less_method_type_def method_u8_inj)

end

definition method_is_default :: "method_type \<Rightarrow> bool" where
  "method_is_default m = (m = Connect)"

definition method_from_u64 :: "u64 \<Rightarrow> method_type option" where
  "method_from_u64 n = Some
     (if n = 0 then Connect else if n = 1 then Subscribe else if n = 2 then Unsubscribe
      else if n = 3 then Publish else if n = 4 then Presence else if n = 5 then PresenceStats
      else if n = 6 then History else if n = 7 then Ping else if n = 8 then Send
      else if n = 9 then Rpc else if n = 10 then Refresh else if n = 11 then SubRefresh
      else UnknownMethod)"

text \<open>The argument is the value of a protobuf \<open>i32\<close>.\<close>

definition method_from_i32 :: "int \<Rightarrow> method_type option" where
  "method_from_i32 n = (if n < 0 then None else method_from_u64 (word_of_int n))"

definition method_from_name :: "string \<Rightarrow> method_type option" where
  "method_from_name s0 =
     (let s = map ascii_upper s0 in
      if s = ''CONNECT'' then Some Connect
      else if s = ''SUBSCRIBE'' then Some Subscribe
      else if s = ''UNSUBSCRIBE'' then Some Unsubscribe
      else if s = ''PUBLISH'' then Some Publish
      else if s = ''PRESENCE'' then Some Presence
      else if s = ''PRESENCE_STATS'' then Some PresenceStats
      else if s = ''HISTORY'' then Some History
      else if s = ''PING'' then Some Ping
      else if s = ''SEND'' then Some Send
      else if s = ''RPC'' then Some Rpc
      else if s = ''REFRESH'' then Some Refresh
      else if s = ''SUB_REFRESH'' then Some SubRefresh
      else None)"

text \<open>The scalar a JSON decoder hands to the visitor of \<open>MethodType::deserialize\<close>.\<close>

datatype json_scalar = JU64 u64 | JI64 int | JStr string

fun method_visit :: "json_scalar \<Rightarrow> method_type option" where
  "method_visit (JU64 n) = method_from_u64 n"
| "method_visit (JI64 n) = (if n < 0 then None else method_from_u64 (word_of_int n))"
| "method_visit (JStr s) = method_from_name s"

datatype push_type = PtPublication | PtJoin | PtLeave | PtUnsub | PtMessage | PtSub

fun push_type_u8 :: "push_type \<Rightarrow> nat" where
  "push_type_u8 PtPublication = 0"
| "push_type_u8 PtJoin = 1"
| "push_type_u8 PtLeave = 2"
| "push_type_u8 PtUnsub = 3"
| "push_type_u8 PtMessage = 4"
| "push_type_u8 PtSub = 5"

definition push_type_is_default :: "push_type \<Rightarrow> bool" where
  "push_type_is_default p = (p = PtPublication)"

definition push_type_from_i32 :: "int \<Rightarrow> push_type option" where
  "push_type_from_i32 n =
     (if n = 0 then Some PtPublication else if n = 1 then Some PtJoin
      else if n = 2 then Some PtLeave else if n = 3 then Some PtUnsub
      else if n = 4 then Some PtMessage else if n = 5 then Some PtSub else None)"

section \<open>Inner objects and messages (messages.rs)\<close>

record client_info =
  ci_user :: string
  ci_client :: string
  ci_conn_info :: "bytes option"
  ci_chan_info :: "bytes option"

definition client_info_default :: client_info where
  "client_info_default =
     \<lparr>ci_user = '''', ci_client = '''', ci_conn_info = None, ci_chan_info = None\<rparr>"

record publication =
  pub_seq :: u32
  pub_gen :: u32
  pub_uid :: string
  pub_data :: "bytes option"
  pub_info :: "client_info option"
  pub_offset :: u64

definition publication_default :: publication where
  "publication_default =
     \<lparr>pub_seq = 0, pub_gen = 0, pub_uid = '''', pub_data = None, pub_info = None, pub_offset = 0\<rparr>"

record join_msg =
  jm_info :: client_info

record leave_msg =
  lm_info :: client_info

record subscribe_request =
  sq_channel :: string
  sq_token :: string
  sq_recover :: bool
  sq_seq :: u32
  sq_gen :: u32
  sq_epoch :: string
  sq_offset :: u64

definition subscribe_request_default :: subscribe_request where
  "subscribe_request_default =
     \<lparr>sq_channel = '''', sq_token = '''', sq_recover = False, sq_seq = 0, sq_gen = 0,
      sq_epoch = '''', sq_offset = 0\<rparr>"

record subscribe_result =
  sr_expires :: bool
  sr_ttl :: u32
  sr_recoverable :: bool
  sr_seq :: u32
  sr_gen :: u32
  sr_epoch :: string
  sr_publications :: "publication list"
  sr_recovered :: bool
  sr_offset :: u64

definition subscribe_result_default :: subscribe_result where
  "subscribe_result_default =
     \<lparr>sr_expires = False, sr_ttl = 0, sr_recoverable = False, sr_seq = 0, sr_gen = 0,
      sr_epoch = '''', sr_publications = [], sr_recovered = False, sr_offset = 0\<rparr>"

record connect_request =
  cq_token :: string
  cq_data :: "bytes option"
  cq_name :: string
  cq_version :: string
  cq_subs :: "(string, subscribe_request) hmap"

definition connect_request_default :: connect_request where
  "connect_request_default =
     \<lparr>cq_token = '''', cq_data = None, cq_name = '''', cq_version = '''', cq_subs = []\<rparr>"

record connect_result =
  cr_client :: string
  cr_version :: string
  cr_expires :: bool
  cr_ttl :: u32
  cr_data :: "bytes option"
  cr_subs :: "(string, subscribe_result) hmap"

record publish_request =
  pq_channel :: string
  pq_data :: "bytes option"

record unsubscribe_request =
  uq_channel :: string

record history_request =
  hq_channel :: string

record history_result =
  hr_publications :: "publication list"

record refresh_request =
  rq_token :: string

record refresh_result =
  rr_client :: string
  rr_version :: string
  rr_expires :: bool
  rr_ttl :: u32

record sub_refresh_request =
  srq_channel :: string
  srq_token :: string

record sub_refresh_result =
  srr_expires :: bool
  srr_ttl :: u32

record rpc_request =
  rpq_method :: string
  rpq_data :: "bytes option"

record rpc_result =
  rpr_data :: "bytes option"

record presence_request =
  prq_channel :: string

record presence_result =
  prr_presence :: "(string, client_info) hmap"

record presence_stats_request =
  psq_channel :: string

record presence_stats_result =
  psr_num_clients :: u32
  psr_num_users :: u32

text \<open>\<open>PublishResult {}\<close>, \<open>UnsubscribeResult {}\<close> and \<open>PingResult {}\<close> carry no field.\<close>

datatype publish_result = PublishResult
datatype unsubscribe_result = UnsubscribeResult
datatype ping_result = PingResult

section \<open>Envelopes (command.rs)\<close>

record command =
  cmd_id :: u32
  cmd_method :: method_type
  cmd_params :: "bytes option"

record reply =
  rp_id :: u32
  rp_error :: "perror option"
  rp_result :: "bytes option"

definition reply_ok :: "u32 \<Rightarrow> bytes \<Rightarrow> reply" where
  "reply_ok i result = \<lparr>rp_id = i, rp_error = None, rp_result = Some result\<rparr>"

definition reply_bare :: "u32 \<Rightarrow> reply" where
  "reply_bare i = \<lparr>rp_id = i, rp_error = None, rp_result = None\<rparr>"

definition reply_err :: "u32 \<Rightarrow> perror \<Rightarrow> reply" where
  "reply_err i e = \<lparr>rp_id = i, rp_error = Some e, rp_result = None\<rparr>"

record push_msg =
  pu_type :: push_type
  pu_channel :: string
  pu_data :: "bytes option"

definition push_new :: "push_type \<Rightarrow> string \<Rightarrow> bytes option \<Rightarrow> push_msg" where
  "push_new t channel data = \<lparr>pu_type = t, pu_channel = channel, pu_data = data\<rparr>"

lemmas reply_defs = reply_ok_def reply_bare_def reply_err_def

lemma reply_simps [simp]:
  "rp_id (reply_ok i r) = i" "rp_error (reply_ok i r) = None" "rp_result (reply_ok i r) = Some r"
  "rp_id (reply_bare i) = i" "rp_error (reply_bare i) = None" "rp_result (reply_bare i) = None"
  "rp_id (reply_err i e) = i" "rp_error (reply_err i e) = Some e" "rp_result (reply_err i e) = None"
  by (simp_all add: reply_defs)

section \<open>Properties of the kinds and tables\<close>

lemma method_from_u64_u8: "method_from_u64 (of_nat (method_u8 m)) = Some m"
  by (cases m) (simp_all add: method_from_u64_def)

lemma method_from_u64_total: "\<exists>m. method_from_u64 n = Some m"
  by (simp add: method_from_u64_def)

lemma method_from_u64_unknown:
  assumes "12 \<le> n"
  shows "method_from_u64 n = Some UnknownMethod"
proof -
  have "12 \<le> unat n" using assms by (simp add: word_le_nat_alt)
  then show ?thesis by (auto simp: method_from_u64_def)
qed

lemma push_type_from_u8: "push_type_from_i32 (int (push_type_u8 p)) = Some p"
  by (cases p) (simp_all add: push_type_from_i32_def)

end
