(* ===== verification/Pb.thy ===== *)
theory Pb
  imports Protocol
begin

text \<open>
  The protobuf counterparts of the wire types (\<open>proto/client.proto\<close>, whose messages the build
  turns into structs with exactly these fields) and the conversions of \<open>convert.rs\<close> between them
  and the domain types. A protobuf \<open>bytes\<close> field cannot tell an absent payload from an empty one,
  so the conversions lose \<open>Some []\<close>: \<open>norm_raw\<close> and the \<open>_norm\<close> functions state exactly that
  loss. The locale \<open>pb_conversion\<close> is the contract of one pair of conversions; it is interpreted
  for every message type, and carries the round-trip lemmas of all of them.
\<close>

section \<open>Payload fields\<close>

definition raw_to_vec :: "bytes option \<Rightarrow> bytes" where
  "raw_to_vec r = (case r of None \<Rightarrow> [] | Some b \<Rightarrow> b)"

definition vec_to_raw :: "bytes \<Rightarrow> bytes option" where
  "vec_to_raw v = (if v = [] then None else Some v)"

definition norm_raw :: "bytes option \<Rightarrow> bytes option" where
  "norm_raw r = (if r = Some [] then None else r)"

lemma vec_to_raw_to_vec [simp]: "vec_to_raw (raw_to_vec r) = norm_raw r"
  by (auto simp: raw_to_vec_def vec_to_raw_def norm_raw_def split: option.splits)

lemma raw_to_vec_norm [simp]: "raw_to_vec (norm_raw r) = raw_to_vec r"
  by (auto simp: raw_to_vec_def norm_raw_def)

lemma raw_to_vec_vec_to_raw [simp]: "raw_to_vec (vec_to_raw v) = v"
  by (simp add: raw_to_vec_def vec_to_raw_def)

section \<open>The contract of a conversion\<close>

locale pb_conversion =
  fixes to_pb :: "'d \<Rightarrow> 'p"
    and from_pb :: "'p \<Rightarrow> 'd"
    and normal :: "'d \<Rightarrow> 'd"
  assumes from_to: "from_pb (to_pb d) = normal d"
    and to_normal: "to_pb (normal d) = to_pb d"
begin

lemma normal_idem: "normal (normal d) = normal d"
  by (metis from_to to_normal)

lemma to_pb_inj: "to_pb d = to_pb d' \<longleftrightarrow> normal d = normal d'"
  by (metis from_to to_normal)

lemma wire_trip:
  assumes "\<And>p. dec (enc p) = Some p"
  shows "map_option from_pb (dec (enc (to_pb d))) = Some (normal d)"
  using assms by (simp add: from_to)

lemma map_from_to: "map from_pb (map to_pb ds) = map normal ds"
  by (simp add: from_to)

lemma map_to_normal: "map to_pb (map normal ds) = map to_pb ds"
  by (simp add: to_normal)

lemma option_from_to: "map_option from_pb (map_option to_pb x) = map_option normal x"
  by (simp add: option.map_comp comp_def from_to)

lemma option_to_normal: "map_option to_pb (map_option normal x) = map_option to_pb x"
  by (simp add: option.map_comp comp_def to_normal)

lemma dict_from_to:
  "(\<lambda>(k, v). (k, from_pb v)) \<circ> (\<lambda>(k, v). (k, to_pb v)) = (\<lambda>(k, v). (k, normal v))"
  by (simp add: from_to fun_eq_iff)

lemma dict_to_normal:
  "(\<lambda>(k, v). (k, to_pb v)) \<circ> (\<lambda>(k, v). (k, normal v)) = (\<lambda>(k, v). (k, to_pb v))"
  by (simp add: to_normal fun_eq_iff)

lemmas forward = from_to map_from_to option_from_to dict_from_to

lemmas lifted = forward to_normal map_to_normal option_to_normal dict_to_normal

end

section \<open>The messages\<close>

subsection \<open>Error\<close>

record pb_perror =
  pberr_code :: u32
  pberr_message :: string

definition perror_to_pb :: "perror \<Rightarrow> pb_perror" where
  "perror_to_pb d =
    \<lparr>pberr_code = err_code d, pberr_message = err_message d\<rparr>"

definition perror_from_pb :: "pb_perror \<Rightarrow> perror" where
  "perror_from_pb p =
    \<lparr>err_code = pberr_code p, err_message = pberr_message p\<rparr>"

interpretation pb_perror: pb_conversion perror_to_pb perror_from_pb "\<lambda>d. d"
  by unfold_locales
    (simp_all add: perror_to_pb_def perror_from_pb_def)

subsection \<open>ClientInfo\<close>

record pb_client_info =
  pbci_user :: string
  pbci_client :: string
  pbci_conn_info :: bytes
  pbci_chan_info :: bytes

definition client_info_to_pb :: "client_info \<Rightarrow> pb_client_info" where
  "client_info_to_pb d =
    \<lparr>pbci_user = ci_user d, pbci_client = ci_client d,
     pbci_conn_info = raw_to_vec (ci_conn_info d), pbci_chan_info = raw_to_vec (ci_chan_info d)\<rparr>"

definition client_info_from_pb :: "pb_client_info \<Rightarrow> client_info" where
  "client_info_from_pb p =
    \<lparr>ci_user = pbci_user p, ci_client = pbci_client p,
     ci_conn_info = vec_to_raw (pbci_conn_info p), ci_chan_info = vec_to_raw (pbci_chan_info p)\<rparr>"

definition client_info_norm :: "client_info \<Rightarrow> client_info" where
  "client_info_norm d = d\<lparr>ci_conn_info := norm_raw (ci_conn_info d), ci_chan_info := norm_raw (ci_chan_info d)\<rparr>"

interpretation pb_client_info: pb_conversion client_info_to_pb client_info_from_pb client_info_norm
  by unfold_locales
    (simp_all add: client_info_to_pb_def client_info_from_pb_def client_info_norm_def)

subsection \<open>Publication\<close>

record pb_publication =
  pbpub_seq :: u32
  pbpub_gen :: u32
  pbpub_uid :: string
  pbpub_data :: bytes
  pbpub_info :: "pb_client_info option"
  pbpub_offset :: u64

definition publication_to_pb :: "publication \<Rightarrow> pb_publication" where
  "publication_to_pb d =
    \<lparr>pbpub_seq = pub_seq d, pbpub_gen = pub_gen d, pbpub_uid = pub_uid d,
     pbpub_data = raw_to_vec (pub_data d),
     pbpub_info = map_option client_info_to_pb (pub_info d), pbpub_offset = pub_offset d\<rparr>"

definition publication_from_pb :: "pb_publication \<Rightarrow> publication" where
  "publication_from_pb p =
    \<lparr>pub_seq = pbpub_seq p, pub_gen = pbpub_gen p, pub_uid = pbpub_uid p,
     pub_data = vec_to_raw (pbpub_data p),
     pub_info = map_option client_info_from_pb (pbpub_info p), pub_offset = pbpub_offset p\<rparr>"

definition publication_norm :: "publication \<Rightarrow> publication" where
  "publication_norm d = d\<lparr>pub_data := norm_raw (pub_data d), pub_info := map_option client_info_norm (pub_info d)\<rparr>"

interpretation pb_publication: pb_conversion publication_to_pb publication_from_pb publication_norm
  by unfold_locales
    (simp_all add: publication_to_pb_def publication_from_pb_def publication_norm_def pb_client_info.lifted)

subsection \<open>SubscribeRequest\<close>

record pb_subscribe_request =
  pbsq_channel :: string
  pbsq_token :: string
  pbsq_recover :: bool
  pbsq_seq :: u32
  pbsq_gen :: u32
  pbsq_epoch :: string
  pbsq_offset :: u64

definition subscribe_request_to_pb :: "subscribe_request \<Rightarrow> pb_subscribe_request" where
  "subscribe_request_to_pb d =
    \<lparr>pbsq_channel = sq_channel d, pbsq_token = sq_token d, pbsq_recover = sq_recover d,
     pbsq_seq = sq_seq d, pbsq_gen = sq_gen d, pbsq_epoch = sq_epoch d, pbsq_offset = sq_offset d\<rparr>"

definition subscribe_request_from_pb :: "pb_subscribe_request \<Rightarrow> subscribe_request" where
  "subscribe_request_from_pb p =
    \<lparr>sq_channel = pbsq_channel p, sq_token = pbsq_token p, sq_recover = pbsq_recover p,
     sq_seq = pbsq_seq p, sq_gen = pbsq_gen p, sq_epoch = pbsq_epoch p, sq_offset = pbsq_offset p\<rparr>"

interpretation pb_subscribe_request: pb_conversion subscribe_request_to_pb subscribe_request_from_pb "\<lambda>d. d"
  by unfold_locales
    (simp_all add: subscribe_request_to_pb_def subscribe_request_from_pb_def)

subsection \<open>SubscribeResult\<close>

record pb_subscribe_result =
  pbsr_expires :: bool
  pbsr_ttl :: u32
  pbsr_recoverable :: bool
  pbsr_seq :: u32
  pbsr_gen :: u32
  pbsr_epoch :: string
  pbsr_publications :: "pb_publication list"
  pbsr_recovered :: bool
  pbsr_offset :: u64

definition subscribe_result_to_pb :: "subscribe_result \<Rightarrow> pb_subscribe_result" where
  "subscribe_result_to_pb d =
    \<lparr>pbsr_expires = sr_expires d, pbsr_ttl = sr_ttl d, pbsr_recoverable = sr_recoverable d,
     pbsr_seq = sr_seq d, pbsr_gen = sr_gen d, pbsr_epoch = sr_epoch d,
     pbsr_publications = map publication_to_pb (sr_publications d),
     pbsr_recovered = sr_recovered d, pbsr_offset = sr_offset d\<rparr>"

definition subscribe_result_from_pb :: "pb_subscribe_result \<Rightarrow> subscribe_result" where
  "subscribe_result_from_pb p =
    \<lparr>sr_expires = pbsr_expires p, sr_ttl = pbsr_ttl p, sr_recoverable = pbsr_recoverable p,
     sr_seq = pbsr_seq p, sr_gen = pbsr_gen p, sr_epoch = pbsr_epoch p,
     sr_publications = map publication_from_pb (pbsr_publications p),
     sr_recovered = pbsr_recovered p, sr_offset = pbsr_offset p\<rparr>"

definition subscribe_result_norm :: "subscribe_result \<Rightarrow> subscribe_result" where
  "subscribe_result_norm d = d\<lparr>sr_publications := map publication_norm (sr_publications d)\<rparr>"

interpretation pb_subscribe_result: pb_conversion subscribe_result_to_pb subscribe_result_from_pb subscribe_result_norm
  by unfold_locales
    (simp_all add: subscribe_result_to_pb_def subscribe_result_from_pb_def subscribe_result_norm_def pb_publication.lifted)

subsection \<open>ConnectRequest\<close>

record pb_connect_request =
  pbcq_token :: string
  pbcq_data :: bytes
  pbcq_name :: string
  pbcq_version :: string
  pbcq_subs :: "(string, pb_subscribe_request) hmap"

definition connect_request_to_pb :: "connect_request \<Rightarrow> pb_connect_request" where
  "connect_request_to_pb d =
    \<lparr>pbcq_token = cq_token d, pbcq_data = raw_to_vec (cq_data d), pbcq_name = cq_name d,
     pbcq_version = cq_version d,
     pbcq_subs = map (\<lambda>(k, v). (k, subscribe_request_to_pb v)) (cq_subs d)\<rparr>"

definition connect_request_from_pb :: "pb_connect_request \<Rightarrow> connect_request" where
  "connect_request_from_pb p =
    \<lparr>cq_token = pbcq_token p, cq_data = vec_to_raw (pbcq_data p), cq_name = pbcq_name p,
     cq_version = pbcq_version p,
     cq_subs = map (\<lambda>(k, v). (k, subscribe_request_from_pb v)) (pbcq_subs p)\<rparr>"

definition connect_request_norm :: "connect_request \<Rightarrow> connect_request" where
  "connect_request_norm d = d\<lparr>cq_data := norm_raw (cq_data d)\<rparr>"

interpretation pb_connect_request: pb_conversion connect_request_to_pb connect_request_from_pb connect_request_norm
  by unfold_locales
    (simp_all add: connect_request_to_pb_def connect_request_from_pb_def connect_request_norm_def pb_subscribe_request.forward)

subsection \<open>ConnectResult\<close>

record pb_connect_result =
  pbcr_client :: string
  pbcr_version :: string
  pbcr_expires :: bool
  pbcr_ttl :: u32
  pbcr_data :: bytes
  pbcr_subs :: "(string, pb_subscribe_result) hmap"

definition connect_result_to_pb :: "connect_result \<Rightarrow> pb_connect_result" where
  "connect_result_to_pb d =
    \<lparr>pbcr_client = cr_client d, pbcr_version = cr_version d, pbcr_expires = cr_expires d,
     pbcr_ttl = cr_ttl d, pbcr_data = raw_to_vec (cr_data d),
     pbcr_subs = map (\<lambda>(k, v). (k, subscribe_result_to_pb v)) (cr_subs d)\<rparr>"

definition connect_result_from_pb :: "pb_connect_result \<Rightarrow> connect_result" where
  "connect_result_from_pb p =
    \<lparr>cr_client = pbcr_client p, cr_version = pbcr_version p, cr_expires = pbcr_expires p,
     cr_ttl = pbcr_ttl p, cr_data = vec_to_raw (pbcr_data p),
     cr_subs = map (\<lambda>(k, v). (k, subscribe_result_from_pb v)) (pbcr_subs p)\<rparr>"

definition connect_result_norm :: "connect_result \<Rightarrow> connect_result" where
  "connect_result_norm d = d\<lparr>cr_data := norm_raw (cr_data d),
     cr_subs := map (\<lambda>(k, v). (k, subscribe_result_norm v)) (cr_subs d)\<rparr>"

interpretation pb_connect_result: pb_conversion connect_result_to_pb connect_result_from_pb connect_result_norm
  by unfold_locales
    (simp_all add: connect_result_to_pb_def connect_result_from_pb_def connect_result_norm_def pb_subscribe_result.lifted)

subsection \<open>PresenceRequest\<close>

record pb_presence_request =
  pbprq_channel :: string

definition presence_request_to_pb :: "presence_request \<Rightarrow> pb_presence_request" where
  "presence_request_to_pb d =
    \<lparr>pbprq_channel = prq_channel d\<rparr>"

definition presence_request_from_pb :: "pb_presence_request \<Rightarrow> presence_request" where
  "presence_request_from_pb p =
    \<lparr>prq_channel = pbprq_channel p\<rparr>"

interpretation pb_presence_request: pb_conversion presence_request_to_pb presence_request_from_pb "\<lambda>d. d"
  by unfold_locales
    (simp_all add: presence_request_to_pb_def presence_request_from_pb_def)

subsection \<open>PresenceResult\<close>

record pb_presence_result =
  pbprr_presence :: "(string, pb_client_info) hmap"

definition presence_result_to_pb :: "presence_result \<Rightarrow> pb_presence_result" where
  "presence_result_to_pb d =
    \<lparr>pbprr_presence = map (\<lambda>(k, v). (k, client_info_to_pb v)) (prr_presence d)\<rparr>"

definition presence_result_from_pb :: "pb_presence_result \<Rightarrow> presence_result" where
  "presence_result_from_pb p =
    \<lparr>prr_presence = map (\<lambda>(k, v). (k, client_info_from_pb v)) (pbprr_presence p)\<rparr>"

definition presence_result_norm :: "presence_result \<Rightarrow> presence_result" where
  "presence_result_norm d = d\<lparr>prr_presence := map (\<lambda>(k, v). (k, client_info_norm v)) (prr_presence d)\<rparr>"

interpretation pb_presence_result: pb_conversion presence_result_to_pb presence_result_from_pb presence_result_norm
  by unfold_locales
    (simp_all add: presence_result_to_pb_def presence_result_from_pb_def presence_result_norm_def pb_client_info.lifted)

subsection \<open>PresenceStatsRequest\<close>

record pb_presence_stats_request =
  pbpsq_channel :: string

definition presence_stats_request_to_pb :: "presence_stats_request \<Rightarrow> pb_presence_stats_request" where
  "presence_stats_request_to_pb d =
    \<lparr>pbpsq_channel = psq_channel d\<rparr>"

definition presence_stats_request_from_pb :: "pb_presence_stats_request \<Rightarrow> presence_stats_request" where
  "presence_stats_request_from_pb p =
    \<lparr>psq_channel = pbpsq_channel p\<rparr>"

interpretation pb_presence_stats_request: pb_conversion presence_stats_request_to_pb presence_stats_request_from_pb "\<lambda>d. d"
  by unfold_locales
    (simp_all add: presence_stats_request_to_pb_def presence_stats_request_from_pb_def)

subsection \<open>PresenceStatsResult\<close>

record pb_presence_stats_result =
  pbpsr_num_clients :: u32
  pbpsr_num_users :: u32

definition presence_stats_result_to_pb :: "presence_stats_result \<Rightarrow> pb_presence_stats_result" where
  "presence_stats_result_to_pb d =
    \<lparr>pbpsr_num_clients = psr_num_clients d, pbpsr_num_users = psr_num_users d\<rparr>"

definition presence_stats_result_from_pb :: "pb_presence_stats_result \<Rightarrow> presence_stats_result" where
  "presence_stats_result_from_pb p =
    \<lparr>psr_num_clients = pbpsr_num_clients p, psr_num_users = pbpsr_num_users p\<rparr>"

interpretation pb_presence_stats_result: pb_conversion presence_stats_result_to_pb presence_stats_result_from_pb "\<lambda>d. d"
  by unfold_locales
    (simp_all add: presence_stats_result_to_pb_def presence_stats_result_from_pb_def)

subsection \<open>HistoryRequest\<close>

record pb_history_request =
  pbhq_channel :: string

definition history_request_to_pb :: "history_request \<Rightarrow> pb_history_request" where
  "history_request_to_pb d =
    \<lparr>pbhq_channel = hq_channel d\<rparr>"

definition history_request_from_pb :: "pb_history_request \<Rightarrow> history_request" where
  "history_request_from_pb p =
    \<lparr>hq_channel = pbhq_channel p\<rparr>"

interpretation pb_history_request: pb_conversion history_request_to_pb history_request_from_pb "\<lambda>d. d"
  by unfold_locales
    (simp_all add: history_request_to_pb_def history_request_from_pb_def)

subsection \<open>HistoryResult\<close>

record pb_history_result =
  pbhr_publications :: "pb_publication list"

definition history_result_to_pb :: "history_result \<Rightarrow> pb_history_result" where
  "history_result_to_pb d =
    \<lparr>pbhr_publications = map publication_to_pb (hr_publications d)\<rparr>"

definition history_result_from_pb :: "pb_history_result \<Rightarrow> history_result" where
  "history_result_from_pb p =
    \<lparr>hr_publications = map publication_from_pb (pbhr_publications p)\<rparr>"

definition history_result_norm :: "history_result \<Rightarrow> history_result" where
  "history_result_norm d = d\<lparr>hr_publications := map publication_norm (hr_publications d)\<rparr>"

interpretation pb_history_result: pb_conversion history_result_to_pb history_result_from_pb history_result_norm
  by unfold_locales
    (simp_all add: history_result_to_pb_def history_result_from_pb_def history_result_norm_def pb_publication.lifted)

subsection \<open>Join\<close>

record pb_join_msg =
  pbjm_info :: "pb_client_info option"

definition join_msg_to_pb :: "join_msg \<Rightarrow> pb_join_msg" where
  "join_msg_to_pb d =
    \<lparr>pbjm_info = Some (client_info_to_pb (jm_info d))\<rparr>"

definition join_msg_from_pb :: "pb_join_msg \<Rightarrow> join_msg" where
  "join_msg_from_pb p =
    \<lparr>jm_info = (case pbjm_info p of None \<Rightarrow> client_info_default | Some i \<Rightarrow> client_info_from_pb i)\<rparr>"

definition join_msg_norm :: "join_msg \<Rightarrow> join_msg" where
  "join_msg_norm d = d\<lparr>jm_info := client_info_norm (jm_info d)\<rparr>"

interpretation pb_join_msg: pb_conversion join_msg_to_pb join_msg_from_pb join_msg_norm
  by unfold_locales
    (simp_all add: join_msg_to_pb_def join_msg_from_pb_def join_msg_norm_def pb_client_info.lifted)

subsection \<open>Leave\<close>

record pb_leave_msg =
  pblm_info :: "pb_client_info option"

definition leave_msg_to_pb :: "leave_msg \<Rightarrow> pb_leave_msg" where
  "leave_msg_to_pb d =
    \<lparr>pblm_info = Some (client_info_to_pb (lm_info d))\<rparr>"

definition leave_msg_from_pb :: "pb_leave_msg \<Rightarrow> leave_msg" where
  "leave_msg_from_pb p =
    \<lparr>lm_info = (case pblm_info p of None \<Rightarrow> client_info_default | Some i \<Rightarrow> client_info_from_pb i)\<rparr>"

definition leave_msg_norm :: "leave_msg \<Rightarrow> leave_msg" where
  "leave_msg_norm d = d\<lparr>lm_info := client_info_norm (lm_info d)\<rparr>"

interpretation pb_leave_msg: pb_conversion leave_msg_to_pb leave_msg_from_pb leave_msg_norm
  by unfold_locales
    (simp_all add: leave_msg_to_pb_def leave_msg_from_pb_def leave_msg_norm_def pb_client_info.lifted)

subsection \<open>RefreshRequest\<close>

record pb_refresh_request =
  pbrq_token :: string

definition refresh_request_to_pb :: "refresh_request \<Rightarrow> pb_refresh_request" where
  "refresh_request_to_pb d =
    \<lparr>pbrq_token = rq_token d\<rparr>"

definition refresh_request_from_pb :: "pb_refresh_request \<Rightarrow> refresh_request" where
  "refresh_request_from_pb p =
    \<lparr>rq_token = pbrq_token p\<rparr>"

interpretation pb_refresh_request: pb_conversion refresh_request_to_pb refresh_request_from_pb "\<lambda>d. d"
  by unfold_locales
    (simp_all add: refresh_request_to_pb_def refresh_request_from_pb_def)

subsection \<open>RefreshResult\<close>

record pb_refresh_result =
  pbrr_client :: string
  pbrr_version :: string
  pbrr_expires :: bool
  pbrr_ttl :: u32

definition refresh_result_to_pb :: "refresh_result \<Rightarrow> pb_refresh_result" where
  "refresh_result_to_pb d =
    \<lparr>pbrr_client = rr_client d, pbrr_version = rr_version d, pbrr_expires = rr_expires d,
     pbrr_ttl = rr_ttl d\<rparr>"

definition refresh_result_from_pb :: "pb_refresh_result \<Rightarrow> refresh_result" where
  "refresh_result_from_pb p =
    \<lparr>rr_client = pbrr_client p, rr_version = pbrr_version p, rr_expires = pbrr_expires p,
     rr_ttl = pbrr_ttl p\<rparr>"

interpretation pb_refresh_result: pb_conversion refresh_result_to_pb refresh_result_from_pb "\<lambda>d. d"
  by unfold_locales
    (simp_all add: refresh_result_to_pb_def refresh_result_from_pb_def)

subsection \<open>SubRefreshRequest\<close>

record pb_sub_refresh_request =
  pbsrq_channel :: string
  pbsrq_token :: string

definition sub_refresh_request_to_pb :: "sub_refresh_request \<Rightarrow> pb_sub_refresh_request" where
  "sub_refresh_request_to_pb d =
    \<lparr>pbsrq_channel = srq_channel d, pbsrq_token = srq_token d\<rparr>"

definition sub_refresh_request_from_pb :: "pb_sub_refresh_request \<Rightarrow> sub_refresh_request" where
  "sub_refresh_request_from_pb p =
    \<lparr>srq_channel = pbsrq_channel p, srq_token = pbsrq_token p\<rparr>"

interpretation pb_sub_refresh_request: pb_conversion sub_refresh_request_to_pb sub_refresh_request_from_pb "\<lambda>d. d"
  by unfold_locales
    (simp_all add: sub_refresh_request_to_pb_def sub_refresh_request_from_pb_def)

subsection \<open>SubRefreshResult\<close>

record pb_sub_refresh_result =
  pbsrr_expires :: bool
  pbsrr_ttl :: u32

definition sub_refresh_result_to_pb :: "sub_refresh_result \<Rightarrow> pb_sub_refresh_result" where
  "sub_refresh_result_to_pb d =
    \<lparr>pbsrr_expires = srr_expires d, pbsrr_ttl = srr_ttl d\<rparr>"

definition sub_refresh_result_from_pb :: "pb_sub_refresh_result \<Rightarrow> sub_refresh_result" where
  "sub_refresh_result_from_pb p =
    \<lparr>srr_expires = pbsrr_expires p, srr_ttl = pbsrr_ttl p\<rparr>"

interpretation pb_sub_refresh_result: pb_conversion sub_refresh_result_to_pb sub_refresh_result_from_pb "\<lambda>d. d"
  by unfold_locales
    (simp_all add: sub_refresh_result_to_pb_def sub_refresh_result_from_pb_def)

subsection \<open>PublishRequest\<close>

record pb_publish_request =
  pbpq_channel :: string
  pbpq_data :: bytes

definition publish_request_to_pb :: "publish_request \<Rightarrow> pb_publish_request" where
  "publish_request_to_pb d =
    \<lparr>pbpq_channel = pq_channel d, pbpq_data = raw_to_vec (pq_data d)\<rparr>"

definition publish_request_from_pb :: "pb_publish_request \<Rightarrow> publish_request" where
  "publish_request_from_pb p =
    \<lparr>pq_channel = pbpq_channel p, pq_data = vec_to_raw (pbpq_data p)\<rparr>"

definition publish_request_norm :: "publish_request \<Rightarrow> publish_request" where
  "publish_request_norm d = d\<lparr>pq_data := norm_raw (pq_data d)\<rparr>"

interpretation pb_publish_request: pb_conversion publish_request_to_pb publish_request_from_pb publish_request_norm
  by unfold_locales
    (simp_all add: publish_request_to_pb_def publish_request_from_pb_def publish_request_norm_def)

subsection \<open>RpcRequest\<close>

record pb_rpc_request =
  pbrpq_method :: string
  pbrpq_data :: bytes

definition rpc_request_to_pb :: "rpc_request \<Rightarrow> pb_rpc_request" where
  "rpc_request_to_pb d =
    \<lparr>pbrpq_method = rpq_method d, pbrpq_data = raw_to_vec (rpq_data d)\<rparr>"

definition rpc_request_from_pb :: "pb_rpc_request \<Rightarrow> rpc_request" where
  "rpc_request_from_pb p =
    \<lparr>rpq_method = pbrpq_method p, rpq_data = vec_to_raw (pbrpq_data p)\<rparr>"

definition rpc_request_norm :: "rpc_request \<Rightarrow> rpc_request" where
  "rpc_request_norm d = d\<lparr>rpq_data := norm_raw (rpq_data d)\<rparr>"

interpretation pb_rpc_request: pb_conversion rpc_request_to_pb rpc_request_from_pb rpc_request_norm
  by unfold_locales
    (simp_all add: rpc_request_to_pb_def rpc_request_from_pb_def rpc_request_norm_def)

subsection \<open>RpcResult\<close>

record pb_rpc_result =
  pbrpr_data :: bytes

definition rpc_result_to_pb :: "rpc_result \<Rightarrow> pb_rpc_result" where
  "rpc_result_to_pb d =
    \<lparr>pbrpr_data = raw_to_vec (rpr_data d)\<rparr>"

definition rpc_result_from_pb :: "pb_rpc_result \<Rightarrow> rpc_result" where
  "rpc_result_from_pb p =
    \<lparr>rpr_data = vec_to_raw (pbrpr_data p)\<rparr>"

definition rpc_result_norm :: "rpc_result \<Rightarrow> rpc_result" where
  "rpc_result_norm d = d\<lparr>rpr_data := norm_raw (rpr_data d)\<rparr>"

interpretation pb_rpc_result: pb_conversion rpc_result_to_pb rpc_result_from_pb rpc_result_norm
  by unfold_locales
    (simp_all add: rpc_result_to_pb_def rpc_result_from_pb_def rpc_result_norm_def)

subsection \<open>UnsubscribeRequest\<close>

record pb_unsubscribe_request =
  pbuq_channel :: string

definition unsubscribe_request_to_pb :: "unsubscribe_request \<Rightarrow> pb_unsubscribe_request" where
  "unsubscribe_request_to_pb d =
    \<lparr>pbuq_channel = uq_channel d\<rparr>"

definition unsubscribe_request_from_pb :: "pb_unsubscribe_request \<Rightarrow> unsubscribe_request" where
  "unsubscribe_request_from_pb p =
    \<lparr>uq_channel = pbuq_channel p\<rparr>"

interpretation pb_unsubscribe_request: pb_conversion unsubscribe_request_to_pb unsubscribe_request_from_pb "\<lambda>d. d"
  by unfold_locales
    (simp_all add: unsubscribe_request_to_pb_def unsubscribe_request_from_pb_def)

subsection \<open>PublishResult\<close>

datatype pb_publish_result = PbPublishResult

definition publish_result_to_pb :: "publish_result \<Rightarrow> pb_publish_result" where
  "publish_result_to_pb d = PbPublishResult"

definition publish_result_from_pb :: "pb_publish_result \<Rightarrow> publish_result" where
  "publish_result_from_pb p = PublishResult"

interpretation pb_publish_result: pb_conversion publish_result_to_pb publish_result_from_pb "\<lambda>d. d"
  by unfold_locales (metis (full_types) publish_result.exhaust publish_result_from_pb_def, simp)

subsection \<open>UnsubscribeResult\<close>

datatype pb_unsubscribe_result = PbUnsubscribeResult

definition unsubscribe_result_to_pb :: "unsubscribe_result \<Rightarrow> pb_unsubscribe_result" where
  "unsubscribe_result_to_pb d = PbUnsubscribeResult"

definition unsubscribe_result_from_pb :: "pb_unsubscribe_result \<Rightarrow> unsubscribe_result" where
  "unsubscribe_result_from_pb p = UnsubscribeResult"

interpretation pb_unsubscribe_result: pb_conversion unsubscribe_result_to_pb unsubscribe_result_from_pb "\<lambda>d. d"
  by unfold_locales (metis (full_types) unsubscribe_result.exhaust unsubscribe_result_from_pb_def, simp)

subsection \<open>PingResult\<close>

datatype pb_ping_result = PbPingResult

definition ping_result_to_pb :: "ping_result \<Rightarrow> pb_ping_result" where
  "ping_result_to_pb d = PbPingResult"

definition ping_result_from_pb :: "pb_ping_result \<Rightarrow> ping_result" where
  "ping_result_from_pb p = PingResult"

interpretation pb_ping_result: pb_conversion ping_result_to_pb ping_result_from_pb "\<lambda>d. d"
  by unfold_locales (metis (full_types) ping_result.exhaust ping_result_from_pb_def, simp)

section \<open>The envelopes\<close>

record pb_command =
  pcmd_id :: u32
  pcmd_method :: int
  pcmd_params :: bytes

definition command_to_pb :: "command \<Rightarrow> pb_command" where
  "command_to_pb c =
    \<lparr>pcmd_id = cmd_id c, pcmd_method = int (method_u8 (cmd_method c)),
     pcmd_params = raw_to_vec (cmd_params c)\<rparr>"

record pb_reply =
  prp_id :: u32
  prp_error :: "pb_perror option"
  prp_result :: bytes

definition reply_to_pb :: "reply \<Rightarrow> pb_reply" where
  "reply_to_pb r =
    \<lparr>prp_id = rp_id r, prp_error = map_option perror_to_pb (rp_error r),
     prp_result = raw_to_vec (rp_result r)\<rparr>"

definition reply_from_pb :: "pb_reply \<Rightarrow> reply" where
  "reply_from_pb p =
    \<lparr>rp_id = prp_id p, rp_error = map_option perror_from_pb (prp_error p),
     rp_result = vec_to_raw (prp_result p)\<rparr>"

definition reply_norm :: "reply \<Rightarrow> reply" where
  "reply_norm r = r\<lparr>rp_result := norm_raw (rp_result r)\<rparr>"

interpretation pb_reply: pb_conversion reply_to_pb reply_from_pb reply_norm
  by unfold_locales
    (simp_all add: reply_to_pb_def reply_from_pb_def reply_norm_def pb_perror.forward option.map_ident)

record pb_push =
  ppu_type :: int
  ppu_channel :: string
  ppu_data :: bytes

definition push_to_pb :: "push_msg \<Rightarrow> pb_push" where
  "push_to_pb p =
    \<lparr>ppu_type = int (push_type_u8 (pu_type p)), ppu_channel = pu_channel p,
     ppu_data = raw_to_vec (pu_data p)\<rparr>"

end
