(* ===== verification/Codec.thy ===== *)
theory Codec
  imports Pb
begin

text \<open>
  The per-connection codec (\<open>crates/centrifugo-protocol/src/codec.rs\<close> and \<open>json.rs\<close>): the
  uvarint length prefix, the framing of commands and replies in both formats, the typed params
  and results, and the push frame. \<open>serde_json\<close> and \<open>prost\<close> are third-party: their functions on
  the message types are the fields of the record \<open>wire\<close>, a parameter of every definition that
  serializes; a serializer that fails is \<open>None\<close>. The laws the round-trip theorems need of them
  (a message decodes to what was encoded) are hypotheses of those theorems.
\<close>

section \<open>Formats and errors\<close>

datatype protocol_type = Json | Protobuf

datatype codec_error = CodecJson | ProtoDecode | BadMethod int | Truncated

section \<open>The uvarint length prefix\<close>

unbundle bit_operations_syntax

function encode_uvarint :: "u64 \<Rightarrow> bytes" where
  "encode_uvarint v =
     (if 0x80 \<le> v then (ucast v OR 0x80) # encode_uvarint (drop_bit 7 v) else [ucast v])"
  by pat_completeness auto
termination
proof (relation "measure unat")
  fix v :: u64
  assume "0x80 \<le> v"
  then have "128 \<le> unat v" by (simp add: word_le_nat_alt)
  then have "unat v div 128 < unat v" by simp
  then show "(drop_bit 7 v, v) \<in> measure unat" by (simp add: drop_bit_eq_div unat_div)
qed simp

declare encode_uvarint.simps [simp del]

fun decode_uvarint_from :: "nat \<Rightarrow> nat \<Rightarrow> u64 \<Rightarrow> bytes \<Rightarrow> (u64 \<times> nat) option" where
  "decode_uvarint_from i shift result [] = None"
| "decode_uvarint_from i shift result (b # bs) =
     (if 10 \<le> i then None
      else
        (let result = result OR push_bit shift (ucast (b AND 0x7f)) in
         if b AND 0x80 = 0 then Some (result, i + 1)
         else decode_uvarint_from (i + 1) (shift + 7) result bs))"

definition decode_uvarint :: "bytes \<Rightarrow> (u64 \<times> nat) option" where
  "decode_uvarint buf = decode_uvarint_from 0 0 0 buf"

lemma low_bits_eq_mask: "(0x7f :: 'a::len word) = mask 7"
  by (simp add: mask_eq_exp_minus_1)

lemma high_bit_eq: "(0x80 :: u8) = push_bit 7 1"
  by simp

lemma uvarint_last_byte:
  assumes "v < (0x80 :: u64)"
  shows "ucast ((ucast v :: u8) AND 0x7f) = v" "(ucast v :: u8) AND 0x80 = 0"
proof -
  have "unat v < 2 ^ 7" using assms by (simp add: word_less_nat_alt)
  then have "unat (take_bit 7 v) = unat v" by (simp add: unsigned_take_bit_eq take_bit_nat_eq_self)
  then have "take_bit 7 v = v" by (simp only: word_unat_eq_iff)
  then have v: "bit v n \<Longrightarrow> n < 7" for n
    by (metis bit_take_bit_iff)
  then have v8: "bit v n \<Longrightarrow> n < 8" for n
    by (meson less_trans numeral_less_iff semiring_norm)
  show "ucast ((ucast v :: u8) AND 0x7f) = v"
    by (rule bit_word_eqI) (use v v8 in \<open>auto simp: low_bits_eq_mask bit_simps\<close>)
  show "(ucast v :: u8) AND 0x80 = 0"
    by (rule bit_word_eqI) (use v in \<open>fastforce simp: high_bit_eq bit_simps simp del: push_bit_numeral push_bit_of_1\<close>)
qed

lemma uvarint_split: "(v AND 0x7f) OR push_bit 7 (drop_bit 7 v) = (v :: u64)"
proof (rule bit_word_eqI)
  fix n
  show "bit ((v AND 0x7f) OR push_bit 7 (drop_bit 7 v)) n = bit v n"
    by (cases "n < 7") (auto simp: low_bits_eq_mask bit_simps dest: bit_imp_le_length)
qed

lemma uvarint_mid_byte: "ucast (((ucast v :: u8) OR 0x80) AND 0x7f) = (v :: u64) AND 0x7f"
    "((ucast v :: u8) OR 0x80) AND 0x80 \<noteq> 0"
proof -
  show "ucast (((ucast v :: u8) OR 0x80) AND 0x7f) = (v :: u64) AND 0x7f"
    by (rule bit_word_eqI) (auto simp: low_bits_eq_mask high_bit_eq bit_simps simp del: push_bit_numeral push_bit_of_1)
  have "bit (((ucast v :: u8) OR 0x80) AND 0x80) 7"
    by (simp add: bit_simps high_bit_eq del: push_bit_numeral push_bit_of_1)
  then show "((ucast v :: u8) OR 0x80) AND 0x80 \<noteq> 0" by fastforce
qed

lemma decode_encode_from:
  "i < 10 \<Longrightarrow> unat v < 2 ^ (64 - 7 * i) \<Longrightarrow>
   decode_uvarint_from i (7 * i) r (encode_uvarint v @ rest) =
     Some (r OR push_bit (7 * i) v, i + length (encode_uvarint v)) \<and>
   i + length (encode_uvarint v) \<le> 10"
proof (induction v arbitrary: i r rule: encode_uvarint.induct)
  case (1 v)
  show ?case
  proof (cases "0x80 \<le> v")
    case True
    then have ge: "128 \<le> unat v" by (simp add: word_le_nat_alt)
    have "7 < 64 - 7 * i"
    proof (rule ccontr)
      assume "\<not> ?thesis"
      then have "(2::nat) ^ (64 - 7 * i) \<le> 2 ^ 7" by (intro power_increasing) auto
      with 1(3) ge show False by simp
    qed
    then have i: "i + 1 < 10" and e: "64 - 7 * i = (64 - 7 * (i + 1)) + 7" by auto
    have "unat (drop_bit 7 v) < 2 ^ (64 - 7 * (i + 1))"
      using 1(3) unfolding e power_add
      by (simp add: drop_bit_eq_div unat_div less_mult_imp_div_less)
    from 1(1) [OF True i this]
    have IH: "decode_uvarint_from (i + 1) (7 * (i + 1)) r' (encode_uvarint (drop_bit 7 v) @ rest) =
        Some (r' OR push_bit (7 * (i + 1)) (drop_bit 7 v),
              i + 1 + length (encode_uvarint (drop_bit 7 v))) \<and>
        i + 1 + length (encode_uvarint (drop_bit 7 v)) \<le> 10" for r' .
    have "push_bit (7 * i) v =
        push_bit (7 * i) ((v AND 0x7f) OR push_bit 7 (drop_bit 7 v))"
      by (simp add: uvarint_split)
    also have "\<dots> = push_bit (7 * i) (v AND 0x7f) OR push_bit (7 * (i + 1)) (drop_bit 7 v)"
      by (simp add: push_bit_or add.commute)
    finally show ?thesis
      using True i IH [of "r OR push_bit (7 * i) (v AND 0x7f)"]
      by (simp add: encode_uvarint.simps [of v] uvarint_mid_byte or.assoc add.commute [of "7 * i" 7])
  next
    case False
    then show ?thesis
      using 1(2) by (simp add: encode_uvarint.simps [of v] uvarint_last_byte)
  qed
qed

lemma decode_encode_uvarint:
  "decode_uvarint (encode_uvarint v @ rest) = Some (v, length (encode_uvarint v))"
  using decode_encode_from [of 0 v 0 rest] unsigned_less [of v, where 'a = nat]
  by (simp add: decode_uvarint_def)

lemma decode_uvarint_from_bounds:
  "decode_uvarint_from i s r bs = Some (v, n) \<Longrightarrow> i < n \<and> n \<le> i + length bs \<and> n \<le> 10"
  by (induction i s r bs rule: decode_uvarint_from.induct)
     (fastforce simp: Let_def split: if_splits)+

lemma decode_uvarint_bounds:
  "decode_uvarint bs = Some (v, n) \<Longrightarrow> 0 < n \<and> n \<le> length bs \<and> n \<le> 10"
  using decode_uvarint_from_bounds [of 0 0 0 bs v n] by (simp add: decode_uvarint_def)


section \<open>Third-party serializers\<close>

text \<open>
  One message type in the two serializers: \<open>serde_json\<close> on the domain type, \<open>prost\<close> on its
  protobuf counterpart.
\<close>

record ('d, 'p) serde =
  sd_json_dec :: "bytes \<Rightarrow> 'd option"
  sd_json_enc :: "'d \<Rightarrow> bytes option"
  sd_pb_dec :: "bytes \<Rightarrow> 'p option"
  sd_pb_enc :: "'p \<Rightarrow> bytes"

record wire =
  w_json_commands :: "bytes \<Rightarrow> command option list"
  w_json_command_enc :: "command \<Rightarrow> bytes option"
  w_json_replies :: "bytes \<Rightarrow> reply option list"
  w_json_reply_enc :: "reply \<Rightarrow> bytes option"
  w_json_push_enc :: "push_msg \<Rightarrow> bytes option"
  w_pb_command_dec :: "bytes \<Rightarrow> pb_command option"
  w_pb_command_enc :: "pb_command \<Rightarrow> bytes"
  w_pb_reply_dec :: "bytes \<Rightarrow> pb_reply option"
  w_pb_reply_enc :: "pb_reply \<Rightarrow> bytes"
  w_pb_push_enc :: "pb_push \<Rightarrow> bytes"
  w_connect_request :: "(connect_request, pb_connect_request) serde"
  w_connect_result :: "(connect_result, pb_connect_result) serde"
  w_subscribe_request :: "(subscribe_request, pb_subscribe_request) serde"
  w_subscribe_result :: "(subscribe_result, pb_subscribe_result) serde"
  w_publish_request :: "(publish_request, pb_publish_request) serde"
  w_publish_result :: "(publish_result, pb_publish_result) serde"
  w_unsubscribe_request :: "(unsubscribe_request, pb_unsubscribe_request) serde"
  w_unsubscribe_result :: "(unsubscribe_result, pb_unsubscribe_result) serde"
  w_ping_result :: "(ping_result, pb_ping_result) serde"
  w_refresh_request :: "(refresh_request, pb_refresh_request) serde"
  w_refresh_result :: "(refresh_result, pb_refresh_result) serde"
  w_sub_refresh_request :: "(sub_refresh_request, pb_sub_refresh_request) serde"
  w_sub_refresh_result :: "(sub_refresh_result, pb_sub_refresh_result) serde"
  w_rpc_request :: "(rpc_request, pb_rpc_request) serde"
  w_rpc_result :: "(rpc_result, pb_rpc_result) serde"
  w_presence_request :: "(presence_request, pb_presence_request) serde"
  w_presence_result :: "(presence_result, pb_presence_result) serde"
  w_presence_stats_request :: "(presence_stats_request, pb_presence_stats_request) serde"
  w_presence_stats_result :: "(presence_stats_result, pb_presence_stats_result) serde"
  w_join_msg :: "(join_msg, pb_join_msg) serde"
  w_leave_msg :: "(leave_msg, pb_leave_msg) serde"
  w_history_request :: "(history_request, pb_history_request) serde"
  w_history_result :: "(history_result, pb_history_result) serde"
  w_publication :: "(publication, pb_publication) serde"

section \<open>Envelopes in frames\<close>

definition command_from_pb :: "pb_command \<Rightarrow> codec_error + command" where
  "command_from_pb c =
     (case method_from_i32 (pcmd_method c) of
        None \<Rightarrow> Inl (BadMethod (pcmd_method c))
      | Some meth \<Rightarrow>
          Inr \<lparr>cmd_id = pcmd_id c, cmd_method = meth, cmd_params = vec_to_raw (pcmd_params c)\<rparr>)"

text \<open>\<open>for cmd in stream { out.push(cmd?) }\<close>: stops at the first item that failed to decode.\<close>

fun collect_stream :: "'a option list \<Rightarrow> codec_error + 'a list" where
  "collect_stream [] = Inr []"
| "collect_stream (None # xs) = Inl CodecJson"
| "collect_stream (Some x # xs) = (case collect_stream xs of Inl e \<Rightarrow> Inl e | Inr ys \<Rightarrow> Inr (x # ys))"

text \<open>
  The loop over uvarint-delimited messages, shared by the two protobuf decoders. \<open>usize\<close> has 64
  bits, so the checked addition fails from \<open>2 ^ 64\<close> on.
\<close>

function pb_frames :: "(bytes \<Rightarrow> codec_error + 'a) \<Rightarrow> bytes \<Rightarrow> codec_error + 'a list" where
  "pb_frames dec rest =
     (if rest = [] then Inr []
      else
        (case decode_uvarint rest of
           None \<Rightarrow> Inl Truncated
         | Some (len, start) \<Rightarrow>
             (let fin = start + unat len in
              if 2 ^ 64 \<le> fin then Inl Truncated
              else if length rest < fin then Inl Truncated
              else
                (case dec (take (fin - start) (drop start rest)) of
                   Inl e \<Rightarrow> Inl e
                 | Inr msg \<Rightarrow>
                     (case pb_frames dec (drop fin rest) of
                        Inl e \<Rightarrow> Inl e
                      | Inr msgs \<Rightarrow> Inr (msg # msgs))))))"
  by pat_completeness auto
termination
  by (relation "measure (length \<circ> snd)") (auto dest: decode_uvarint_bounds)

declare pb_frames.simps [simp del]

definition decode_commands :: "wire \<Rightarrow> protocol_type \<Rightarrow> bytes \<Rightarrow> codec_error + command list" where
  "decode_commands W proto frame =
     (case proto of
        Json \<Rightarrow> collect_stream (w_json_commands W frame)
      | Protobuf \<Rightarrow>
          pb_frames
            (\<lambda>b. case w_pb_command_dec W b of
                   None \<Rightarrow> Inl ProtoDecode
                 | Some msg \<Rightarrow> command_from_pb msg)
            frame)"

text \<open>The NDJSON encoder: every item, then a newline; a serializer error ends it.\<close>

fun ndjson :: "('a \<Rightarrow> bytes option) \<Rightarrow> 'a list \<Rightarrow> codec_error + bytes" where
  "ndjson enc [] = Inr []"
| "ndjson enc (x # xs) =
     (case enc x of
        None \<Rightarrow> Inl CodecJson
      | Some b \<Rightarrow>
          (case ndjson enc xs of
             Inl e \<Rightarrow> Inl e
           | Inr buf \<Rightarrow> Inr (b @ [10] @ buf)))"

fun pb_delimited :: "('a \<Rightarrow> bytes) \<Rightarrow> 'a list \<Rightarrow> bytes" where
  "pb_delimited enc [] = []"
| "pb_delimited enc (x # xs) =
     (let b = enc x in encode_uvarint (of_nat (length b)) @ b @ pb_delimited enc xs)"

definition encode_commands :: "wire \<Rightarrow> protocol_type \<Rightarrow> command list \<Rightarrow> codec_error + bytes" where
  "encode_commands W proto commands =
     (case proto of
        Json \<Rightarrow> ndjson (w_json_command_enc W) commands
      | Protobuf \<Rightarrow> Inr (pb_delimited (\<lambda>c. w_pb_command_enc W (command_to_pb c)) commands))"

definition decode_replies :: "wire \<Rightarrow> protocol_type \<Rightarrow> bytes \<Rightarrow> codec_error + reply list" where
  "decode_replies W proto frame =
     (case proto of
        Json \<Rightarrow> collect_stream (w_json_replies W frame)
      | Protobuf \<Rightarrow>
          pb_frames
            (\<lambda>b. case w_pb_reply_dec W b of
                   None \<Rightarrow> Inl ProtoDecode
                 | Some msg \<Rightarrow> Inr (reply_from_pb msg))
            frame)"

definition encode_replies :: "wire \<Rightarrow> protocol_type \<Rightarrow> reply list \<Rightarrow> codec_error + bytes" where
  "encode_replies W proto replies =
     (case proto of
        Json \<Rightarrow> ndjson (w_json_reply_enc W) replies
      | Protobuf \<Rightarrow> Inr (pb_delimited (\<lambda>r. w_pb_reply_enc W (reply_to_pb r)) replies))"

definition encode_push_frame :: "wire \<Rightarrow> protocol_type \<Rightarrow> push_msg \<Rightarrow> codec_error + bytes" where
  "encode_push_frame W proto p =
     (case (case proto of
              Json \<Rightarrow> w_json_push_enc W p
            | Protobuf \<Rightarrow> Some (w_pb_push_enc W (push_to_pb p))) of
        None \<Rightarrow> Inl CodecJson
      | Some result \<Rightarrow>
          encode_replies W proto [\<lparr>rp_id = 0, rp_error = None, rp_result = Some result\<rparr>])"

section \<open>Typed params and results\<close>

record 'd wire_type =
  wt_json_dec :: "bytes \<Rightarrow> 'd option"
  wt_json_enc :: "'d \<Rightarrow> bytes option"
  wt_pb_decode :: "bytes \<Rightarrow> codec_error + 'd"
  wt_pb_encode :: "'d \<Rightarrow> bytes"

definition wire_impl ::
    "('p \<Rightarrow> 'd) \<Rightarrow> ('d \<Rightarrow> 'p) \<Rightarrow> ('d, 'p) serde \<Rightarrow> 'd wire_type" where
  "wire_impl from_pb to_pb S =
     \<lparr>wt_json_dec = sd_json_dec S, wt_json_enc = sd_json_enc S,
      wt_pb_decode =
        (\<lambda>b. case sd_pb_dec S b of None \<Rightarrow> Inl ProtoDecode | Some m \<Rightarrow> Inr (from_pb m)),
      wt_pb_encode = (\<lambda>d. sd_pb_enc S (to_pb d))\<rparr>"

definition decode_params ::
    "'d \<Rightarrow> 'd wire_type \<Rightarrow> protocol_type \<Rightarrow> bytes option \<Rightarrow> codec_error + 'd" where
  "decode_params dflt T proto raw =
     (case raw of
        None \<Rightarrow> Inr dflt
      | Some r \<Rightarrow>
          (case proto of
             Json \<Rightarrow> (case wt_json_dec T r of None \<Rightarrow> Inl CodecJson | Some d \<Rightarrow> Inr d)
           | Protobuf \<Rightarrow> wt_pb_decode T r))"

definition encode_result :: "'d wire_type \<Rightarrow> protocol_type \<Rightarrow> 'd \<Rightarrow> codec_error + bytes" where
  "encode_result T proto x =
     (case proto of
        Json \<Rightarrow> (case wt_json_enc T x of None \<Rightarrow> Inl CodecJson | Some b \<Rightarrow> Inr b)
      | Protobuf \<Rightarrow> Inr (wt_pb_encode T x))"

definition wire_connect_request :: "wire \<Rightarrow> connect_request wire_type" where
  "wire_connect_request W = wire_impl connect_request_from_pb connect_request_to_pb (w_connect_request W)"

definition wire_connect_result :: "wire \<Rightarrow> connect_result wire_type" where
  "wire_connect_result W = wire_impl connect_result_from_pb connect_result_to_pb (w_connect_result W)"

definition wire_subscribe_request :: "wire \<Rightarrow> subscribe_request wire_type" where
  "wire_subscribe_request W = wire_impl subscribe_request_from_pb subscribe_request_to_pb (w_subscribe_request W)"

definition wire_subscribe_result :: "wire \<Rightarrow> subscribe_result wire_type" where
  "wire_subscribe_result W = wire_impl subscribe_result_from_pb subscribe_result_to_pb (w_subscribe_result W)"

definition wire_publish_request :: "wire \<Rightarrow> publish_request wire_type" where
  "wire_publish_request W = wire_impl publish_request_from_pb publish_request_to_pb (w_publish_request W)"

definition wire_publish_result :: "wire \<Rightarrow> publish_result wire_type" where
  "wire_publish_result W = wire_impl publish_result_from_pb publish_result_to_pb (w_publish_result W)"

definition wire_unsubscribe_request :: "wire \<Rightarrow> unsubscribe_request wire_type" where
  "wire_unsubscribe_request W = wire_impl unsubscribe_request_from_pb unsubscribe_request_to_pb (w_unsubscribe_request W)"

definition wire_unsubscribe_result :: "wire \<Rightarrow> unsubscribe_result wire_type" where
  "wire_unsubscribe_result W = wire_impl unsubscribe_result_from_pb unsubscribe_result_to_pb (w_unsubscribe_result W)"

definition wire_ping_result :: "wire \<Rightarrow> ping_result wire_type" where
  "wire_ping_result W = wire_impl ping_result_from_pb ping_result_to_pb (w_ping_result W)"

definition wire_refresh_request :: "wire \<Rightarrow> refresh_request wire_type" where
  "wire_refresh_request W = wire_impl refresh_request_from_pb refresh_request_to_pb (w_refresh_request W)"

definition wire_refresh_result :: "wire \<Rightarrow> refresh_result wire_type" where
  "wire_refresh_result W = wire_impl refresh_result_from_pb refresh_result_to_pb (w_refresh_result W)"

definition wire_sub_refresh_request :: "wire \<Rightarrow> sub_refresh_request wire_type" where
  "wire_sub_refresh_request W = wire_impl sub_refresh_request_from_pb sub_refresh_request_to_pb (w_sub_refresh_request W)"

definition wire_sub_refresh_result :: "wire \<Rightarrow> sub_refresh_result wire_type" where
  "wire_sub_refresh_result W = wire_impl sub_refresh_result_from_pb sub_refresh_result_to_pb (w_sub_refresh_result W)"

definition wire_rpc_request :: "wire \<Rightarrow> rpc_request wire_type" where
  "wire_rpc_request W = wire_impl rpc_request_from_pb rpc_request_to_pb (w_rpc_request W)"

definition wire_rpc_result :: "wire \<Rightarrow> rpc_result wire_type" where
  "wire_rpc_result W = wire_impl rpc_result_from_pb rpc_result_to_pb (w_rpc_result W)"

definition wire_presence_request :: "wire \<Rightarrow> presence_request wire_type" where
  "wire_presence_request W = wire_impl presence_request_from_pb presence_request_to_pb (w_presence_request W)"

definition wire_presence_result :: "wire \<Rightarrow> presence_result wire_type" where
  "wire_presence_result W = wire_impl presence_result_from_pb presence_result_to_pb (w_presence_result W)"

definition wire_presence_stats_request :: "wire \<Rightarrow> presence_stats_request wire_type" where
  "wire_presence_stats_request W = wire_impl presence_stats_request_from_pb presence_stats_request_to_pb (w_presence_stats_request W)"

definition wire_presence_stats_result :: "wire \<Rightarrow> presence_stats_result wire_type" where
  "wire_presence_stats_result W = wire_impl presence_stats_result_from_pb presence_stats_result_to_pb (w_presence_stats_result W)"

definition wire_join_msg :: "wire \<Rightarrow> join_msg wire_type" where
  "wire_join_msg W = wire_impl join_msg_from_pb join_msg_to_pb (w_join_msg W)"

definition wire_leave_msg :: "wire \<Rightarrow> leave_msg wire_type" where
  "wire_leave_msg W = wire_impl leave_msg_from_pb leave_msg_to_pb (w_leave_msg W)"

definition wire_history_request :: "wire \<Rightarrow> history_request wire_type" where
  "wire_history_request W = wire_impl history_request_from_pb history_request_to_pb (w_history_request W)"

definition wire_history_result :: "wire \<Rightarrow> history_result wire_type" where
  "wire_history_result W = wire_impl history_result_from_pb history_result_to_pb (w_history_result W)"

definition wire_publication :: "wire \<Rightarrow> publication wire_type" where
  "wire_publication W = wire_impl publication_from_pb publication_to_pb (w_publication W)"

text \<open>The derived \<open>Default\<close> of the requests that \<open>decode_params\<close> is called on.\<close>

definition publish_request_default :: publish_request where
  "publish_request_default = \<lparr>pq_channel = '''', pq_data = None\<rparr>"

definition unsubscribe_request_default :: unsubscribe_request where
  "unsubscribe_request_default = \<lparr>uq_channel = ''''\<rparr>"

definition history_request_default :: history_request where
  "history_request_default = \<lparr>hq_channel = ''''\<rparr>"

definition refresh_request_default :: refresh_request where
  "refresh_request_default = \<lparr>rq_token = ''''\<rparr>"

definition sub_refresh_request_default :: sub_refresh_request where
  "sub_refresh_request_default = \<lparr>srq_channel = '''', srq_token = ''''\<rparr>"

definition rpc_request_default :: rpc_request where
  "rpc_request_default = \<lparr>rpq_method = '''', rpq_data = None\<rparr>"

definition presence_request_default :: presence_request where
  "presence_request_default = \<lparr>prq_channel = ''''\<rparr>"

definition presence_stats_request_default :: presence_stats_request where
  "presence_stats_request_default = \<lparr>psq_channel = ''''\<rparr>"

section \<open>Round trips\<close>

lemma pb_frames_Nil [simp]: "pb_frames dec [] = Inr []"
  by (simp add: pb_frames.simps)

lemma encode_uvarint_length: "length (encode_uvarint v) \<le> 10"
  using decode_encode_from [of 0 v 0 "[]"] unsigned_less [of v, where 'a = nat] by simp

lemma encode_uvarint_not_Nil [simp]: "encode_uvarint v \<noteq> []"
  by (subst encode_uvarint.simps) simp

lemma pb_frames_step:
  assumes "length (b :: bytes) + 10 < 2 ^ 64"
  shows "pb_frames dec (encode_uvarint (of_nat (length b)) @ b @ rest) =
    (case dec b of
       Inl e \<Rightarrow> Inl e
     | Inr msg \<Rightarrow>
         (case pb_frames dec rest of Inl e \<Rightarrow> Inl e | Inr msgs \<Rightarrow> Inr (msg # msgs)))"
proof -
  have "unat (of_nat (length b) :: u64) = length b"
    using assms by (simp add: unat_of_nat take_bit_nat_eq_self)
  then show ?thesis
    using assms encode_uvarint_length [of "of_nat (length b)"]
    by (subst pb_frames.simps) (simp add: decode_encode_uvarint Let_def split: sum.split)
qed

lemma pb_frames_delimited:
  assumes "\<And>x. x \<in> set xs \<Longrightarrow> dec (enc x) = Inr (f x)"
    and "\<And>x. x \<in> set xs \<Longrightarrow> length (enc x) + 10 < 2 ^ 64"
  shows "pb_frames dec (pb_delimited enc xs) = Inr (map f xs)"
  using assms
proof (induction xs)
  case (Cons x xs)
  have "pb_frames dec (pb_delimited enc xs) = Inr (map f xs)"
    using Cons.prems by (intro Cons.IH) auto
  with Cons.prems show ?case by (simp add: pb_frames_step Let_def)
qed simp

lemma pb_frames_truncated:
  assumes "length (b :: bytes) + 10 < 2 ^ 64" "n < length b"
  shows "pb_frames dec (encode_uvarint (of_nat (length b)) @ take n b) = Inl Truncated"
proof -
  have "unat (of_nat (length b) :: u64) = length b"
    using assms by (simp add: unat_of_nat take_bit_nat_eq_self)
  then show ?thesis
    using assms by (subst pb_frames.simps) (simp add: decode_encode_uvarint Let_def)
qed

definition command_norm :: "command \<Rightarrow> command" where
  "command_norm c = c\<lparr>cmd_params := norm_raw (cmd_params c)\<rparr>"

lemma method_i32_round: "method_from_i32 (int (method_u8 m)) = Some m"
  by (cases m) (simp_all add: method_from_i32_def method_from_u64_def)

lemma command_from_to_pb: "command_from_pb (command_to_pb c) = Inr (command_norm c)"
  by (simp add: command_from_pb_def command_to_pb_def command_norm_def method_i32_round)

lemma collect_stream_Some: "collect_stream (map Some xs) = Inr xs"
  by (induction xs) simp_all

lemma decode_encode_result:
  assumes "\<And>p. sd_pb_dec S (sd_pb_enc S p) = Some p"
    and "\<And>d. from_pb (to_pb d) = f d"
    and "encode_result (wire_impl from_pb to_pb S) Protobuf x = Inr b"
  shows "decode_params dflt (wire_impl from_pb to_pb S) Protobuf (Some b) = Inr (f x)"
  using assms by (auto simp: encode_result_def decode_params_def wire_impl_def)

lemma encode_result_pb [simp]: "encode_result T Protobuf x = Inr (wt_pb_encode T x)"
  by (simp add: encode_result_def)

lemma decode_params_None [simp]: "decode_params dflt T proto None = Inr dflt"
  by (simp add: decode_params_def)

end

