(* ===== verification/Auth.thy ===== *)
theory Auth
  imports Prelude
begin

text \<open>
  Token verification (\<open>crates/centrifugo-auth\<close>): key selection by the header of a JWT, the
  numeric-date checks and the claims that the connection and the subscription get. The
  \<open>jsonwebtoken\<close> and \<open>base64\<close> crates are third-party: their functions are the fields of the record
  \<open>jwt\<close>. A \<open>DecodingKey\<close> is opaque, known by its key material. An \<open>f64\<close> is an exact
  dyadic number, an infinity or a NaN, with the comparisons and the saturating cast of the language.
\<close>

section \<open>Floating-point dates\<close>

text \<open>\<open>Finite m e\<close> is \<open>m * 2 ^ e\<close>.\<close>

datatype f64 = Finite int int | PosInf | NegInf | NaN

fun f64_le :: "f64 \<Rightarrow> f64 \<Rightarrow> bool" where
  "f64_le NaN y = False"
| "f64_le x NaN = False"
| "f64_le NegInf y = True"
| "f64_le x PosInf = True"
| "f64_le PosInf y = False"
| "f64_le x NegInf = False"
| "f64_le (Finite a i) (Finite b j) =
     (a * 2 ^ nat (i - min i j) \<le> b * 2 ^ nat (j - min i j))"

fun f64_lt :: "f64 \<Rightarrow> f64 \<Rightarrow> bool" where
  "f64_lt NaN y = False"
| "f64_lt x NaN = False"
| "f64_lt NegInf y = (y \<noteq> NegInf)"
| "f64_lt x PosInf = (x \<noteq> PosInf)"
| "f64_lt PosInf y = False"
| "f64_lt x NegInf = False"
| "f64_lt (Finite a i) (Finite b j) =
     (a * 2 ^ nat (i - min i j) < b * 2 ^ nat (j - min i j))"

text \<open>\<open>e.floor() as i64\<close>: the cast saturates and maps a NaN to 0.\<close>

definition f64_floor_int :: "int \<Rightarrow> int \<Rightarrow> int" where
  "f64_floor_int m e = (if 0 \<le> e then m * 2 ^ nat e else m div 2 ^ nat (- e))"

fun f64_floor_i64 :: "f64 \<Rightarrow> int" where
  "f64_floor_i64 (Finite m e) = max i64_min (min i64_max (f64_floor_int m e))"
| "f64_floor_i64 PosInf = i64_max"
| "f64_floor_i64 NegInf = i64_min"
| "f64_floor_i64 NaN = 0"

text \<open>\<open>n as f64\<close> for the current time: exact below \<open>2 ^ 53\<close>, rounded half to even above.\<close>

function f64_shift :: "nat \<Rightarrow> nat" where
  "f64_shift n = (if n < 2 ^ 53 then 0 else f64_shift (n div 2) + 1)"
  by pat_completeness auto
termination by (relation "measure id") auto

declare f64_shift.simps [simp del]

definition f64_of_nat :: "nat \<Rightarrow> f64" where
  "f64_of_nat n =
     (let s = f64_shift n; q = n div 2 ^ s; r = n mod 2 ^ s; h = 2 ^ s div 2 in
      Finite (int (if s = 0 \<or> r < h \<or> (r = h \<and> even q) then q else q + 1)) (int s))"

definition i64_as_f64 :: "int \<Rightarrow> f64" where
  "i64_as_f64 n =
     (if 0 \<le> n then f64_of_nat (nat n)
      else (case f64_of_nat (nat (- n)) of Finite m e \<Rightarrow> Finite (- m) e | x \<Rightarrow> x))"

section \<open>Types\<close>

datatype verify_error = Expired | Invalid

record connect_token =
  ct_user :: string
  ct_info :: "bytes option"
  ct_channels :: "string list"
  ct_expire_at :: int

record subscribe_token =
  st_client :: string
  st_channel :: string
  st_info :: "bytes option"
  st_expire_at :: int
  st_expire_token_only :: bool

record connect_claims =
  cc_sub :: "string option"
  cc_exp :: "f64 option"
  cc_nbf :: "f64 option"
  cc_iat :: "int option"
  cc_info :: "bytes option"
  cc_b64info :: "string option"
  cc_channels :: "string list option"

record subscribe_claims =
  sc_client :: "string option"
  sc_channel :: "string option"
  sc_exp :: "f64 option"
  sc_nbf :: "f64 option"
  sc_info :: "bytes option"
  sc_b64info :: "string option"
  sc_expire_token_only :: bool

section \<open>The third-party crates\<close>

datatype algorithm =
  HS256 | HS384 | HS512 | ES256 | ES384 | RS256 | RS384 | RS512 | PS256 | PS384 | PS512 | EdDSA

type_synonym decoding_key = bytes

record jwt_header =
  jh_alg :: algorithm
  jh_kid :: "string option"

datatype jwk_algorithm = KtyRSA | KtyEC | KtyOct | KtyOKP
datatype key_use = UseSignature | UseEncryption | UseOther string

record jwk =
  jwk_algorithm :: jwk_algorithm
  jwk_use :: "key_use option"
  jwk_key_id :: "string option"
  jwk_material :: bytes

record validation =
  va_alg :: algorithm
  va_exp :: bool
  va_nbf :: bool
  va_aud :: bool
  va_required :: "string list"

record admin_claims =
  ac_admin :: bool

record signed_claims =
  gc_sub :: string
  gc_exp :: "int option"

record jwt =
  jwt_from_secret :: "string \<Rightarrow> decoding_key"
  jwt_from_rsa_pem :: "bytes \<Rightarrow> decoding_key option"
  jwt_from_ec_pem :: "bytes \<Rightarrow> decoding_key option"
  jwt_from_jwk :: "jwk \<Rightarrow> decoding_key option"
  jwt_decode_header :: "string \<Rightarrow> jwt_header option"
  jwt_decode_connect :: "string \<Rightarrow> decoding_key \<Rightarrow> validation \<Rightarrow> connect_claims option"
  jwt_decode_subscribe :: "string \<Rightarrow> decoding_key \<Rightarrow> validation \<Rightarrow> subscribe_claims option"
  jwt_decode_json :: "string \<Rightarrow> decoding_key \<Rightarrow> validation \<Rightarrow> bytes option"
  jwt_encode_claims :: "algorithm \<Rightarrow> signed_claims \<Rightarrow> string \<Rightarrow> string option"
  jwt_encode_admin :: "algorithm \<Rightarrow> admin_claims \<Rightarrow> string \<Rightarrow> string option"
  jwt_parse_jwks :: "string \<Rightarrow> jwk list option"
  b64_decode :: "string \<Rightarrow> bytes option"

text \<open>\<open>Validation::new(alg)\<close>, whose documented defaults check \<open>exp\<close> and \<open>aud\<close>, not \<open>nbf\<close>.\<close>

definition validation_new :: "algorithm \<Rightarrow> validation" where
  "validation_new alg =
     \<lparr>va_alg = alg, va_exp = True, va_nbf = False, va_aud = True, va_required = [''exp'']\<rparr>"

section \<open>The verifier\<close>

record token_verifier =
  tv_hmac :: "decoding_key option"
  tv_rsa :: "decoding_key option"
  tv_ecdsa :: "decoding_key option"
  tv_jwks :: "(string, decoding_key) hmap"

definition token_verifier_new ::
    "jwt \<Rightarrow> string \<Rightarrow> bytes option \<Rightarrow> bytes option \<Rightarrow> verify_error + token_verifier" where
  "token_verifier_new J hmac_secret rsa_pem ecdsa_pem =
     (let hmac = (if hmac_secret = [] then None else Some (jwt_from_secret J hmac_secret)) in
      case rsa_pem of
        Some p \<Rightarrow>
          (case jwt_from_rsa_pem J p of
             None \<Rightarrow> Inl Invalid
           | Some r \<Rightarrow>
               (case ecdsa_pem of
                  Some q \<Rightarrow>
                    (case jwt_from_ec_pem J q of
                       None \<Rightarrow> Inl Invalid
                     | Some e \<Rightarrow>
                         Inr \<lparr>tv_hmac = hmac, tv_rsa = Some r, tv_ecdsa = Some e, tv_jwks = []\<rparr>)
                | None \<Rightarrow> Inr \<lparr>tv_hmac = hmac, tv_rsa = Some r, tv_ecdsa = None, tv_jwks = []\<rparr>))
      | None \<Rightarrow>
          (case ecdsa_pem of
             Some q \<Rightarrow>
               (case jwt_from_ec_pem J q of
                  None \<Rightarrow> Inl Invalid
                | Some e \<Rightarrow> Inr \<lparr>tv_hmac = hmac, tv_rsa = None, tv_ecdsa = Some e, tv_jwks = []\<rparr>)
           | None \<Rightarrow> Inr \<lparr>tv_hmac = hmac, tv_rsa = None, tv_ecdsa = None, tv_jwks = []\<rparr>))"

definition is_configured :: "token_verifier \<Rightarrow> bool" where
  "is_configured v \<longleftrightarrow>
     tv_hmac v \<noteq> None \<or> tv_rsa v \<noteq> None \<or> tv_ecdsa v \<noteq> None \<or> tv_jwks v \<noteq> []"

text \<open>The body of the loop over the keys of a JWKS document.\<close>

definition jwks_add ::
    "jwt \<Rightarrow> (string, decoding_key) hmap \<Rightarrow> jwk \<Rightarrow> (string, decoding_key) hmap" where
  "jwks_add J m k =
     (if jwk_algorithm k \<noteq> KtyRSA then m
      else if (case jwk_use k of
                 Some UseEncryption \<Rightarrow> True | Some (UseOther s) \<Rightarrow> True | _ \<Rightarrow> False) then m
      else
        (case jwk_key_id k of
           None \<Rightarrow> m
         | Some kid \<Rightarrow>
             (case jwt_from_jwk J k of None \<Rightarrow> m | Some key \<Rightarrow> hm_insert kid key m)))"

definition set_jwks :: "jwt \<Rightarrow> jwk list \<Rightarrow> token_verifier \<Rightarrow> nat \<times> token_verifier" where
  "set_jwks J keys v =
     (let m = foldl (jwks_add J) [] keys in (length m, v\<lparr>tv_jwks := m\<rparr>))"

definition set_jwks_from_json ::
    "jwt \<Rightarrow> string \<Rightarrow> token_verifier \<Rightarrow> (verify_error + nat) \<times> token_verifier" where
  "set_jwks_from_json J json v =
     (case jwt_parse_jwks J json of
        None \<Rightarrow> (Inl Invalid, v)
      | Some keys \<Rightarrow> (let (n, v') = set_jwks J keys v in (Inr n, v')))"

fun key_for :: "token_verifier \<Rightarrow> algorithm \<Rightarrow> decoding_key option" where
  "key_for v HS256 = tv_hmac v"
| "key_for v HS384 = tv_hmac v"
| "key_for v HS512 = tv_hmac v"
| "key_for v RS256 = tv_rsa v"
| "key_for v RS384 = tv_rsa v"
| "key_for v RS512 = tv_rsa v"
| "key_for v ES256 = tv_ecdsa v"
| "key_for v ES384 = tv_ecdsa v"
| "key_for v _ = None"

definition select_key :: "token_verifier \<Rightarrow> jwt_header \<Rightarrow> decoding_key option" where
  "select_key v h =
     (case (case jh_kid h of None \<Rightarrow> None | Some kid \<Rightarrow> hm_get (tv_jwks v) kid) of
        Some key \<Rightarrow> Some key
      | None \<Rightarrow> key_for v (jh_alg h))"

text \<open>Generic in the claims type, which is given by its decoder.\<close>

definition verify_and_decode ::
    "jwt \<Rightarrow> (string \<Rightarrow> decoding_key \<Rightarrow> validation \<Rightarrow> 'c option) \<Rightarrow> token_verifier \<Rightarrow> string
       \<Rightarrow> verify_error + 'c" where
  "verify_and_decode J dec v token =
     (case jwt_decode_header J token of
        None \<Rightarrow> Inl Invalid
      | Some h \<Rightarrow>
          (case select_key v h of
             None \<Rightarrow> Inl Invalid
           | Some key \<Rightarrow>
               (case dec token key
                       ((validation_new (jh_alg h))
                          \<lparr>va_exp := False, va_nbf := False, va_aud := False, va_required := []\<rparr>) of
                  None \<Rightarrow> Inl Invalid
                | Some claims \<Rightarrow> Inr claims)))"

definition check_expiry :: "int \<Rightarrow> f64 option \<Rightarrow> f64 option \<Rightarrow> verify_error + unit" where
  "check_expiry now_unix expiry nbf =
     (let now = i64_as_f64 now_unix in
      if (case expiry of Some e \<Rightarrow> f64_le e now | None \<Rightarrow> False) then Inl Expired
      else if (case nbf of Some n \<Rightarrow> f64_lt now n | None \<Rightarrow> False) then Inl Expired
      else Inr ())"

definition expire_at_secs :: "f64 option \<Rightarrow> int" where
  "expire_at_secs expiry = (case expiry of None \<Rightarrow> 0 | Some e \<Rightarrow> f64_floor_i64 e)"

definition resolve_info ::
    "jwt \<Rightarrow> string option \<Rightarrow> bytes option \<Rightarrow> verify_error + bytes option" where
  "resolve_info J b64info info =
     (case b64info of
        Some b \<Rightarrow>
          if b \<noteq> [] then (case b64_decode J b of None \<Rightarrow> Inl Invalid | Some x \<Rightarrow> Inr (Some x))
          else Inr info
      | None \<Rightarrow> Inr info)"

definition unwrap_or :: "'a \<Rightarrow> 'a option \<Rightarrow> 'a" where
  "unwrap_or d x = (case x of None \<Rightarrow> d | Some y \<Rightarrow> y)"

definition verify_connect_token ::
    "jwt \<Rightarrow> int \<Rightarrow> token_verifier \<Rightarrow> string \<Rightarrow> verify_error + connect_token" where
  "verify_connect_token J now v token =
     (case verify_and_decode J (jwt_decode_connect J) v token of
        Inl e \<Rightarrow> Inl e
      | Inr claims \<Rightarrow>
          (case check_expiry now (cc_exp claims) (cc_nbf claims) of
             Inl e \<Rightarrow> Inl e
           | Inr _ \<Rightarrow>
               (case resolve_info J (cc_b64info claims) (cc_info claims) of
                  Inl e \<Rightarrow> Inl e
                | Inr info \<Rightarrow>
                    Inr \<lparr>ct_user = unwrap_or [] (cc_sub claims), ct_info = info,
                         ct_channels = unwrap_or [] (cc_channels claims),
                         ct_expire_at = expire_at_secs (cc_exp claims)\<rparr>)))"

definition verify_subscribe_token ::
    "jwt \<Rightarrow> int \<Rightarrow> token_verifier \<Rightarrow> string \<Rightarrow> verify_error + subscribe_token" where
  "verify_subscribe_token J now v token =
     (case verify_and_decode J (jwt_decode_subscribe J) v token of
        Inl e \<Rightarrow> Inl e
      | Inr claims \<Rightarrow>
          (case check_expiry now (sc_exp claims) (sc_nbf claims) of
             Inl e \<Rightarrow> Inl e
           | Inr _ \<Rightarrow>
               (case resolve_info J (sc_b64info claims) (sc_info claims) of
                  Inl e \<Rightarrow> Inl e
                | Inr info \<Rightarrow>
                    Inr \<lparr>st_client = unwrap_or [] (sc_client claims),
                         st_channel = unwrap_or [] (sc_channel claims), st_info = info,
                         st_expire_at = expire_at_secs (sc_exp claims),
                         st_expire_token_only = sc_expire_token_only claims\<rparr>)))"

definition gen_connect_token ::
    "jwt \<Rightarrow> int \<Rightarrow> string \<Rightarrow> string \<Rightarrow> u64 \<Rightarrow> verify_error + string" where
  "gen_connect_token J now hmac_secret user ttl_secs =
     (let expiry = (if 0 < ttl_secs then Some (i64_add now (u64_as_i64 ttl_secs)) else None) in
      case jwt_encode_claims J HS256 \<lparr>gc_sub = user, gc_exp = expiry\<rparr> hmac_secret of
        None \<Rightarrow> Inl Invalid
      | Some t \<Rightarrow> Inr t)"

definition gen_admin_token :: "jwt \<Rightarrow> string \<Rightarrow> verify_error + string" where
  "gen_admin_token J admin_secret =
     (case jwt_encode_admin J HS256 \<lparr>ac_admin = True\<rparr> admin_secret of
        None \<Rightarrow> Inl Invalid
      | Some t \<Rightarrow> Inr t)"

definition verify_admin_token :: "jwt \<Rightarrow> string \<Rightarrow> string \<Rightarrow> bool" where
  "verify_admin_token J admin_secret token =
     (if admin_secret = [] then False
      else
        jwt_decode_json J token (jwt_from_secret J admin_secret)
          ((validation_new HS256)\<lparr>va_exp := False, va_required := []\<rparr>) \<noteq> None)"

section \<open>A sample library and verifier\<close>

definition sample_jwt :: jwt where
  "sample_jwt =
     \<lparr>jwt_from_secret = map (\<lambda>c. of_nat (of_char c)), jwt_from_rsa_pem = Some,
      jwt_from_ec_pem = Some, jwt_from_jwk = (\<lambda>k. Some (jwk_material k)),
      jwt_decode_header = (\<lambda>t. Some \<lparr>jh_alg = HS256, jh_kid = None\<rparr>),
      jwt_decode_connect =
        (\<lambda>t key va. if key = [1] then Some \<lparr>cc_sub = Some t, cc_exp = Some (Finite 201 (- 1)),
           cc_nbf = None, cc_iat = None, cc_info = None, cc_b64info = None, cc_channels = None\<rparr>
         else None),
      jwt_decode_subscribe =
        (\<lambda>t key va. if key = [1] then Some \<lparr>sc_client = Some ''c'', sc_channel = Some t,
           sc_exp = Some (Finite 200 0), sc_nbf = None, sc_info = None, sc_b64info = None,
           sc_expire_token_only = True\<rparr> else None),
      jwt_decode_json = (\<lambda>t key va. None), jwt_encode_claims = (\<lambda>a c s. Some (gc_sub c)),
      jwt_encode_admin = (\<lambda>a c s. Some s), jwt_parse_jwks = (\<lambda>s. None),
      b64_decode = (\<lambda>s. None)\<rparr>"

definition sample_verifier :: token_verifier where
  "sample_verifier = \<lparr>tv_hmac = Some [1], tv_rsa = None, tv_ecdsa = None, tv_jwks = []\<rparr>"

section \<open>Lemmas\<close>

lemma i64_as_f64_exact:
  assumes "0 \<le> n" "n < 2 ^ 53"
  shows "i64_as_f64 n = Finite n 0"
proof -
  have "f64_shift (nat n) = 0" using assms by (subst f64_shift.simps) (simp add: nat_less_iff)
  then show ?thesis using assms by (simp add: i64_as_f64_def f64_of_nat_def Let_def)
qed

text \<open>A date later than the current second has a floor that is not before it.\<close>

lemma f64_not_le_floor:
  assumes "\<not> f64_le (Finite m e) (Finite n 0)"
  shows "n \<le> f64_floor_int m e"
proof (cases "0 \<le> e")
  case True
  with assms show ?thesis by (simp add: f64_floor_int_def min_def split: if_splits)
next
  case False
  with assms have "n * 2 ^ nat (- e) < m" by simp
  then have "n * 2 ^ nat (- e) div 2 ^ nat (- e) \<le> m div 2 ^ nat (- e)"
    by (intro zdiv_mono1) simp_all
  with False show ?thesis by (simp add: f64_floor_int_def)
qed

lemma check_expiry_live:
  assumes "check_expiry now expiry nbf = Inr ()" "0 \<le> now" "now < 2 ^ 53"
  shows "expire_at_secs expiry = 0 \<or> now \<le> expire_at_secs expiry"
proof (cases expiry)
  case (Some e)
  have now: "i64_as_f64 now = Finite now 0" using assms by (simp add: i64_as_f64_exact)
  from assms(1) Some have nle: "\<not> f64_le e (Finite now 0)"
    by (auto simp: check_expiry_def now Let_def split: if_splits)
  have rng: "now \<le> i64_max" "i64_min \<le> now" using assms by (auto simp: i64_max_def i64_min_def)
  show ?thesis
  proof (cases e)
    case (Finite m x)
    with nle have "now \<le> f64_floor_int m x" using f64_not_le_floor by simp
    with Some Finite rng show ?thesis by (simp add: expire_at_secs_def)
  qed (use Some nle rng in \<open>simp_all add: expire_at_secs_def\<close>)
qed (simp add: expire_at_secs_def)

lemma check_expiry_Inr:
  "check_expiry now expiry nbf = Inr u \<longleftrightarrow>
     (\<forall>e. expiry = Some e \<longrightarrow> \<not> f64_le e (i64_as_f64 now)) \<and>
     (\<forall>n. nbf = Some n \<longrightarrow> \<not> f64_lt (i64_as_f64 now) n)"
  by (auto simp: check_expiry_def Let_def split: option.splits)

lemma check_expiry_error: "check_expiry now expiry nbf = Inl err \<Longrightarrow> err = Expired"
  by (auto simp: check_expiry_def Let_def split: if_splits)

lemma select_key_Some:
  assumes "select_key v h = Some key"
  shows "(\<exists>kid. jh_kid h = Some kid \<and> hm_get (tv_jwks v) kid = Some key) \<or>
    key_for v (jh_alg h) = Some key"
  using assms by (auto simp: select_key_def split: option.splits)

lemma key_for_unconfigured: "\<not> is_configured v \<Longrightarrow> key_for v alg = None"
  by (cases alg) (auto simp: is_configured_def)

lemma jwks_add_wf: "hm_wf m \<Longrightarrow> hm_wf (jwks_add J m k)"
  by (auto simp: jwks_add_def split: option.splits)

lemma jwks_fold_wf: "hm_wf m \<Longrightarrow> hm_wf (foldl (jwks_add J) m keys)"
  by (induction keys arbitrary: m) (simp_all add: jwks_add_wf)

lemma jwks_fold_sound:
  "hm_get (foldl (jwks_add J) m keys) kid = Some key \<Longrightarrow>
   hm_get m kid = Some key \<or>
   (\<exists>k \<in> set keys. jwk_algorithm k = KtyRSA \<and> jwk_key_id k = Some kid \<and>
      jwk_use k \<in> {None, Some UseSignature} \<and> jwt_from_jwk J k = Some key)"
proof (induction keys arbitrary: m)
  case (Cons k ks)
  then have "hm_get (jwks_add J m k) kid = Some key \<or>
    (\<exists>k \<in> set ks. jwk_algorithm k = KtyRSA \<and> jwk_key_id k = Some kid \<and>
      jwk_use k \<in> {None, Some UseSignature} \<and> jwt_from_jwk J k = Some key)" by simp
  then show ?case
    by (fastforce simp: jwks_add_def split: option.splits if_splits key_use.splits)
qed simp

section \<open>Properties\<close>


text \<open>
  C23: a token accepted at second \<open>now\<close> never carries an expiry in the past: the
  reported expiry is 0 (none) or not before \<open>now\<close>, whatever fraction, infinity or
  NaN the claim holds.
\<close>

theorem verified_connect_token_live:
  assumes "verify_connect_token J now v token = Inr t" "0 \<le> now" "now < 2 ^ 53"
  shows "ct_expire_at t = 0 \<or> now \<le> ct_expire_at t"
proof (cases "verify_and_decode J (jwt_decode_connect J) v token")
  case (Inr claims)
  with assms(1) have "check_expiry now (cc_exp claims) (cc_nbf claims) = Inr ()"
    "ct_expire_at t = expire_at_secs (cc_exp claims)"
    by (auto simp: verify_connect_token_def split: sum.splits)
  with check_expiry_live [OF _ assms(2,3)] show ?thesis by metis
qed (use assms in \<open>simp add: verify_connect_token_def\<close>)

theorem verified_connect_token_live_witness:
  "ct_expire_at \<lparr>ct_user = ''bob'', ct_info = None, ct_channels = [], ct_expire_at = 100\<rparr> = 0 \<or>
   (100 :: int) \<le> ct_expire_at \<lparr>ct_user = ''bob'', ct_info = None, ct_channels = [], ct_expire_at = 100\<rparr>"
proof (rule verified_connect_token_live)
  show "verify_connect_token sample_jwt 100 sample_verifier ''bob'' =
      Inr \<lparr>ct_user = ''bob'', ct_info = None, ct_channels = [], ct_expire_at = 100\<rparr>"
    by (simp add: verify_connect_token_def verify_and_decode_def sample_jwt_def
        sample_verifier_def select_key_def check_expiry_def i64_as_f64_exact resolve_info_def
        unwrap_or_def expire_at_secs_def f64_floor_int_def i64_min_def i64_max_def)
qed simp_all

text \<open>
  Every failure of a subscription token is \<open>Expired\<close> or \<open>Invalid\<close>, and it is
  \<open>Expired\<close> only when the signature was accepted and a date check failed; a verifier without any
  key accepts no token at all.
\<close>

theorem verify_subscribe_token_expired:
  "(verify_subscribe_token J now v token = Inl Expired \<longleftrightarrow>
     (\<exists>claims. verify_and_decode J (jwt_decode_subscribe J) v token = Inr claims \<and>
        check_expiry now (sc_exp claims) (sc_nbf claims) = Inl Expired)) \<and>
   (\<not> is_configured v \<longrightarrow> verify_subscribe_token J now v token = Inl Invalid)"
proof -
  have "verify_and_decode J dec v token \<noteq> Inl Expired"
    for dec :: "string \<Rightarrow> decoding_key \<Rightarrow> validation \<Rightarrow> subscribe_claims option"
    by (auto simp: verify_and_decode_def split: option.splits)
  moreover have "resolve_info J b i \<noteq> Inl Expired" for b i
    by (auto simp: resolve_info_def split: option.splits)
  moreover have "verify_and_decode J (jwt_decode_subscribe J) v token = Inl Invalid"
    if "\<not> is_configured v"
  proof -
    have "select_key v h = None" for h
      using that key_for_unconfigured [OF that]
      by (auto simp: select_key_def is_configured_def split: option.splits)
    then show ?thesis by (auto simp: verify_and_decode_def split: option.splits)
  qed
  ultimately show ?thesis
    by (auto simp: verify_subscribe_token_def split: sum.splits dest: check_expiry_error)
qed

theorem verify_subscribe_token_expired_witness:
  "verify_subscribe_token sample_jwt 5 \<lparr>tv_hmac = None, tv_rsa = None, tv_ecdsa = None, tv_jwks = []\<rparr> ''x''
     = Inl Invalid"
  using verify_subscribe_token_expired
    [of sample_jwt 5 "\<lparr>tv_hmac = None, tv_rsa = None, tv_ecdsa = None, tv_jwks = []\<rparr>" "''x''"]
  by (simp add: is_configured_def)

text \<open>
  installing a JWKS document replaces the key set by signature keys of RSA type only,
  each stored under its own key id, and the count returned is the number of key ids stored.
\<close>

theorem set_jwks_rsa_signature_only:
  assumes "set_jwks J keys v = (n, v')" "hm_get (tv_jwks v') kid = Some key"
  shows "(\<exists>k \<in> set keys. jwk_algorithm k = KtyRSA \<and> jwk_key_id k = Some kid \<and>
      jwk_use k \<in> {None, Some UseSignature} \<and> jwt_from_jwk J k = Some key) \<and>
    n = card (dom (hm_get (tv_jwks v'))) \<and> tv_hmac v' = tv_hmac v"
proof -
  let ?m = "foldl (jwks_add J) [] keys"
  have m: "n = length ?m" "v' = v\<lparr>tv_jwks := ?m\<rparr>"
    using assms(1) by (auto simp: set_jwks_def Let_def)
  have "hm_wf ?m" by (simp add: jwks_fold_wf)
  with m assms(2) jwks_fold_sound [of J "[]" keys kid key] show ?thesis
    by (simp add: hm_length_card)
qed

theorem set_jwks_rsa_signature_only_witness:
  "card (dom (hm_get (tv_jwks (snd (set_jwks sample_jwt
     [\<lparr>jwk_algorithm = KtyRSA, jwk_use = None, jwk_key_id = Some ''k'', jwk_material = [7]\<rparr>]
     sample_verifier))))) = 1"
  using set_jwks_rsa_signature_only
    [of sample_jwt "[\<lparr>jwk_algorithm = KtyRSA, jwk_use = None, jwk_key_id = Some ''k'', jwk_material = [7]\<rparr>]"
      sample_verifier 1 "sample_verifier\<lparr>tv_jwks := [(''k'', [7])]\<rparr>" "''k''" "[7]"]
  by (simp add: set_jwks_def jwks_add_def sample_jwt_def)

end
