(* ===== verification/Engine.thy ===== *)
theory Engine
  imports Codec Auth
begin

text \<open>
  The engine abstraction (\<open>crates/centrifugo-core/src/engine.rs\<close>) and what the core shares: the
  items of the connection queues (\<open>hub.rs\<close>), the messages an engine hands back, and the vtable of
  the \<open>Engine\<close> trait. A trait object \<open>Arc<dyn Engine>\<close> is an engine state together with a
  record \<open>engine_ops\<close> of its methods; a method returns its result (\<open>None\<close> for an error), the
  messages it passes to the route callback, and the new state.

  \<open>world\<close> gathers what the code takes from outside at one step: the clock, the random bytes, the
  third-party serializers and token library, the hash function of the standard library, and how the
  queues of the runtime answer. A queue answers as a function of everything sent so far, so every
  schedule of the receiving tasks is some \<open>world\<close>.
\<close>

section \<open>Queue items (hub.rs)\<close>

datatype out = Frame bytes | Close disconnect

datatype signal = SigUnsubscribe string | SigDisconnect disconnect

text \<open>
  What leaves the node: an item put in a writer queue, a signal in a reader queue, or a detached
  task that waits for a slot of a writer queue to close its connection.
\<close>

datatype effect = Tx nat out | Ctrl nat signal | SpawnClose nat disconnect

datatype send_result = SendOk | SendFull | SendClosed

record world =
  wd_now :: int
  wd_now_ms :: int
  wd_uuid :: bytes
  wd_uuid_string :: string
  wd_epoch_bytes :: "string \<Rightarrow> bytes"
  wd_hash :: "string \<Rightarrow> u64"
  wd_wire :: wire
  wd_jwt :: jwt
  wd_tx :: "effect list \<Rightarrow> nat \<Rightarrow> send_result"
  wd_ctrl :: "effect list \<Rightarrow> nat \<Rightarrow> send_result"

section \<open>Stream positions (node.rs)\<close>

record stream_position =
  sp_offset :: u64
  sp_epoch :: string

definition stream_position_default :: stream_position where
  "stream_position_default = \<lparr>sp_offset = 0, sp_epoch = ''''\<rparr>"

text \<open>The epoch of a stream is drawn when the stream of that channel is created.\<close>

definition epoch_alphabet :: string where
  "epoch_alphabet = ''abcdefghijklmnopqrstuvwxyzABCDEFGHIJKLMNOPQRSTUVWXYZ''"

definition new_epoch :: "bytes \<Rightarrow> string" where
  "new_epoch uuid =
     map (\<lambda>b. epoch_alphabet ! (unat b mod length epoch_alphabet)) (take 4 uuid)"

section \<open>Engine messages\<close>

record node_metrics =
  mt_interval :: f64
  mt_items :: "(string, f64) hmap"

record node_info =
  ni_uid :: string
  ni_name :: string
  ni_version :: string
  ni_num_clients :: u32
  ni_num_users :: u32
  ni_num_channels :: u32
  ni_uptime :: u32
  ni_metrics :: "node_metrics option"

datatype control_message =
  CmUnsubscribe string string
| CmDisconnect string u32 string bool "string list"
| CmNode node_info

record publish_options =
  po_history_size :: nat
  po_history_lifetime :: u64

definition publish_options_default :: publish_options where
  "publish_options_default = \<lparr>po_history_size = 0, po_history_lifetime = 0\<rparr>"

definition po_history_enabled :: "publish_options \<Rightarrow> bool" where
  "po_history_enabled p \<longleftrightarrow> po_history_size p > 0 \<and> po_history_lifetime p > 0"

datatype node_message =
  NmPublication string publication
| NmJoin string client_info
| NmLeave string client_info
| NmControl control_message

section \<open>The engine trait\<close>

type_synonym ('e, 'a) engine_call = "'e \<Rightarrow> 'a option \<times> node_message list \<times> 'e"

record 'e engine_ops =
  eo_publish ::
    "world \<Rightarrow> string \<Rightarrow> bytes \<Rightarrow> client_info option \<Rightarrow> publish_options \<Rightarrow> ('e, unit) engine_call"
  eo_publish_control :: "world \<Rightarrow> control_message \<Rightarrow> ('e, unit) engine_call"
  eo_publish_join :: "world \<Rightarrow> string \<Rightarrow> client_info \<Rightarrow> ('e, unit) engine_call"
  eo_publish_leave :: "world \<Rightarrow> string \<Rightarrow> client_info \<Rightarrow> ('e, unit) engine_call"
  eo_subscribe :: "world \<Rightarrow> string \<Rightarrow> ('e, unit) engine_call"
  eo_unsubscribe :: "world \<Rightarrow> string \<Rightarrow> ('e, unit) engine_call"
  eo_history :: "world \<Rightarrow> string \<Rightarrow> ('e, publication list \<times> stream_position) engine_call"
  eo_history_since ::
    "world \<Rightarrow> string \<Rightarrow> u64 \<Rightarrow> string \<Rightarrow> ('e, publication list \<times> stream_position) engine_call"
  eo_remove_history :: "world \<Rightarrow> string \<Rightarrow> ('e, unit) engine_call"
  eo_add_presence :: "world \<Rightarrow> string \<Rightarrow> string \<Rightarrow> client_info \<Rightarrow> u64 \<Rightarrow> ('e, unit) engine_call"
  eo_remove_presence :: "world \<Rightarrow> string \<Rightarrow> string \<Rightarrow> ('e, unit) engine_call"
  eo_presence :: "world \<Rightarrow> string \<Rightarrow> ('e, (string, client_info) hmap) engine_call"
  eo_presence_stats :: "world \<Rightarrow> string \<Rightarrow> ('e, u32 \<times> u32) engine_call"

lemma new_epoch_length: "4 \<le> length uuid \<Longrightarrow> length (new_epoch uuid) = 4"
  by (simp add: new_epoch_def)

section \<open>The recovery contract\<close>

text \<open>
  Whether the publications returned for a client that had seen \<open>seen\<close> publications in
  \<open>epoch\<close> are all it missed (\<open>client.rs\<close>, \<open>on_subscribe\<close>).
\<close>

definition is_recovered :: "publication list \<Rightarrow> stream_position \<Rightarrow> u64 \<Rightarrow> string \<Rightarrow> bool" where
  "is_recovered pubs tp seen epoch =
     (let next = seen + 1 in
      case pubs of
        first # _ \<Rightarrow> pub_offset first = next \<and> sp_epoch tp = epoch
      | [] \<Rightarrow> sp_offset tp = seen \<and> sp_epoch tp = epoch)"

text \<open>A log of publications of one epoch: the \<open>i\<close>-th carries the offset \<open>i + 1\<close>.\<close>

definition numbered :: "publication list \<Rightarrow> bool" where
  "numbered L \<longleftrightarrow>
     length L < 2 ^ 64 \<and> (\<forall>i < length L. pub_offset (L ! i) = of_nat (i + 1))"

text \<open>
  A store of one stream: \<open>holds L ep s\<close> says that the state \<open>s\<close> stands for the complete log
  \<open>L\<close> of epoch \<open>ep\<close>, of which the store may have dropped any prefix. The laws say what a
  read returns; the lemmas are what a recovering client can conclude from the answer.
\<close>

locale stream_store =
  fixes holds :: "publication list \<Rightarrow> string \<Rightarrow> 's \<Rightarrow> bool"
    and kept :: "'s \<Rightarrow> nat"
    and since :: "'s \<Rightarrow> u64 \<Rightarrow> string \<Rightarrow> publication list \<times> stream_position"
  assumes holds_numbered: "holds L ep s \<Longrightarrow> numbered L"
    and kept_le: "holds L ep s \<Longrightarrow> kept s \<le> length L"
    and since_top: "holds L ep s \<Longrightarrow> snd (since s n e) = \<lparr>sp_offset = of_nat (length L), sp_epoch = ep\<rparr>"
    and since_pubs: "holds L ep s \<Longrightarrow>
      fst (since s n e) = filter (\<lambda>p. n < pub_offset p) (drop (length L - kept s) L)"
begin

lemma numbered_filter:
  assumes "numbered L" "k \<le> length L"
  shows "filter (\<lambda>p. n < pub_offset p) (drop k L) = drop (max k (unat n)) L"
  using assms(2)
proof (induction "length L - k" arbitrary: k)
  case 0
  then show ?case by simp
next
  case (Suc m)
  then have k: "k < length L" by simp
  then have split: "drop k L = L ! k # drop (k + 1) L" by (simp add: Cons_nth_drop_Suc)
  have IH: "filter (\<lambda>p. n < pub_offset p) (drop (k + 1) L) = drop (max (k + 1) (unat n)) L"
    using Suc by (intro Suc.hyps(1)) auto
  have "unat (pub_offset (L ! k)) = k + 1"
    using assms(1) k unfolding numbered_def by (simp add: unat_of_nat take_bit_nat_eq_self del: of_nat_Suc of_nat_add)
  then have lt: "n < pub_offset (L ! k) \<longleftrightarrow> unat n \<le> k"
    by (simp add: word_less_nat_alt less_Suc_eq_le)
  show ?case
  proof (cases "unat n \<le> k")
    case True
    then have "max k (unat n) = k" "max (k + 1) (unat n) = k + 1" by auto
    with split IH lt True show ?thesis by simp
  next
    case False
    then have "max k (unat n) = max (k + 1) (unat n)" by auto
    with split IH lt False show ?thesis by simp
  qed
qed

lemma since_drop:
  "holds L ep s \<Longrightarrow> fst (since s n e) = drop (max (length L - kept s) (unat n)) L"
  using since_pubs [of L ep s n e] numbered_filter [OF holds_numbered [of L ep s]] by simp

lemma recovered_complete:
  assumes h: "holds L ep s" and r: "is_recovered (fst (since s n e)) (snd (since s n e)) n e"
  shows "e = ep \<and> unat n \<le> length L \<and> fst (since s n e) = drop (unat n) L"
proof -
  let ?k = "max (length L - kept s) (unat n)"
  have num: "numbered L" using h holds_numbered by blast
  then have lenL: "unat (of_nat (length L) :: u64) = length L"
    by (simp add: numbered_def unat_of_nat take_bit_nat_eq_self)
  have pubs: "fst (since s n e) = drop ?k L" using h by (rule since_drop)
  have pos: "snd (since s n e) = \<lparr>sp_offset = of_nat (length L), sp_epoch = ep\<rparr>"
    using h by (rule since_top)
  show ?thesis
  proof (cases "?k < length L")
    case True
    then have split: "drop ?k L = L ! ?k # drop (?k + 1) L" by (simp add: Cons_nth_drop_Suc)
    have off: "pub_offset (L ! ?k) = of_nat (?k + 1)" using num True by (simp add: numbered_def)
    from r pubs pos split off have e: "e = ep" and eq: "of_nat (?k + 1) = n + 1"
      by (simp_all add: is_recovered_def)
    from eq have "(of_nat ?k :: u64) = n" by (simp add: add.commute)
    then have "unat (of_nat ?k :: u64) = unat n" by simp
    moreover have "?k < 2 ^ 64" using True num by (simp add: numbered_def)
    ultimately have "?k = unat n" by (simp add: unat_of_nat take_bit_nat_eq_self)
    with e pubs True show ?thesis by simp
  next
    case False
    then have "length L \<le> ?k" by linarith
    then have "drop ?k L = []" by (rule drop_all)
    with r pubs pos have e: "e = ep" and eq: "of_nat (length L) = n"
      by (auto simp: is_recovered_def)
    from eq lenL have "unat n = length L" by blast
    with e pubs show ?thesis by simp
  qed
qed

lemma recovered_if_kept:
  assumes h: "holds L ep s" and n: "unat n \<le> length L" and k: "length L - unat n \<le> kept s"
  shows "is_recovered (fst (since s n ep)) (snd (since s n ep)) n ep"
proof -
  have num: "numbered L" using h holds_numbered by blast
  have "max (length L - kept s) (unat n) = unat n" using k n by auto
  then have pubs: "fst (since s n ep) = drop (unat n) L" using since_drop [OF h] by simp
  have pos: "snd (since s n ep) = \<lparr>sp_offset = of_nat (length L), sp_epoch = ep\<rparr>"
    using h by (rule since_top)
  show ?thesis
  proof (cases "unat n < length L")
    case True
    then have split: "drop (unat n) L = L ! unat n # drop (unat n + 1) L"
      by (simp add: Cons_nth_drop_Suc)
    have "pub_offset (L ! unat n) = of_nat (unat n + 1)" using num True by (simp add: numbered_def)
    then have "pub_offset (L ! unat n) = n + 1" by (simp add: add.commute)
    with pubs pos split show ?thesis by (simp add: is_recovered_def)
  next
    case False
    with n have "unat n = length L" by simp
    then have "of_nat (length L) = n" by (simp flip: \<open>unat n = length L\<close>)
    with pubs pos \<open>unat n = length L\<close> show ?thesis by (simp add: is_recovered_def)
  qed
qed

end

end
