(* ===== verification/Hub.thy ===== *)
theory Hub
  imports Engine
begin

text \<open>
  The hub (\<open>crates/centrifugo-core/src/hub.rs\<close>): the registry of connections by id, the index of a
  user's connections, and the subscriptions, spread over 16 shards by the hash of the channel. The
  invariant \<open>hub_wf\<close> is preserved by every operation, and the sharded registry implements the
  contract \<open>registry\<close> of one unsharded map from channel to subscriber ids.
\<close>

section \<open>State\<close>

text \<open>A \<open>Sender\<close> is the number of its queue.\<close>

record client_handle =
  ch_id :: string
  ch_user :: string
  ch_proto :: protocol_type
  ch_tx :: nat
  ch_ctrl :: "nat option"

definition shards_count :: nat where "shards_count = 16"

record shard =
  sh_subs :: "(string, string hset) hmap"

record hub =
  hb_conns :: "(string, client_handle) hmap"
  hb_users :: "(string, string hset) hmap"
  hb_shards :: "shard list"

definition hub_new :: hub where
  "hub_new = \<lparr>hb_conns = [], hb_users = [], hb_shards = replicate shards_count \<lparr>sh_subs = []\<rparr>\<rparr>"

definition shard_for :: "world \<Rightarrow> string \<Rightarrow> nat" where
  "shard_for w channel = unat (wd_hash w channel) mod shards_count"

section \<open>Operations\<close>

definition hub_add :: "client_handle \<Rightarrow> hub \<Rightarrow> hub" where
  "hub_add handle h =
     h\<lparr>hb_conns := hm_insert (ch_id handle) handle (hb_conns h),
       hb_users :=
         hm_insert (ch_user handle)
           (hs_insert (ch_id handle) (hm_get_or [] (hb_users h) (ch_user handle))) (hb_users h)\<rparr>"

text \<open>The closure of \<open>retain\<close>: drop the id, keep the set when it is not empty.\<close>

definition drop_id :: "string \<Rightarrow> string \<Rightarrow> string hset \<Rightarrow> string hset option" where
  "drop_id i channel s = (let s' = hs_remove i s in if s' = [] then None else Some s')"

definition hub_remove :: "string \<Rightarrow> hub \<Rightarrow> bool \<times> hub" where
  "hub_remove i h =
     (let handle = hm_get (hb_conns h) i;
          users =
            (case handle of
               None \<Rightarrow> hb_users h
             | Some c \<Rightarrow>
                 (case hm_get (hb_users h) (ch_user c) of
                    None \<Rightarrow> hb_users h
                  | Some s \<Rightarrow>
                      (let s' = hs_remove i s in
                       if s' = [] then hm_remove (ch_user c) (hb_users h)
                       else hm_insert (ch_user c) s' (hb_users h))));
          shards = map (\<lambda>s. s\<lparr>sh_subs := hm_retain (drop_id i) (sh_subs s)\<rparr>) (hb_shards h)
      in (handle \<noteq> None,
          h\<lparr>hb_conns := hm_remove i (hb_conns h), hb_users := users, hb_shards := shards\<rparr>))"

definition hub_get :: "hub \<Rightarrow> string \<Rightarrow> client_handle option" where
  "hub_get h i = hm_get (hb_conns h) i"

definition user_clients :: "hub \<Rightarrow> string \<Rightarrow> client_handle list" where
  "user_clients h user =
     (case hm_get (hb_users h) user of
        None \<Rightarrow> []
      | Some ids \<Rightarrow> List.map_filter (hm_get (hb_conns h)) ids)"

definition hub_subscribe :: "world \<Rightarrow> string \<Rightarrow> string \<Rightarrow> hub \<Rightarrow> hub" where
  "hub_subscribe w i channel h =
     (let k = shard_for w channel; s = hb_shards h ! k in
      h\<lparr>hb_shards := (hb_shards h)
          [k := s\<lparr>sh_subs :=
                 hm_insert channel (hs_insert i (hm_get_or [] (sh_subs s) channel)) (sh_subs s)\<rparr>]\<rparr>)"

definition hub_unsubscribe :: "world \<Rightarrow> string \<Rightarrow> string \<Rightarrow> hub \<Rightarrow> hub" where
  "hub_unsubscribe w i channel h =
     (let k = shard_for w channel; s = hb_shards h ! k in
      case hm_get (sh_subs s) channel of
        None \<Rightarrow> h
      | Some ids \<Rightarrow>
          (let ids' = hs_remove i ids in
           h\<lparr>hb_shards := (hb_shards h)
               [k := s\<lparr>sh_subs :=
                      (if ids' = [] then hm_remove channel (sh_subs s)
                       else hm_insert channel ids' (sh_subs s))\<rparr>]\<rparr>))"

definition subscribers :: "world \<Rightarrow> hub \<Rightarrow> string \<Rightarrow> client_handle list" where
  "subscribers w h channel =
     (case hm_get (sh_subs (hb_shards h ! shard_for w channel)) channel of
        None \<Rightarrow> []
      | Some ids \<Rightarrow> List.map_filter (hm_get (hb_conns h)) ids)"

definition num_clients :: "hub \<Rightarrow> nat" where
  "num_clients h = length (hb_conns h)"

definition num_users :: "hub \<Rightarrow> nat" where
  "num_users h = length (hb_users h)"

definition hub_channels :: "hub \<Rightarrow> string list" where
  "hub_channels h = concat (map (\<lambda>s. map fst (sh_subs s)) (hb_shards h))"

definition num_channels :: "hub \<Rightarrow> nat" where
  "num_channels h = sum_list (map (\<lambda>s. length (sh_subs s)) (hb_shards h))"

section \<open>Well-formedness\<close>

definition subs_wf :: "(string, string hset) hmap \<Rightarrow> bool" where
  "subs_wf m \<longleftrightarrow> hm_wf m \<and> list_all (\<lambda>e. distinct (snd e) \<and> snd e \<noteq> []) m"

definition conns_wf :: "hub \<Rightarrow> bool" where
  "conns_wf h \<longleftrightarrow> hm_wf (hb_conns h) \<and> (\<forall>i c. hm_get (hb_conns h) i = Some c \<longrightarrow> ch_id c = i)"

definition user_ids :: "hub \<Rightarrow> string \<Rightarrow> string set" where
  "user_ids h u = set (hm_get_or [] (hb_users h) u)"

definition users_wf :: "hub \<Rightarrow> bool" where
  "users_wf h \<longleftrightarrow> subs_wf (hb_users h) \<and>
     (\<forall>u i. i \<in> user_ids h u \<longleftrightarrow> (\<exists>c. hm_get (hb_conns h) i = Some c \<and> ch_user c = u))"

definition shard_ok :: "world \<Rightarrow> nat \<Rightarrow> shard \<Rightarrow> bool" where
  "shard_ok w k s \<longleftrightarrow> subs_wf (sh_subs s) \<and> (\<forall>c \<in> fst ` set (sh_subs s). shard_for w c = k)"

definition shards_wf :: "world \<Rightarrow> hub \<Rightarrow> bool" where
  "shards_wf w h \<longleftrightarrow> length (hb_shards h) = shards_count \<and>
     (\<forall>k < shards_count. shard_ok w k (hb_shards h ! k))"

definition hub_wf :: "world \<Rightarrow> hub \<Rightarrow> bool" where
  "hub_wf w h \<longleftrightarrow> conns_wf h \<and> users_wf h \<and> shards_wf w h"

text \<open>The ids subscribed to a channel.\<close>

definition sub_ids :: "world \<Rightarrow> hub \<Rightarrow> string \<Rightarrow> string set" where
  "sub_ids w h channel = set (hm_get_or [] (sh_subs (hb_shards h ! shard_for w channel)) channel)"

lemma shard_for_less [simp]: "shard_for w c < shards_count"
  by (simp add: shard_for_def shards_count_def)

lemma subs_wf_Nil [simp]: "subs_wf []"
  by (simp add: subs_wf_def)

lemma list_all_update:
  "list_all P m \<Longrightarrow> (\<And>j. P (j, v)) \<Longrightarrow> list_all P (hm_insert k v m)"
  by (induction m) auto

lemma list_all_delete: "list_all P m \<Longrightarrow> list_all P (hm_remove k m)"
  by (induction m) auto

lemma subs_wf_insert:
  "subs_wf m \<Longrightarrow> distinct ids \<Longrightarrow> ids \<noteq> [] \<Longrightarrow> subs_wf (hm_insert c ids m)"
  by (simp add: subs_wf_def list_all_update)

lemma subs_wf_remove: "subs_wf m \<Longrightarrow> subs_wf (hm_remove c m)"
  by (simp add: subs_wf_def list_all_delete)
lemma subs_wf_D: "subs_wf m \<Longrightarrow> hm_get m c = Some ids \<Longrightarrow> distinct ids \<and> ids \<noteq> []"
  unfolding subs_wf_def list_all_iff by (auto dest!: map_of_SomeD)

lemma subs_wf_get: "subs_wf m \<Longrightarrow> distinct (hm_get_or [] m c)"
  by (cases "hm_get m c") (auto simp: hm_get_or_def dest: subs_wf_D)

lemma subs_wf_retain: "subs_wf m \<Longrightarrow> subs_wf (hm_retain (drop_id i) m)"
proof -
  have "list_all (\<lambda>e. distinct (snd e) \<and> snd e \<noteq> []) m \<Longrightarrow>
    list_all (\<lambda>e. distinct (snd e) \<and> snd e \<noteq> []) (hm_retain (drop_id i) m)"
    by (induction "drop_id i" m rule: hm_retain.induct)
       (auto simp: drop_id_def Let_def distinct_removeAll split: option.splits if_splits)
  then show "subs_wf m \<Longrightarrow> ?thesis" by (simp add: subs_wf_def)
qed

lemma list_insert_not_Nil [simp]: "List.insert x xs \<noteq> []"
  by (auto simp: List.insert_def)

lemma hm_get_or_insert: "hm_get_or d (hm_insert k v m) j = (if j = k then v else hm_get_or d m j)"
  by (simp add: hm_get_or_def)

lemma hm_get_or_remove: "hm_get_or d (hm_remove k m) j = (if j = k then d else hm_get_or d m j)"
  unfolding hm_get_or_def hm_get_remove by simp

lemma hs_remove_Nil: "hs_remove i s = [] \<Longrightarrow> x \<in> set s \<Longrightarrow> x = i"
  by (induction s) (auto split: if_splits)

lemma hm_get_or_retain:
  assumes "subs_wf m"
  shows "set (hm_get_or [] (hm_retain (drop_id i) m) c) = set (hm_get_or [] m c) - {i}"
proof -
  have "hm_get (hm_retain (drop_id i) m) c = Option.bind (hm_get m c) (drop_id i c)"
    using assms by (intro hm_get_retain) (simp add: subs_wf_def)
  then show ?thesis
    by (cases "hm_get m c")
       (auto simp: hm_get_or_def drop_id_def Let_def dest: hs_remove_Nil split: if_splits)
qed

section \<open>Preservation\<close>

lemma hub_new_wf: "hub_wf w hub_new"
  by (auto simp: hub_wf_def conns_wf_def users_wf_def shards_wf_def shard_ok_def hub_new_def
      user_ids_def hm_get_or_def)

lemma shards_wf_update:
  "shards_wf w h \<Longrightarrow> shard_ok w k s \<Longrightarrow> shards_wf w (h\<lparr>hb_shards := (hb_shards h)[k := s]\<rparr>)"
  by (cases "k < shards_count") (auto simp: shards_wf_def nth_list_update)

lemma shard_ok_at: "shards_wf w h \<Longrightarrow> shard_ok w (shard_for w c) (hb_shards h ! shard_for w c)"
  by (simp add: shards_wf_def)

lemma shard_ok_insert:
  "shard_ok w (shard_for w c) s \<Longrightarrow> distinct ids \<Longrightarrow> ids \<noteq> [] \<Longrightarrow>
   shard_ok w (shard_for w c) (s\<lparr>sh_subs := hm_insert c ids (sh_subs s)\<rparr>)"
  unfolding shard_ok_def by (simp add: subs_wf_insert hm_insert_keys del: ball_simps) blast

lemma shard_ok_remove: "shard_ok w k s \<Longrightarrow> shard_ok w k (s\<lparr>sh_subs := hm_remove c (sh_subs s)\<rparr>)"
  unfolding shard_ok_def by (simp add: subs_wf_remove hm_remove_keys del: ball_simps)

lemma shard_ok_retain:
  "shard_ok w k s \<Longrightarrow> shard_ok w k (s\<lparr>sh_subs := hm_retain (drop_id i) (sh_subs s)\<rparr>)"
  unfolding shard_ok_def using subs_wf_retain [of "sh_subs s" i] hm_retain_keys [of "drop_id i" "sh_subs s"]
  by (simp del: ball_simps) blast

lemma hub_subscribe_wf [wf_intros]:
  assumes "hub_wf w h" shows "hub_wf w (hub_subscribe w i c h)"
proof -
  have wf: "shards_wf w h" using assms by (simp add: hub_wf_def)
  note ok = shard_ok_at [OF wf, of c]
  then have "distinct (hm_get_or [] (sh_subs (hb_shards h ! shard_for w c)) c)"
    unfolding shard_ok_def using subs_wf_get by blast
  then have "shards_wf w (hub_subscribe w i c h)"
    unfolding hub_subscribe_def Let_def
    by (intro shards_wf_update wf shard_ok_insert ok) simp_all
  then show ?thesis
    using assms by (simp add: hub_wf_def conns_wf_def users_wf_def user_ids_def hub_subscribe_def Let_def)
qed

lemma hub_unsubscribe_wf [wf_intros]:
  assumes "hub_wf w h" shows "hub_wf w (hub_unsubscribe w i c h)"
proof (cases "hm_get (sh_subs (hb_shards h ! shard_for w c)) c")
  case None
  with assms show ?thesis by (simp add: hub_unsubscribe_def)
next
  case (Some ids)
  have wf: "shards_wf w h" using assms by (simp add: hub_wf_def)
  note ok = shard_ok_at [OF wf, of c]
  with Some have "distinct ids" unfolding shard_ok_def using subs_wf_D by blast
  then have "shard_ok w (shard_for w c) ((hb_shards h ! shard_for w c)\<lparr>sh_subs :=
      (if hs_remove i ids = [] then hm_remove c (sh_subs (hb_shards h ! shard_for w c))
       else hm_insert c (hs_remove i ids) (sh_subs (hb_shards h ! shard_for w c)))\<rparr>)"
    using shard_ok_remove [OF ok] shard_ok_insert [OF ok] by (simp add: distinct_removeAll)
  note shards_wf_update [OF wf this]
  with Some assms show ?thesis
    by (simp add: hub_wf_def conns_wf_def users_wf_def user_ids_def hub_unsubscribe_def Let_def)
qed

lemma hub_add_wf [wf_intros]:
  assumes wf: "hub_wf w h" and fresh: "hm_get (hb_conns h) (ch_id c) = None"
  shows "hub_wf w (hub_add c h)"
proof -
  have u: "subs_wf (hb_users h)" using wf by (simp add: hub_wf_def users_wf_def)
  have "users_wf (hub_add c h)"
    using wf fresh
    by (auto simp: hub_wf_def users_wf_def hub_add_def user_ids_def hm_get_or_insert
        subs_wf_insert [OF u] subs_wf_get [OF u])
  then show ?thesis
    using wf by (simp add: hub_wf_def conns_wf_def shards_wf_def hub_add_def)
qed

lemma user_ids_remove:
  assumes "hub_wf w h"
  shows "user_ids (snd (hub_remove i h)) u = user_ids h u - {i}"
proof (cases "hm_get (hb_conns h) i")
  case None
  then have "i \<notin> user_ids h u" using assms by (auto simp: hub_wf_def users_wf_def)
  with None show ?thesis by (simp add: hub_remove_def user_ids_def Let_def)
next
  case (Some c)
  show ?thesis
  proof (cases "hm_get (hb_users h) (ch_user c)")
    case None
    then have "i \<notin> user_ids h (ch_user c)" by (simp add: user_ids_def hm_get_or_def)
    with Some assms have False by (auto simp: hub_wf_def users_wf_def)
    then show ?thesis ..
  next
    case (Some s)
    have "i \<notin> user_ids h u" if "u \<noteq> ch_user c"
      using that \<open>hm_get (hb_conns h) i = Some c\<close> assms by (auto simp: hub_wf_def users_wf_def)
    moreover have "set s - {i} = {}" if "hs_remove i s = []"
      using that by (metis set_removeAll empty_set)
    ultimately show ?thesis
      using Some \<open>hm_get (hb_conns h) i = Some c\<close>
      by (auto simp: hub_remove_def user_ids_def Let_def hm_get_or_insert hm_get_or_remove
          hm_get_or_def [of _ "hb_users h"] split: if_splits)
  qed
qed

lemma hub_remove_wf [wf_intros]:
  assumes "hub_wf w h" shows "hub_wf w (snd (hub_remove i h))"
proof -
  have u: "subs_wf (hb_users h)" using assms by (simp add: hub_wf_def users_wf_def)
  then have "subs_wf (hb_users (snd (hub_remove i h)))"
    by (auto simp: hub_remove_def Let_def subs_wf_remove
        intro!: subs_wf_insert distinct_removeAll split: option.split dest: subs_wf_D)
  moreover have conn: "hm_get (hb_conns (snd (hub_remove i h))) j =
      (if j = i then None else hm_get (hb_conns h) j)" for j
    by (simp add: hub_remove_def Let_def)
  moreover have "j \<in> user_ids h u - {i} \<longleftrightarrow>
      (\<exists>c. (if j = i then None else hm_get (hb_conns h) j) = Some c \<and> ch_user c = u)" for j u
    using assms unfolding hub_wf_def users_wf_def by auto
  ultimately have users: "users_wf (snd (hub_remove i h))"
    unfolding users_wf_def user_ids_remove [OF assms] conn by blast
  have "hm_wf (hb_conns (snd (hub_remove i h)))"
    using assms by (simp add: hub_wf_def conns_wf_def hub_remove_def Let_def)
  then have conns: "conns_wf (snd (hub_remove i h))"
    using assms unfolding conns_wf_def conn hub_wf_def by (auto split: if_splits)
  have "shards_wf w (snd (hub_remove i h))"
    using assms by (simp add: hub_wf_def shards_wf_def hub_remove_def Let_def shard_ok_retain)
  with users conns show ?thesis by (simp add: hub_wf_def)
qed

section \<open>The registry contract\<close>

text \<open>
  The hub as one map from connection ids to handles and one map from channels to sets of ids, with
  no shards and no user index.
\<close>

locale registry =
  fixes inv :: "'s \<Rightarrow> bool"
    and conn :: "'s \<Rightarrow> string \<Rightarrow> client_handle option"
    and ids :: "'s \<Rightarrow> string \<Rightarrow> string set"
    and add :: "client_handle \<Rightarrow> 's \<Rightarrow> 's"
    and remove :: "string \<Rightarrow> 's \<Rightarrow> bool \<times> 's"
    and sub :: "string \<Rightarrow> string \<Rightarrow> 's \<Rightarrow> 's"
    and unsub :: "string \<Rightarrow> string \<Rightarrow> 's \<Rightarrow> 's"
    and listeners :: "'s \<Rightarrow> string \<Rightarrow> client_handle list"
  assumes conn_add: "conn (add h s) = (conn s)(ch_id h \<mapsto> h)"
    and ids_add: "ids (add h s) = ids s"
    and remove_inv: "inv s \<Longrightarrow> inv (snd (remove i s))"
    and conn_remove: "conn (snd (remove i s)) = (conn s)(i := None)"
    and remove_fst: "fst (remove i s) \<longleftrightarrow> conn s i \<noteq> None"
    and ids_remove: "inv s \<Longrightarrow> ids (snd (remove i s)) c = ids s c - {i}"
    and sub_inv: "inv s \<Longrightarrow> inv (sub i c s)"
    and conn_sub: "conn (sub i c s) = conn s"
    and ids_sub: "inv s \<Longrightarrow> ids (sub i c s) = (ids s)(c := insert i (ids s c))"
    and unsub_inv: "inv s \<Longrightarrow> inv (unsub i c s)"
    and conn_unsub: "conn (unsub i c s) = conn s"
    and ids_unsub: "inv s \<Longrightarrow> ids (unsub i c s) = (ids s)(c := ids s c - {i})"
    and conn_id: "inv s \<Longrightarrow> conn s i = Some h \<Longrightarrow> ch_id h = i"
    and listeners_set: "inv s \<Longrightarrow> set (listeners s c) = {h. \<exists>i \<in> ids s c. conn s i = Some h}"
    and listeners_distinct: "inv s \<Longrightarrow> distinct (map ch_id (listeners s c))"
begin

lemma remove_silences:
  assumes "inv s"
  shows "\<forall>c. i \<notin> ids (snd (remove i s)) c \<and> i \<notin> ch_id ` set (listeners (snd (remove i s)) c)"
  using assms by (auto simp: ids_remove listeners_set remove_inv conn_remove dest: conn_id)

lemma remove_keeps_others:
  assumes "inv s" "h \<in> set (listeners s c)" "ch_id h \<noteq> i"
  shows "h \<in> set (listeners (snd (remove i s)) c)"
  using assms by (auto simp: ids_remove listeners_set remove_inv conn_remove dest: conn_id)

lemma remove_once: "fst (remove i (snd (remove i s))) = False"
  by (simp add: remove_fst conn_remove)

lemma sub_listens: "inv s \<Longrightarrow> conn s i = Some h \<Longrightarrow> h \<in> set (listeners (sub i c s) c)"
  by (auto simp: listeners_set sub_inv conn_sub ids_sub)

lemma unsub_sub: "inv s \<Longrightarrow> i \<notin> ids s c \<Longrightarrow> ids (unsub i c (sub i c s)) = ids s"
  by (simp add: ids_unsub ids_sub sub_inv fun_eq_iff)

lemma listeners_unique:
  assumes "inv s" "h \<in> set (listeners s c)" "h' \<in> set (listeners s c)" "ch_id h = ch_id h'"
  shows "h = h'"
  using listeners_distinct [OF assms(1), of c] assms(2-4) by (metis distinct_map inj_onD)

end

lemma map_filter_set: "set (List.map_filter f xs) = {y. \<exists>x \<in> set xs. f x = Some y}"
  by (induction xs) (auto split: option.splits)

lemma map_filter_distinct:
  "distinct xs \<Longrightarrow> (\<And>x y. x \<in> set xs \<Longrightarrow> f x = Some y \<Longrightarrow> g y = x) \<Longrightarrow>
   distinct (map g (List.map_filter f xs))"
proof (induction xs)
  case (Cons x xs)
  then have "distinct (map g (List.map_filter f xs))" by simp
  moreover have "g y \<notin> g ` set (List.map_filter f xs)" if "f x = Some y" for y
    using that Cons.prems by (fastforce simp: map_filter_set)
  ultimately show ?case by (auto split: option.splits)
qed simp

lemma sub_ids_subscribe:
  assumes "hub_wf w h"
  shows "sub_ids w (hub_subscribe w i c h) = (sub_ids w h)(c := insert i (sub_ids w h c))"
proof -
  have "length (hb_shards h) = shards_count" using assms by (simp add: hub_wf_def shards_wf_def)
  then have "shard_for w c < length (hb_shards h)" by simp
  then show ?thesis
    by (auto simp: sub_ids_def hub_subscribe_def Let_def nth_list_update hm_get_or_insert fun_eq_iff)
qed

lemma sub_ids_unsubscribe:
  assumes "hub_wf w h"
  shows "sub_ids w (hub_unsubscribe w i c h) = (sub_ids w h)(c := sub_ids w h c - {i})"
proof -
  have "length (hb_shards h) = shards_count" using assms by (simp add: hub_wf_def shards_wf_def)
  then have k: "shard_for w c < length (hb_shards h)" by simp
  show ?thesis
  proof (cases "hm_get (sh_subs (hb_shards h ! shard_for w c)) c")
    case None
    then have "sub_ids w h c = {}" by (simp add: sub_ids_def hm_get_or_def)
    with None show ?thesis by (simp add: hub_unsubscribe_def fun_eq_iff)
  next
    case (Some ids)
    then have "sub_ids w h c = set ids" by (simp add: sub_ids_def hm_get_or_def)
    with Some k show ?thesis
      by (auto simp: sub_ids_def hub_unsubscribe_def Let_def nth_list_update hm_get_or_insert
          hm_get_or_remove fun_eq_iff dest: hs_remove_Nil)
  qed
qed

lemma sub_ids_remove:
  assumes "hub_wf w h"
  shows "sub_ids w (snd (hub_remove i h)) c = sub_ids w h c - {i}"
proof -
  have sw: "shards_wf w h" using assms by (simp add: hub_wf_def)
  then have "shard_for w c < length (hb_shards h)" by (simp add: shards_wf_def)
  moreover have "subs_wf (sh_subs (hb_shards h ! shard_for w c))"
    using shard_ok_at [OF sw] by (simp add: shard_ok_def)
  ultimately show ?thesis
    by (simp add: sub_ids_def hub_remove_def Let_def hm_get_or_retain)
qed

lemma hub_get_remove: "hub_get (snd (hub_remove i h)) = (hub_get h)(i := None)"
  unfolding hub_get_def hub_remove_def Let_def by (auto simp: fun_eq_iff)

lemma hub_get_add: "hub_get (hub_add c h) = (hub_get h)(ch_id c \<mapsto> c)"
  by (simp add: hub_get_def hub_add_def fun_eq_iff)

lemma sub_ids_add: "sub_ids w (hub_add c h) = sub_ids w h"
  by (simp add: sub_ids_def hub_add_def fun_eq_iff)

lemma hub_remove_fst: "fst (hub_remove i h) \<longleftrightarrow> hub_get h i \<noteq> None"
  by (simp add: hub_remove_def hub_get_def Let_def)

lemma hub_get_subscribe: "hub_get (hub_subscribe w i c h) = hub_get h"
  by (simp add: hub_get_def hub_subscribe_def Let_def fun_eq_iff)

lemma hub_get_unsubscribe: "hub_get (hub_unsubscribe w i c h) = hub_get h"
  by (simp add: hub_get_def hub_unsubscribe_def Let_def fun_eq_iff split: option.split)

lemma subscribers_set:
  "set (subscribers w h c) = {x. \<exists>i \<in> sub_ids w h c. hub_get h i = Some x}"
  by (auto simp: subscribers_def sub_ids_def hm_get_or_def map_filter_set hub_get_def
      split: option.splits)

lemma hub_wf_ids_distinct: "hub_wf w h \<Longrightarrow> hm_get (sh_subs (hb_shards h ! shard_for w c)) c = Some ids \<Longrightarrow> distinct ids"
  using shard_ok_at [of w h c] subs_wf_D unfolding hub_wf_def shard_ok_def by blast

lemma hub_wf_conn_id: "hub_wf w h \<Longrightarrow> hub_get h i = Some c \<Longrightarrow> ch_id c = i"
  by (simp add: hub_wf_def conns_wf_def hub_get_def)

interpretation hub: registry "hub_wf w" hub_get "sub_ids w" hub_add hub_remove
  "hub_subscribe w" "hub_unsubscribe w" "subscribers w" for w
proof unfold_locales
  fix h :: hub and c :: string
  assume wf: "hub_wf w h"
  show "distinct (map ch_id (subscribers w h c))"
  proof (cases "hm_get (sh_subs (hb_shards h ! shard_for w c)) c")
    case (Some ids)
    have "ch_id y = x" if "hm_get (hb_conns h) x = Some y" for x y
      using hub_wf_conn_id [OF wf] that by (simp add: hub_get_def)
    with Some show ?thesis
      by (simp add: subscribers_def map_filter_distinct [OF hub_wf_ids_distinct [OF wf Some]])
  qed (simp add: subscribers_def)
qed (rule hub_get_add sub_ids_add hub_remove_wf hub_get_remove hub_remove_fst sub_ids_remove
      hub_subscribe_wf hub_get_subscribe sub_ids_subscribe hub_unsubscribe_wf hub_get_unsubscribe
      sub_ids_unsubscribe hub_wf_conn_id subscribers_set; assumption)+

end
