(* ===== verification/Memory.thy ===== *)
theory Memory
  imports Engine
begin

text \<open>
  The in-memory engine (\<open>crates/centrifugo-core/src/memory.rs\<close>): per channel a history stream
  (offset, epoch, a bounded buffer of publications, two expiry times) and a presence map. Every
  method of the \<open>Engine\<close> trait is translated and \<open>memory_ops\<close> is the vtable. The streams are
  proved to represent the complete log of their publications (an instance of \<open>stream_store\<close>),
  and the presence maps to implement the contract \<open>presence_store\<close>.
\<close>

section \<open>State\<close>

record stream =
  sm_offset :: u64
  sm_epoch :: string
  sm_pubs :: "publication list"
  sm_expire_at :: int
  sm_meta_expire_at :: int

definition stream_new :: "world \<Rightarrow> string \<Rightarrow> stream" where
  "stream_new w channel =
     \<lparr>sm_offset = 0, sm_epoch = new_epoch (wd_epoch_bytes w channel), sm_pubs = [],
      sm_expire_at = i64_max, sm_meta_expire_at = i64_max\<rparr>"

definition stream_pos :: "stream \<Rightarrow> stream_position" where
  "stream_pos s = \<lparr>sp_offset = sm_offset s, sp_epoch = sm_epoch s\<rparr>"

record memory_engine =
  me_presence :: "(string, (string, client_info) hmap) hmap"
  me_history :: "(string, stream) hmap"
  me_meta_ttl :: int

definition memory_engine_new :: memory_engine where
  "memory_engine_new = \<lparr>me_presence = [], me_history = [], me_meta_ttl = 0\<rparr>"

definition with_history_meta_ttl :: "u64 \<Rightarrow> memory_engine \<Rightarrow> memory_engine" where
  "with_history_meta_ttl secs e = e\<lparr>me_meta_ttl := u64_as_i64 secs\<rparr>"

section \<open>History\<close>

definition evict_if_expired ::
    "world \<Rightarrow> string \<Rightarrow> (string, stream) hmap \<Rightarrow> (string, stream) hmap" where
  "evict_if_expired w channel hist =
     (case hm_get hist channel of
        None \<Rightarrow> hist
      | Some s \<Rightarrow>
          if wd_now w > sm_meta_expire_at s then hm_remove channel hist
          else if wd_now w > sm_expire_at s
          then hm_insert channel (s\<lparr>sm_pubs := [], sm_expire_at := i64_max\<rparr>) hist
          else hist)"

text \<open>\<open>hist.entry(channel).or_insert_with(Stream::new)\<close>.\<close>

definition stream_entry :: "world \<Rightarrow> string \<Rightarrow> (string, stream) hmap \<Rightarrow> stream" where
  "stream_entry w channel hist =
     (case hm_get hist channel of None \<Rightarrow> stream_new w channel | Some s \<Rightarrow> s)"

fun trim_front :: "nat \<Rightarrow> 'a list \<Rightarrow> 'a list" where
  "trim_front n [] = []"
| "trim_front n (p # ps) = (if n < length (p # ps) then trim_front n ps else p # ps)"

definition history_publication ::
    "bytes \<Rightarrow> client_info option \<Rightarrow> u64 \<Rightarrow> publication" where
  "history_publication data info offset =
     publication_default\<lparr>pub_data := Some data, pub_info := info, pub_offset := offset\<rparr>"

definition add_to_history ::
    "world \<Rightarrow> string \<Rightarrow> bytes \<Rightarrow> client_info option \<Rightarrow> publish_options \<Rightarrow> memory_engine
       \<Rightarrow> u64 \<times> memory_engine" where
  "add_to_history w channel data info opts e =
     (let hist = evict_if_expired w channel (me_history e);
          s0 = stream_entry w channel hist;
          offset = sm_offset s0 + 1;
          pubs = trim_front (po_history_size opts)
                   (sm_pubs s0 @ [history_publication data info offset]);
          s = s0\<lparr>sm_offset := offset, sm_pubs := pubs,
                 sm_expire_at := i64_add (wd_now w) (u64_as_i64 (po_history_lifetime opts)),
                 sm_meta_expire_at :=
                   (if me_meta_ttl e > 0 then i64_add (wd_now w) (me_meta_ttl e) else i64_max)\<rparr>
      in (offset, e\<lparr>me_history := hm_insert channel s hist\<rparr>))"

definition mem_publish ::
    "world \<Rightarrow> string \<Rightarrow> bytes \<Rightarrow> client_info option \<Rightarrow> publish_options
       \<Rightarrow> (memory_engine, unit) engine_call" where
  "mem_publish w channel data info opts e =
     (let (offset, e') =
            (if po_history_enabled opts then add_to_history w channel data info opts e else (0, e))
      in (Some (), [NmPublication channel (history_publication data info offset)], e'))"

definition mem_publish_control ::
    "world \<Rightarrow> control_message \<Rightarrow> (memory_engine, unit) engine_call" where
  "mem_publish_control w msg e = (Some (), [], e)"

definition mem_publish_join ::
    "world \<Rightarrow> string \<Rightarrow> client_info \<Rightarrow> (memory_engine, unit) engine_call" where
  "mem_publish_join w channel info e = (Some (), [NmJoin channel info], e)"

definition mem_publish_leave ::
    "world \<Rightarrow> string \<Rightarrow> client_info \<Rightarrow> (memory_engine, unit) engine_call" where
  "mem_publish_leave w channel info e = (Some (), [NmLeave channel info], e)"

definition mem_subscribe :: "world \<Rightarrow> string \<Rightarrow> (memory_engine, unit) engine_call" where
  "mem_subscribe w channel e = (Some (), [], e)"

definition mem_unsubscribe :: "world \<Rightarrow> string \<Rightarrow> (memory_engine, unit) engine_call" where
  "mem_unsubscribe w channel e = (Some (), [], e)"

definition mem_history ::
    "world \<Rightarrow> string \<Rightarrow> (memory_engine, publication list \<times> stream_position) engine_call" where
  "mem_history w channel e =
     (let hist = evict_if_expired w channel (me_history e);
          s = stream_entry w channel hist
      in (Some (sm_pubs s, stream_pos s), [], e\<lparr>me_history := hm_insert channel s hist\<rparr>))"

definition stream_since :: "stream \<Rightarrow> u64 \<Rightarrow> string \<Rightarrow> publication list \<times> stream_position" where
  "stream_since s offset epoch =
     (let pos = stream_pos s in
      if sp_offset pos = offset \<and> sp_epoch pos = epoch then ([], pos)
      else (filter (\<lambda>p. pub_offset p > offset) (sm_pubs s), pos))"

definition mem_history_since ::
    "world \<Rightarrow> string \<Rightarrow> u64 \<Rightarrow> string
       \<Rightarrow> (memory_engine, publication list \<times> stream_position) engine_call" where
  "mem_history_since w channel offset epoch e =
     (let hist = evict_if_expired w channel (me_history e);
          s = stream_entry w channel hist
      in (Some (stream_since s offset epoch), [], e\<lparr>me_history := hm_insert channel s hist\<rparr>))"

definition mem_remove_history :: "world \<Rightarrow> string \<Rightarrow> (memory_engine, unit) engine_call" where
  "mem_remove_history w channel e =
     (Some (), [], e\<lparr>me_history := hm_remove channel (me_history e)\<rparr>)"

section \<open>Presence\<close>

type_synonym presence_map = "(string, (string, client_info) hmap) hmap"

definition presence_insert ::
    "string \<Rightarrow> string \<Rightarrow> client_info \<Rightarrow> presence_map \<Rightarrow> presence_map" where
  "presence_insert channel client_id info p =
     hm_insert channel (hm_insert client_id info (hm_get_or [] p channel)) p"

definition presence_delete :: "string \<Rightarrow> string \<Rightarrow> presence_map \<Rightarrow> presence_map" where
  "presence_delete channel client_id p =
     (case hm_get p channel of
        None \<Rightarrow> p
      | Some chan \<Rightarrow>
          (let chan' = hm_remove client_id chan in
           if chan' = [] then hm_remove channel p else hm_insert channel chan' p))"

definition presence_count :: "presence_map \<Rightarrow> string \<Rightarrow> u32 \<times> u32" where
  "presence_count p channel =
     (case hm_get p channel of
        None \<Rightarrow> (0, 0)
      | Some chan \<Rightarrow>
          (let users = remdups (map (\<lambda>(k, ci). ci_user ci) chan) in
           (of_nat (length chan), of_nat (length users))))"

definition mem_add_presence ::
    "world \<Rightarrow> string \<Rightarrow> string \<Rightarrow> client_info \<Rightarrow> u64 \<Rightarrow> (memory_engine, unit) engine_call" where
  "mem_add_presence w channel client_id info ttl_ms e =
     (Some (), [], e\<lparr>me_presence := presence_insert channel client_id info (me_presence e)\<rparr>)"

definition mem_remove_presence ::
    "world \<Rightarrow> string \<Rightarrow> string \<Rightarrow> (memory_engine, unit) engine_call" where
  "mem_remove_presence w channel client_id e =
     (Some (), [], e\<lparr>me_presence := presence_delete channel client_id (me_presence e)\<rparr>)"

definition mem_presence ::
    "world \<Rightarrow> string \<Rightarrow> (memory_engine, (string, client_info) hmap) engine_call" where
  "mem_presence w channel e = (Some (hm_get_or [] (me_presence e) channel), [], e)"

definition mem_presence_stats :: "world \<Rightarrow> string \<Rightarrow> (memory_engine, u32 \<times> u32) engine_call" where
  "mem_presence_stats w channel e = (Some (presence_count (me_presence e) channel), [], e)"

definition memory_ops :: "memory_engine engine_ops" where
  "memory_ops =
     \<lparr>eo_publish = mem_publish, eo_publish_control = mem_publish_control,
      eo_publish_join = mem_publish_join, eo_publish_leave = mem_publish_leave,
      eo_subscribe = mem_subscribe, eo_unsubscribe = mem_unsubscribe,
      eo_history = mem_history, eo_history_since = mem_history_since,
      eo_remove_history = mem_remove_history, eo_add_presence = mem_add_presence,
      eo_remove_presence = mem_remove_presence, eo_presence = mem_presence,
      eo_presence_stats = mem_presence_stats\<rparr>"

section \<open>Streams represent logs\<close>

definition stream_holds :: "publication list \<Rightarrow> string \<Rightarrow> stream \<Rightarrow> bool" where
  "stream_holds L ep s \<longleftrightarrow>
     numbered L \<and> sm_epoch s = ep \<and> sm_offset s = of_nat (length L) \<and>
     length (sm_pubs s) \<le> length L \<and> sm_pubs s = drop (length L - length (sm_pubs s)) L"

definition stream_kept :: "stream \<Rightarrow> nat" where
  "stream_kept s = length (sm_pubs s)"

lemma numbered_suffix_empty:
  assumes "numbered L" "k \<le> length L"
  shows "filter (\<lambda>p. of_nat (length L) < pub_offset p) (drop k L) = []"
proof -
  have "\<not> of_nat (length L) < pub_offset p" if "p \<in> set (drop k L)" for p
  proof -
    from that have "p \<in> set L" by (meson in_set_dropD)
    then obtain i where i: "i < length L" "p = L ! i" by (auto simp: in_set_conv_nth)
    with assms(1) have "pub_offset p = of_nat (i + 1)" by (simp add: numbered_def)
    moreover have "i + 1 < 2 ^ 64" "length L < 2 ^ 64"
      using i assms(1) by (auto simp: numbered_def)
    ultimately show ?thesis
      using i by (simp add: word_less_nat_alt unat_of_nat take_bit_nat_eq_self del: of_nat_Suc of_nat_add)
  qed
  then show ?thesis by (simp add: filter_empty_conv)
qed

interpretation mem: stream_store stream_holds stream_kept stream_since
proof unfold_locales
  fix L ep s n e
  assume h: "stream_holds L ep s"
  show "numbered L" "stream_kept s \<le> length L"
    using h by (simp_all add: stream_holds_def stream_kept_def)
  show "snd (stream_since s n e) = \<lparr>sp_offset = of_nat (length L), sp_epoch = ep\<rparr>"
    using h by (auto simp: stream_since_def stream_holds_def stream_pos_def Let_def)
  have pubs: "sm_pubs s = drop (length L - stream_kept s) L"
    using h by (simp add: stream_holds_def stream_kept_def)
  show "fst (stream_since s n e) =
      filter (\<lambda>p. n < pub_offset p) (drop (length L - stream_kept s) L)"
  proof (cases "sm_offset s = n \<and> sm_epoch s = e")
    case True
    then have "n = of_nat (length L)" using h by (simp add: stream_holds_def)
    then show ?thesis
      using True h numbered_suffix_empty [of L "length L - stream_kept s"]
      by (simp add: stream_since_def stream_pos_def stream_holds_def)
  next
    case False
    then show ?thesis unfolding pubs [symmetric] by (auto simp: stream_since_def stream_pos_def)
  qed
qed

lemma trim_front_drop: "trim_front n ps = drop (length ps - n) ps"
  by (induction n ps rule: trim_front.induct) (auto simp: Suc_diff_le)

lemma numbered_append:
  "numbered L \<Longrightarrow> length L + 1 < 2 ^ 64 \<Longrightarrow> pub_offset p = of_nat (length L + 1) \<Longrightarrow>
   numbered (L @ [p])"
  by (auto simp: numbered_def nth_append less_Suc_eq)

lemma stream_new_holds: "stream_holds [] (sm_epoch (stream_new w ch)) (stream_new w ch)"
  by (simp add: stream_holds_def stream_new_def numbered_def)

lemma stream_clear_holds:
  "stream_holds L ep s \<Longrightarrow> stream_holds L ep (s\<lparr>sm_pubs := [], sm_expire_at := t\<rparr>)"
  by (simp add: stream_holds_def)

lemma stream_append_holds:
  assumes "stream_holds L ep s" "length L + 1 < 2 ^ 64" "pub_offset p = of_nat (length L + 1)"
  shows "stream_holds (L @ [p]) ep
    (s\<lparr>sm_offset := sm_offset s + 1, sm_pubs := trim_front n (sm_pubs s @ [p]),
       sm_expire_at := t, sm_meta_expire_at := m\<rparr>)"
proof -
  let ?k = "length (sm_pubs s)"
  have s: "?k \<le> length L" "sm_pubs s = drop (length L - ?k) L"
    using assms(1) by (simp_all add: stream_holds_def)
  then have eq: "sm_pubs s @ [p] = drop (length L - ?k) (L @ [p])" by simp
  have "trim_front n (sm_pubs s @ [p]) = drop (?k + 1 - n) (sm_pubs s @ [p])"
    by (simp add: trim_front_drop)
  also have "\<dots> = drop ((?k + 1 - n) + (length L - ?k)) (L @ [p])"
    by (simp only: eq drop_drop)
  finally have "trim_front n (sm_pubs s @ [p]) = drop ((?k + 1 - n) + (length L - ?k)) (L @ [p])" .
  moreover have "length (trim_front n (sm_pubs s @ [p])) = min n (?k + 1)"
    unfolding trim_front_drop length_drop length_append by auto
  moreover have "length L + 1 - min n (?k + 1) = (?k + 1 - n) + (length L - ?k)"
    using s(1) by auto
  ultimately show ?thesis
    using assms numbered_append [of L p] s(1)
    by (simp add: stream_holds_def add.commute min_def)
qed

text \<open>
  \<open>mem_holds G e\<close>: every stream of the engine stands for the log \<open>G\<close> gives its channel.
\<close>

definition mem_holds :: "(string \<Rightarrow> publication list) \<Rightarrow> memory_engine \<Rightarrow> bool" where
  "mem_holds G e \<longleftrightarrow>
     (\<forall>ch s. hm_get (me_history e) ch = Some s \<longrightarrow> stream_holds (G ch) (sm_epoch s) s)"

text \<open>The log a channel continues with: empty when its stream is missing or dropped by its TTL.\<close>

definition live_log :: "world \<Rightarrow> (string \<Rightarrow> publication list) \<Rightarrow> memory_engine \<Rightarrow> string \<Rightarrow> publication list"
  where
  "live_log w G e ch =
     (if hm_contains (evict_if_expired w ch (me_history e)) ch then G ch else [])"

lemma mem_holds_new: "mem_holds G memory_engine_new"
  by (simp add: mem_holds_def memory_engine_new_def)

lemma live_log_new: "live_log w G memory_engine_new ch = []"
  by (simp add: live_log_def memory_engine_new_def evict_if_expired_def hm_contains_def)

lemma evict_other: "j \<noteq> ch \<Longrightarrow> hm_get (evict_if_expired w ch hist) j = hm_get hist j"
  by (simp add: evict_if_expired_def split: option.splits)

lemma evict_entry_holds:
  assumes "mem_holds G e"
  shows "stream_holds (live_log w G e ch)
    (sm_epoch (stream_entry w ch (evict_if_expired w ch (me_history e))))
    (stream_entry w ch (evict_if_expired w ch (me_history e)))"
proof (cases "hm_get (me_history e) ch")
  case None
  then show ?thesis
    by (simp add: live_log_def stream_entry_def evict_if_expired_def hm_contains_def stream_new_holds)
next
  case (Some s)
  with assms have "stream_holds (G ch) (sm_epoch s) s" by (simp add: mem_holds_def)
  with Some show ?thesis
    by (simp add: live_log_def stream_entry_def evict_if_expired_def hm_contains_def
        stream_new_holds stream_clear_holds)
qed

lemma mem_holds_insert:
  assumes "mem_holds G e" "stream_holds L (sm_epoch s) s"
  shows "mem_holds (G(ch := L))
    (e\<lparr>me_history := hm_insert ch s (evict_if_expired w ch (me_history e))\<rparr>)"
  using assms by (auto simp: mem_holds_def evict_other)

lemma mem_publish_holds:
  assumes "mem_holds G e" "po_history_enabled opts" "length (live_log w G e ch) + 1 < 2 ^ 64"
    and "mem_publish w ch data info opts e = (r, ms, e')"
  defines "p \<equiv> history_publication data info (of_nat (length (live_log w G e ch) + 1))"
  shows "mem_holds (G(ch := live_log w G e ch @ [p])) e' \<and> ms = [NmPublication ch p] \<and> r = Some ()"
proof -
  let ?s = "stream_entry w ch (evict_if_expired w ch (me_history e))"
  have h: "stream_holds (live_log w G e ch) (sm_epoch ?s) ?s" using assms(1) by (rule evict_entry_holds)
  then have off: "sm_offset ?s + 1 = of_nat (length (live_log w G e ch) + 1)"
    by (simp add: stream_holds_def add.commute)
  have "pub_offset p = of_nat (length (live_log w G e ch) + 1)"
    by (simp add: p_def history_publication_def)
  from stream_append_holds [OF h assms(3) this] mem_holds_insert [OF assms(1)] assms(2,4) off
  show ?thesis
    by (auto simp: mem_publish_def add_to_history_def Let_def p_def)
qed

lemma mem_history_holds:
  assumes "mem_holds G e" "mem_history w ch e = (r, ms, e')"
  shows "mem_holds (G(ch := live_log w G e ch)) e'"
  using assms mem_holds_insert [OF assms(1) evict_entry_holds [OF assms(1)]]
  by (auto simp: mem_history_def Let_def)

lemma mem_history_since_holds:
  assumes "mem_holds G e" "mem_history_since w ch n ep e = (r, ms, e')"
  shows "mem_holds (G(ch := live_log w G e ch)) e'"
  using assms mem_holds_insert [OF assms(1) evict_entry_holds [OF assms(1)]]
  by (auto simp: mem_history_since_def Let_def)

lemma mem_remove_history_holds:
  "mem_holds G e \<Longrightarrow> mem_holds G (snd (snd (mem_remove_history w ch e)))"
  by (auto simp: mem_holds_def mem_remove_history_def split: if_splits)

lemma mem_history_since_recovered:
  assumes "mem_holds G e" "mem_history_since w ch n ep e = (Some (pubs, pos), ms, e')"
    and "is_recovered pubs pos n ep"
  shows "pubs = drop (unat n) (live_log w G e ch) \<and> unat n \<le> length (live_log w G e ch) \<and>
    sp_epoch pos = ep \<and> sp_offset pos = of_nat (length (live_log w G e ch))"
proof -
  let ?s = "stream_entry w ch (evict_if_expired w ch (me_history e))"
  have h: "stream_holds (live_log w G e ch) (sm_epoch ?s) ?s" using assms(1) by (rule evict_entry_holds)
  have eq: "stream_since ?s n ep = (pubs, pos)"
    using assms(2) by (simp add: mem_history_since_def Let_def)
  from mem.recovered_complete [OF h, of n ep] mem.since_top [OF h, of n ep] assms(3) eq
  show ?thesis by simp
qed

section \<open>The presence contract\<close>

text \<open>
  What a presence store promises: per channel a map from client id to its info, changed by the two
  operations exactly as a map is, and counted by its entries and its distinct users.
\<close>

locale presence_store =
  fixes inv :: "'s \<Rightarrow> bool"
    and members :: "'s \<Rightarrow> string \<Rightarrow> string \<Rightarrow> client_info option"
    and add :: "string \<Rightarrow> string \<Rightarrow> client_info \<Rightarrow> 's \<Rightarrow> 's"
    and remove :: "string \<Rightarrow> string \<Rightarrow> 's \<Rightarrow> 's"
    and count :: "'s \<Rightarrow> string \<Rightarrow> u32 \<times> u32"
  assumes add_inv: "inv s \<Longrightarrow> inv (add ch i info s)"
    and remove_inv: "inv s \<Longrightarrow> inv (remove ch i s)"
    and members_add: "inv s \<Longrightarrow> members (add ch i info s) = (members s)(ch := (members s ch)(i \<mapsto> info))"
    and members_remove: "inv s \<Longrightarrow> members (remove ch i s) = (members s)(ch := (members s ch)(i := None))"
    and count_members: "inv s \<Longrightarrow>
      count s ch = (of_nat (card (dom (members s ch))), of_nat (card (ci_user ` ran (members s ch))))"
begin

lemma remove_add:
  "inv s \<Longrightarrow> members s ch i = None \<Longrightarrow> members (remove ch i (add ch i info s)) = members s"
  by (auto simp: members_remove members_add add_inv fun_eq_iff)

lemma remove_gone: "inv s \<Longrightarrow> members (remove ch i s) ch i = None"
  by (simp add: members_remove)

lemma fold_remove_gone:
  "inv s \<Longrightarrow>
   members (foldl (\<lambda>s ch. remove ch i s) s chs) = (\<lambda>c j. if c \<in> set chs \<and> j = i then None else members s c j)"
  by (induction chs arbitrary: s) (auto simp: remove_inv members_remove fun_eq_iff)

lemma count_add_new:
  assumes "inv s" "members s ch i = None" "finite (dom (members s ch))"
  shows "fst (count (add ch i info s) ch) = fst (count s ch) + 1"
  using assms by (simp add: count_members add_inv members_add domIff add.commute)

end

definition presence_wf :: "presence_map \<Rightarrow> bool" where
  "presence_wf p \<longleftrightarrow>
     hm_wf p \<and> (\<forall>ch m. hm_get p ch = Some m \<longrightarrow> hm_wf m \<and> m \<noteq> [])"

definition presence_members :: "presence_map \<Rightarrow> string \<Rightarrow> string \<Rightarrow> client_info option" where
  "presence_members p ch = hm_get (hm_get_or [] p ch)"

lemma update_not_Nil [simp]: "AList.update k v m \<noteq> []"
  by (induction m) auto

lemma presence_users:
  assumes "hm_wf m"
  shows "length (remdups (map (\<lambda>(k, ci). ci_user ci) m)) = card (ci_user ` ran (hm_get m))"
proof -
  have "ran (hm_get m) = snd ` set m" using assms by (simp add: hm_wf_def ran_distinct)
  then have "ci_user ` ran (hm_get m) = set (map (\<lambda>(k, ci). ci_user ci) m)"
    by (auto simp: image_iff split_def)
  then show ?thesis by (metis length_remdups_card_conv)
qed

interpretation mem_presence: presence_store presence_wf presence_members presence_insert
  presence_delete presence_count
proof unfold_locales
  fix p ch i info
  assume wf: "presence_wf p"
  then have inner: "hm_wf (hm_get_or [] p ch)"
    by (auto simp: presence_wf_def hm_get_or_def split: option.splits)
  show "presence_wf (presence_insert ch i info p)"
    using wf inner by (auto simp: presence_wf_def presence_insert_def split: if_splits)
  show "presence_wf (presence_delete ch i p)"
    using wf by (auto simp: presence_wf_def presence_delete_def Let_def split: option.splits if_splits)
  show "presence_members (presence_insert ch i info p) =
      (presence_members p)(ch := (presence_members p ch)(i \<mapsto> info))"
    by (auto simp: presence_members_def presence_insert_def hm_get_or_def fun_eq_iff)
  show "presence_members (presence_delete ch i p) =
      (presence_members p)(ch := (presence_members p ch)(i := None))"
  proof (cases "hm_get p ch")
    case None
    then show ?thesis
      by (auto simp: presence_members_def presence_delete_def hm_get_or_def fun_eq_iff)
  next
    case (Some m)
    have r: "hm_get (hm_remove i m) = (hm_get m)(i := None)" by (rule hm_get_remove)
    have "hm_remove i m = [] \<Longrightarrow> x \<noteq> i \<Longrightarrow> hm_get m x = None" for x
      using map_of_delete [of x i m] by simp
    then have "presence_members (presence_delete ch i p) =
        (presence_members p)(ch := hm_get (hm_remove i m))"
      using Some
      by (auto simp: presence_members_def presence_delete_def hm_get_or_def fun_eq_iff Let_def)
    moreover have "presence_members p ch = hm_get m"
      using Some by (simp add: presence_members_def hm_get_or_def)
    ultimately show ?thesis by (simp only: r)
  qed
  show "presence_count p ch =
      (of_nat (card (dom (presence_members p ch))), of_nat (card (ci_user ` ran (presence_members p ch))))"
  proof (cases "hm_get p ch")
    case (Some m)
    with wf have "hm_wf m" by (simp add: presence_wf_def)
    from presence_users [OF this] hm_length_card [OF this] Some show ?thesis
      by (simp add: presence_members_def presence_count_def hm_get_or_def)
  qed (simp add: presence_members_def presence_count_def hm_get_or_def)
qed

end
