(* ===== verification/Metrics.thy ===== *)
theory Metrics
  imports Engine
begin

text \<open>
  The metric counters (\<open>crates/centrifugo-core/src/metrics.rs\<close>): three arrays of atomic counters,
  their increments, which ignore an index out of range, and the snapshot the info API reports.
\<close>

definition method_names :: "string list" where
  "method_names =
     [''connect'', ''subscribe'', ''unsubscribe'', ''publish'', ''presence'', ''presence_stats'',
      ''history'', ''ping'', ''send'', ''rpc'', ''refresh'', ''sub_refresh'']"

definition message_kinds :: "string list" where
  "message_kinds = [''publication'', ''join'', ''leave'']"

definition transports :: "string list" where
  "transports = [''websocket'', ''sockjs'']"

definition metrics_interval :: f64 where "metrics_interval = Finite 60 0"

record metrics =
  mx_messages_sent :: "u64 list"
  mx_commands :: "u64 list"
  mx_connects :: "u64 list"

definition metrics_new :: metrics where
  "metrics_new =
     \<lparr>mx_messages_sent = replicate 3 0, mx_commands = replicate 12 0, mx_connects = replicate 2 0\<rparr>"

definition fetch_add :: "nat \<Rightarrow> u64 list \<Rightarrow> u64 list" where
  "fetch_add i cs = (if i < length cs then cs[i := cs ! i + 1] else cs)"

definition inc_message_sent :: "nat \<Rightarrow> metrics \<Rightarrow> metrics" where
  "inc_message_sent kind m = m\<lparr>mx_messages_sent := fetch_add kind (mx_messages_sent m)\<rparr>"

definition inc_command :: "nat \<Rightarrow> metrics \<Rightarrow> metrics" where
  "inc_command k m = m\<lparr>mx_commands := fetch_add k (mx_commands m)\<rparr>"

definition inc_connect :: "string \<Rightarrow> metrics \<Rightarrow> metrics" where
  "inc_connect transport m =
     (let i = (if transport = ''sockjs'' then 1 else 0) in
      m\<lparr>mx_connects := fetch_add i (mx_connects m)\<rparr>)"

text \<open>One loop of the snapshot: every name whose counter is not zero.\<close>

definition metric_items :: "string \<Rightarrow> string list \<Rightarrow> u64 list \<Rightarrow> (string, f64) hmap \<Rightarrow> (string, f64) hmap"
  where
  "metric_items prefix names cs items =
     foldl (\<lambda>m (name, v). if v > 0 then hm_insert (prefix @ name) (f64_of_nat (unat v)) m else m)
       items (zip names cs)"

definition metrics_snapshot :: "metrics \<Rightarrow> node_metrics" where
  "metrics_snapshot m =
     (let items = metric_items ''command_count.'' method_names (mx_commands m) [];
          items = metric_items ''messages_sent_count.'' message_kinds (mx_messages_sent m) items;
          items = metric_items ''connect_count.'' transports (mx_connects m) items
      in \<lparr>mt_interval = metrics_interval, mt_items = items\<rparr>)"

definition metrics_wf :: "metrics \<Rightarrow> bool" where
  "metrics_wf m \<longleftrightarrow>
     length (mx_messages_sent m) = 3 \<and> length (mx_commands m) = 12 \<and> length (mx_connects m) = 2"

lemma fetch_add_length [simp]: "length (fetch_add i cs) = length cs"
  by (simp add: fetch_add_def)

lemma fetch_add_nth: "j < length cs \<Longrightarrow> fetch_add i cs ! j = (if j = i then cs ! j + 1 else cs ! j)"
  by (simp add: fetch_add_def)

lemma metrics_wf_new: "metrics_wf metrics_new"
  by (simp add: metrics_wf_def metrics_new_def)

lemma metrics_wf_inc [wf_intros]:
  "metrics_wf m \<Longrightarrow> metrics_wf (inc_message_sent k m)"
  "metrics_wf m \<Longrightarrow> metrics_wf (inc_command k m)"
  "metrics_wf m \<Longrightarrow> metrics_wf (inc_connect t m)"
  by (simp_all add: metrics_wf_def inc_message_sent_def inc_command_def inc_connect_def)

section \<open>Properties\<close>

text \<open>
  The counter of a command is named by the method's own wire name: for every known method the
  name at its discriminant parses back to the method, and processing a command of that method
  raises exactly that counter, while an unknown method changes no counter.
\<close>

theorem command_counter_named:
  "(m \<noteq> UnknownMethod \<longrightarrow>
      method_from_name (method_names ! method_u8 m) = Some m \<and> method_u8 m < length method_names) \<and>
   (length cs = 12 \<longrightarrow> j < 12 \<longrightarrow>
      mx_commands (inc_command (method_u8 m)
        \<lparr>mx_messages_sent = ms, mx_commands = cs, mx_connects = xs\<rparr>) ! j =
      (if j = method_u8 m \<and> m \<noteq> UnknownMethod then cs ! j + 1 else cs ! j))"
proof
  show "m \<noteq> UnknownMethod \<longrightarrow>
      method_from_name (method_names ! method_u8 m) = Some m \<and> method_u8 m < length method_names"
    by (cases m; hypsubst; code_simp)
  show "length cs = 12 \<longrightarrow> j < 12 \<longrightarrow>
      mx_commands (inc_command (method_u8 m)
        \<lparr>mx_messages_sent = ms, mx_commands = cs, mx_connects = xs\<rparr>) ! j =
      (if j = method_u8 m \<and> m \<noteq> UnknownMethod then cs ! j + 1 else cs ! j)"
    by (cases m) (simp_all add: inc_command_def fetch_add_def)
qed

theorem command_counter_named_witness:
  "method_from_name (method_names ! method_u8 SubRefresh) = Some SubRefresh"
  using command_counter_named [of SubRefresh "replicate 12 0" 0 "[]" "[]"] by simp

end
