(* ===== verification/Proxy.thy ===== *)
theory Proxy
  imports Engine
begin

text \<open>
  The proxy interfaces of the core (\<open>crates/centrifugo-core/src/proxy.rs\<close>): what is sent to an
  external endpoint for each proxied event and what it may decide. The endpoints are outside the
  program: a configured proxy is any function of the world and the request, \<open>None\<close> standing for
  a transport failure.
\<close>

record proxy_connect_request =
  pcq_client :: string
  pcq_transport :: string
  pcq_protocol :: string
  pcq_data :: "bytes option"

record proxy_connect_reply =
  pcr_user :: string
  pcr_info :: "bytes option"
  pcr_data :: "bytes option"
  pcr_expire_at :: int
  pcr_channels :: "string list"

datatype proxy_connect_outcome =
  PcCredentials proxy_connect_reply
| PcError u32 string
| PcDisconnect u32 string
| PcNoCredentials

record proxy_request =
  pxq_client :: string
  pxq_user :: string
  pxq_transport :: string
  pxq_protocol :: string
  pxq_channel :: string
  pxq_method :: string
  pxq_data :: "bytes option"
  pxq_token :: string

datatype 'a proxy_outcome =
  PxResult 'a
| PxError u32 string
| PxDisconnect u32 string

record refresh_creds =
  rc_expired :: bool
  rc_expire_at :: int
  rc_info :: "bytes option"

record subscribe_creds =
  sbc_info :: "bytes option"

record publish_data =
  pd_data :: "bytes option"

record rpc_data =
  rd_data :: "bytes option"

record proxies =
  px_connect :: "(world \<Rightarrow> proxy_connect_request \<Rightarrow> proxy_connect_outcome option) option"
  px_refresh :: "(world \<Rightarrow> proxy_request \<Rightarrow> refresh_creds proxy_outcome option) option"
  px_subscribe :: "(world \<Rightarrow> proxy_request \<Rightarrow> subscribe_creds proxy_outcome option) option"
  px_publish :: "(world \<Rightarrow> proxy_request \<Rightarrow> publish_data proxy_outcome option) option"
  px_rpc :: "(world \<Rightarrow> proxy_request \<Rightarrow> rpc_data proxy_outcome option) option"

definition proxies_default :: proxies where
  "proxies_default =
     \<lparr>px_connect = None, px_refresh = None, px_subscribe = None, px_publish = None, px_rpc = None\<rparr>"

end
