(* ===== verification/Node.thy ===== *)
theory Node
  imports Hub Memory Metrics Proxy
begin

text \<open>
  The node (\<open>crates/centrifugo-core/src/node.rs\<close>): channel options and namespaces, the registry
  of cluster nodes, the limits, and the node itself, which ties the hub and an engine together and
  fans messages out to the local subscribers. The node is polymorphic in the state of its engine;
  \<open>call_engine\<close> calls a method of the engine and routes the messages it hands back. The field
  \<open>nd_log\<close> is the history of everything put in a queue, which the code keeps in the queues.
\<close>

section \<open>Channel options and namespaces\<close>

record channel_options =
  co_presence :: bool
  co_join_leave :: bool
  co_presence_disable_for_client :: bool
  co_history_size :: nat
  co_history_lifetime :: u64
  co_history_recover :: bool
  co_history_disable_for_client :: bool
  co_anonymous :: bool
  co_server_side :: bool
  co_proxy_subscribe :: bool
  co_proxy_publish :: bool
  co_publish :: bool
  co_subscribe_to_publish :: bool

definition channel_options_default :: channel_options where
  "channel_options_default =
     \<lparr>co_presence = False, co_join_leave = False, co_presence_disable_for_client = False,
      co_history_size = 0, co_history_lifetime = 0, co_history_recover = False,
      co_history_disable_for_client = False, co_anonymous = False, co_server_side = False,
      co_proxy_subscribe = False, co_proxy_publish = False, co_publish = False,
      co_subscribe_to_publish = False\<rparr>"

definition co_history_enabled :: "channel_options \<Rightarrow> bool" where
  "co_history_enabled o1 \<longleftrightarrow> co_history_size o1 > 0 \<and> co_history_lifetime o1 > 0"

definition co_publish_options :: "channel_options \<Rightarrow> publish_options" where
  "co_publish_options o1 =
     (if co_history_enabled o1
      then \<lparr>po_history_size = co_history_size o1, po_history_lifetime = co_history_lifetime o1\<rparr>
      else publish_options_default)"

record namespaces =
  ns_default :: channel_options
  ns_namespaces :: "(string, channel_options) hmap"
  ns_boundary :: string
  ns_private_prefix :: string
  ns_user_subscribe_to_personal :: bool
  ns_user_personal_channel_namespace :: string

definition namespaces_default :: namespaces where
  "namespaces_default =
     \<lparr>ns_default = channel_options_default, ns_namespaces = [], ns_boundary = '':'',
      ns_private_prefix = ''$'', ns_user_subscribe_to_personal = False,
      ns_user_personal_channel_namespace = ''''\<rparr>"

definition ns_channel_options :: "namespaces \<Rightarrow> string \<Rightarrow> channel_options option" where
  "ns_channel_options ns channel =
     (let trimmed =
            (case strip_prefix (ns_private_prefix ns) channel of None \<Rightarrow> channel | Some r \<Rightarrow> r) in
      if ns_boundary ns \<noteq> [] then
        (case split_once (ns_boundary ns) trimmed of
           Some (name, _) \<Rightarrow> hm_get (ns_namespaces ns) name
         | None \<Rightarrow> Some (ns_default ns))
      else Some (ns_default ns))"

definition ns_is_private :: "namespaces \<Rightarrow> string \<Rightarrow> bool" where
  "ns_is_private ns channel = starts_with (ns_private_prefix ns) channel"

definition ns_personal_channel :: "namespaces \<Rightarrow> string \<Rightarrow> string option" where
  "ns_personal_channel ns user =
     (if \<not> ns_user_subscribe_to_personal ns \<or> user = [] then None
      else if ns_user_personal_channel_namespace ns = [] then Some (''#'' @ user)
      else Some (ns_user_personal_channel_namespace ns @ ns_boundary ns @ ''#'' @ user))"

section \<open>Node registry and limits\<close>

record node_registry =
  rg_self_uid :: string
  rg_nodes :: "(string, node_info \<times> int) hmap"

definition registry_new :: "string \<Rightarrow> node_registry" where
  "registry_new self_uid = \<lparr>rg_self_uid = self_uid, rg_nodes = []\<rparr>"

definition registry_add :: "world \<Rightarrow> node_info \<Rightarrow> node_registry \<Rightarrow> node_registry" where
  "registry_add w info r = r\<lparr>rg_nodes := hm_insert (ni_uid info) (info, wd_now_ms w) (rg_nodes r)\<rparr>"

definition registry_list :: "node_registry \<Rightarrow> node_info list" where
  "registry_list r = map (\<lambda>(uid, info, seen). info) (rg_nodes r)"

definition registry_clean :: "world \<Rightarrow> int \<Rightarrow> node_registry \<Rightarrow> node_registry" where
  "registry_clean w max_age_ms r =
     r\<lparr>rg_nodes :=
         hm_retain
           (\<lambda>uid (info, seen).
              if uid = rg_self_uid r \<or> i64_sub (wd_now_ms w) seen \<le> max_age_ms
              then Some (info, seen) else None)
           (rg_nodes r)\<rparr>"

record limits =
  lm_channel_max_length :: nat
  lm_client_channel_limit :: nat
  lm_user_connection_limit :: nat

definition limits_default :: limits where
  "limits_default =
     \<lparr>lm_channel_max_length = 255, lm_client_channel_limit = 128, lm_user_connection_limit = 0\<rparr>"

section \<open>The node\<close>

record 'e node =
  nd_id :: string
  nd_name :: string
  nd_version :: string
  nd_started_unix :: int
  nd_registry :: node_registry
  nd_metrics :: metrics
  nd_hub :: hub
  nd_engine_ops :: "'e engine_ops"
  nd_engine :: 'e
  nd_verifier :: token_verifier
  nd_client_insecure :: bool
  nd_client_anonymous :: bool
  nd_namespaces :: namespaces
  nd_proxies :: proxies
  nd_presence_ping_secs :: u64
  nd_presence_expire_ms :: u64
  nd_use_seq_gen :: bool
  nd_limits :: limits
  nd_log :: "effect list"

definition default_use_seq_gen :: bool where "default_use_seq_gen = True"

definition node_new_with_engine ::
    "world \<Rightarrow> hub \<Rightarrow> 'e engine_ops \<Rightarrow> 'e \<Rightarrow> token_verifier \<Rightarrow> bool \<Rightarrow> bool \<Rightarrow> namespaces \<Rightarrow> proxies
       \<Rightarrow> u64 \<Rightarrow> u64 \<Rightarrow> node_registry \<Rightarrow> string \<Rightarrow> string \<Rightarrow> limits \<Rightarrow> 'e node" where
  "node_new_with_engine w hub ops eng verifier insecure anonymous ns px ping_secs expire_secs reg
       version name lim =
     (let i = rg_self_uid reg;
          reg' = registry_add w
                   \<lparr>ni_uid = i, ni_name = name, ni_version = version, ni_num_clients = 0,
                    ni_num_users = 0, ni_num_channels = 0, ni_uptime = 0, ni_metrics = None\<rparr> reg
      in \<lparr>nd_id = i, nd_name = name, nd_version = version, nd_started_unix = wd_now w,
          nd_registry = reg', nd_metrics = metrics_new, nd_hub = hub, nd_engine_ops = ops,
          nd_engine = eng, nd_verifier = verifier, nd_client_insecure = insecure,
          nd_client_anonymous = anonymous, nd_namespaces = ns, nd_proxies = px,
          nd_presence_ping_secs = ping_secs, nd_presence_expire_ms = expire_secs * 1000,
          nd_use_seq_gen = default_use_seq_gen, nd_limits = lim, nd_log = []\<rparr>)"

definition token_verifier_default :: token_verifier where
  "token_verifier_default = \<lparr>tv_hmac = None, tv_rsa = None, tv_ecdsa = None, tv_jwks = []\<rparr>"

definition node_new_with ::
    "world \<Rightarrow> token_verifier \<Rightarrow> bool \<Rightarrow> namespaces \<Rightarrow> memory_engine node" where
  "node_new_with w verifier insecure ns =
     node_new_with_engine w hub_new memory_ops memory_engine_new verifier insecure False ns
       proxies_default 25 60 (registry_new (wd_uuid_string w)) ''2.8.6'' ''node'' limits_default"

definition node_new :: "world \<Rightarrow> memory_engine node" where
  "node_new w = node_new_with w token_verifier_default True namespaces_default"

definition node_uptime :: "world \<Rightarrow> 'e node \<Rightarrow> u32" where
  "node_uptime w n = i64_as_u32 (max 0 (i64_sub (wd_now w) (nd_started_unix n)))"

text \<open>\<open>nodes.iter_mut().find(p)\<close> and an update of the element found.\<close>

fun update_first :: "('a \<Rightarrow> bool) \<Rightarrow> ('a \<Rightarrow> 'a) \<Rightarrow> 'a list \<Rightarrow> 'a list" where
  "update_first P f [] = []"
| "update_first P f (x # xs) = (if P x then f x # xs else x # update_first P f xs)"

definition info_nodes :: "world \<Rightarrow> 'e node \<Rightarrow> node_info list" where
  "info_nodes w n =
     update_first (\<lambda>i. ni_uid i = nd_id n)
       (\<lambda>me. me\<lparr>ni_num_clients := of_nat (num_clients (nd_hub n)),
               ni_num_users := of_nat (num_users (nd_hub n)),
               ni_num_channels := of_nat (num_channels (nd_hub n)),
               ni_uptime := node_uptime w n,
               ni_metrics := Some (metrics_snapshot (nd_metrics n))\<rparr>)
       (registry_list (nd_registry n))"

definition self_node_info :: "world \<Rightarrow> 'e node \<Rightarrow> node_info" where
  "self_node_info w n =
     \<lparr>ni_uid = nd_id n, ni_name = nd_name n, ni_version = nd_version n,
      ni_num_clients = of_nat (num_clients (nd_hub n)),
      ni_num_users = of_nat (num_users (nd_hub n)),
      ni_num_channels = of_nat (num_channels (nd_hub n)), ni_uptime = node_uptime w n,
      ni_metrics = Some (metrics_snapshot (nd_metrics n))\<rparr>"

definition node_channel_options :: "'e node \<Rightarrow> string \<Rightarrow> channel_options option" where
  "node_channel_options n channel = ns_channel_options (nd_namespaces n) channel"

definition node_is_private :: "'e node \<Rightarrow> string \<Rightarrow> bool" where
  "node_is_private n channel = ns_is_private (nd_namespaces n) channel"

definition node_personal_channel :: "'e node \<Rightarrow> string \<Rightarrow> string option" where
  "node_personal_channel n user = ns_personal_channel (nd_namespaces n) user"

section \<open>Fan-out\<close>

definition unpack_offset :: "u64 \<Rightarrow> u32 \<times> u32" where
  "unpack_offset v = (ucast v, ucast (drop_bit 32 v))"

definition make_push_frame ::
    "world \<Rightarrow> 'd wire_type \<Rightarrow> protocol_type \<Rightarrow> string \<Rightarrow> push_type \<Rightarrow> 'd \<Rightarrow> bytes option" where
  "make_push_frame w T proto channel ptype inner =
     (case encode_result T proto inner of
        Inl _ \<Rightarrow> None
      | Inr data \<Rightarrow>
          (case encode_push_frame (wd_wire w) proto (push_new ptype channel (Some data)) of
             Inl _ \<Rightarrow> None
           | Inr frame \<Rightarrow> Some frame))"

text \<open>One iteration of the fan-out loop: the frame of the subscriber's protocol is offered to its queue.\<close>

definition deliver_one ::
    "world \<Rightarrow> bytes option \<Rightarrow> bytes option \<Rightarrow> client_handle \<Rightarrow> hub \<times> effect list
       \<Rightarrow> hub \<times> effect list" where
  "deliver_one w json_frame pb_frame handle st =
     (let (h, lg) = st in
      case (case ch_proto handle of Json \<Rightarrow> json_frame | Protobuf \<Rightarrow> pb_frame) of
        None \<Rightarrow> (h, lg)
      | Some bytes \<Rightarrow>
          (case wd_tx w lg (ch_tx handle) of
             SendOk \<Rightarrow> (h, lg @ [Tx (ch_tx handle) (Frame bytes)])
           | _ \<Rightarrow>
               (let (present, h') = hub_remove (ch_id handle) h in
                if present then (h', lg @ [SpawnClose (ch_tx handle) dc_slow]) else (h', lg))))"

definition deliver_push ::
    "world \<Rightarrow> 'd wire_type \<Rightarrow> string \<Rightarrow> push_type \<Rightarrow> 'd \<Rightarrow> hub \<times> effect list \<Rightarrow> hub \<times> effect list"
  where
  "deliver_push w T channel ptype inner st =
     (let json_frame = make_push_frame w T Json channel ptype inner;
          pb_frame = make_push_frame w T Protobuf channel ptype inner
      in fold (deliver_one w json_frame pb_frame) (subscribers w (fst st) channel) st)"

text \<open>\<open>ctrl.try_send(signal)\<close> for a connection that has a control queue.\<close>

definition signal_one :: "world \<Rightarrow> signal \<Rightarrow> client_handle \<Rightarrow> effect list \<Rightarrow> effect list" where
  "signal_one w sig handle lg =
     (case ch_ctrl handle of
        None \<Rightarrow> lg
      | Some q \<Rightarrow>
          (case wd_ctrl w lg q of SendOk \<Rightarrow> lg @ [Ctrl q sig] | _ \<Rightarrow> lg))"

definition apply_control :: "world \<Rightarrow> control_message \<Rightarrow> 'e node \<Rightarrow> 'e node" where
  "apply_control w cmd n =
     (case cmd of
        CmNode info \<Rightarrow> n\<lparr>nd_registry := registry_add w info (nd_registry n)\<rparr>
      | CmUnsubscribe user channel \<Rightarrow>
          n\<lparr>nd_log :=
              fold (signal_one w (SigUnsubscribe channel)) (user_clients (nd_hub n) user) (nd_log n)\<rparr>
      | CmDisconnect user code reason reconnect whitelist \<Rightarrow>
          n\<lparr>nd_log :=
              fold (\<lambda>h lg. if ch_id h \<in> set whitelist then lg
                           else signal_one w (SigDisconnect (disconnect_new code reason reconnect)) h lg)
                (user_clients (nd_hub n) user) (nd_log n)\<rparr>)"

definition deliver_node ::
    "world \<Rightarrow> 'd wire_type \<Rightarrow> string \<Rightarrow> push_type \<Rightarrow> 'd \<Rightarrow> 'e node \<Rightarrow> 'e node" where
  "deliver_node w T channel ptype inner n =
     (let (h, lg) = deliver_push w T channel ptype inner (nd_hub n, nd_log n)
      in n\<lparr>nd_hub := h, nd_log := lg\<rparr>)"

definition route_publication :: "bool \<Rightarrow> publication \<Rightarrow> publication" where
  "route_publication use_seq_gen p =
     (if use_seq_gen \<and> pub_offset p \<noteq> 0 then
        (let (sq, gn) = unpack_offset (pub_offset p)
         in p\<lparr>pub_seq := sq, pub_gen := gn, pub_offset := 0\<rparr>)
      else p)"

definition route_message :: "world \<Rightarrow> node_message \<Rightarrow> 'e node \<Rightarrow> 'e node" where
  "route_message w msg n =
     (case msg of
        NmPublication channel p \<Rightarrow>
          deliver_node w (wire_publication (wd_wire w)) channel PtPublication
            (route_publication (nd_use_seq_gen n) p) n
      | NmJoin channel info \<Rightarrow>
          deliver_node w (wire_join_msg (wd_wire w)) channel PtJoin \<lparr>jm_info = info\<rparr> n
      | NmLeave channel info \<Rightarrow>
          deliver_node w (wire_leave_msg (wd_wire w)) channel PtLeave \<lparr>lm_info = info\<rparr> n
      | NmControl cmd \<Rightarrow> apply_control w cmd n)"

definition call_engine :: "world \<Rightarrow> ('e, 'a) engine_call \<Rightarrow> 'e node \<Rightarrow> 'a option \<times> 'e node" where
  "call_engine w f n =
     (let (r, msgs, e) = f (nd_engine n)
      in (r, fold (route_message w) msgs (n\<lparr>nd_engine := e\<rparr>)))"

section \<open>Engine calls of the node\<close>

definition node_add_presence ::
    "world \<Rightarrow> string \<Rightarrow> string \<Rightarrow> client_info \<Rightarrow> 'e node \<Rightarrow> 'e node" where
  "node_add_presence w channel client_id info n =
     snd (call_engine w
       (eo_add_presence (nd_engine_ops n) w channel client_id info (nd_presence_expire_ms n)) n)"

definition node_remove_presence :: "world \<Rightarrow> string \<Rightarrow> string \<Rightarrow> 'e node \<Rightarrow> 'e node" where
  "node_remove_presence w channel client_id n =
     snd (call_engine w (eo_remove_presence (nd_engine_ops n) w channel client_id) n)"

definition node_presence :: "world \<Rightarrow> string \<Rightarrow> 'e node \<Rightarrow> (string, client_info) hmap \<times> 'e node" where
  "node_presence w channel n =
     (case call_engine w (eo_presence (nd_engine_ops n) w channel) n of
        (Some p, n') \<Rightarrow> (p, n')
      | (None, n') \<Rightarrow> ([], n'))"

definition node_presence_stats :: "world \<Rightarrow> string \<Rightarrow> 'e node \<Rightarrow> (u32 \<times> u32) \<times> 'e node" where
  "node_presence_stats w channel n =
     (case call_engine w (eo_presence_stats (nd_engine_ops n) w channel) n of
        (Some s, n') \<Rightarrow> (s, n')
      | (None, n') \<Rightarrow> ((0, 0), n'))"

definition node_count_message :: "nat \<Rightarrow> 'e node \<Rightarrow> 'e node" where
  "node_count_message kind n = n\<lparr>nd_metrics := inc_message_sent kind (nd_metrics n)\<rparr>"

definition node_publish_join :: "world \<Rightarrow> string \<Rightarrow> client_info \<Rightarrow> 'e node \<Rightarrow> 'e node" where
  "node_publish_join w channel info n =
     snd (call_engine w (eo_publish_join (nd_engine_ops n) w channel info) (node_count_message 1 n))"

definition node_publish_leave :: "world \<Rightarrow> string \<Rightarrow> client_info \<Rightarrow> 'e node \<Rightarrow> 'e node" where
  "node_publish_leave w channel info n =
     snd (call_engine w (eo_publish_leave (nd_engine_ops n) w channel info) (node_count_message 2 n))"

definition node_publish ::
    "world \<Rightarrow> string \<Rightarrow> bytes \<Rightarrow> client_info option \<Rightarrow> 'e node \<Rightarrow> 'e node" where
  "node_publish w channel data info n =
     (let n1 = node_count_message 0 n;
          opts = (case node_channel_options n1 channel of
                    None \<Rightarrow> publish_options_default | Some o1 \<Rightarrow> co_publish_options o1)
      in snd (call_engine w (eo_publish (nd_engine_ops n1) w channel data info opts) n1))"

definition node_history ::
    "world \<Rightarrow> string \<Rightarrow> 'e node \<Rightarrow> (publication list \<times> stream_position) \<times> 'e node" where
  "node_history w channel n =
     (case call_engine w (eo_history (nd_engine_ops n) w channel) n of
        (Some r, n') \<Rightarrow> (r, n')
      | (None, n') \<Rightarrow> (([], stream_position_default), n'))"

definition node_history_since ::
    "world \<Rightarrow> string \<Rightarrow> u64 \<Rightarrow> string \<Rightarrow> 'e node
       \<Rightarrow> (publication list \<times> stream_position) \<times> 'e node" where
  "node_history_since w channel since_offset since_epoch n =
     (case call_engine w (eo_history_since (nd_engine_ops n) w channel since_offset since_epoch) n of
        (Some r, n') \<Rightarrow> (r, n')
      | (None, n') \<Rightarrow> (([], stream_position_default), n'))"

definition node_remove_history :: "world \<Rightarrow> string \<Rightarrow> 'e node \<Rightarrow> 'e node" where
  "node_remove_history w channel n =
     snd (call_engine w (eo_remove_history (nd_engine_ops n) w channel) n)"

definition node_remove :: "string \<Rightarrow> 'e node \<Rightarrow> 'e node" where
  "node_remove i n = n\<lparr>nd_hub := snd (hub_remove i (nd_hub n))\<rparr>"

definition unsubscribe_user :: "world \<Rightarrow> string \<Rightarrow> string \<Rightarrow> 'e node \<Rightarrow> 'e node" where
  "unsubscribe_user w user channel n =
     (let msg = CmUnsubscribe user channel; n1 = apply_control w msg n
      in snd (call_engine w (eo_publish_control (nd_engine_ops n1) w msg) n1))"

definition disconnect_user :: "world \<Rightarrow> string \<Rightarrow> u32 \<Rightarrow> string \<Rightarrow> 'e node \<Rightarrow> 'e node" where
  "disconnect_user w user code reason n =
     (let msg = CmDisconnect user code reason False []; n1 = apply_control w msg n
      in snd (call_engine w (eo_publish_control (nd_engine_ops n1) w msg) n1))"

text \<open>The two timers of the cluster-membership task.\<close>

definition node_ping_tick :: "world \<Rightarrow> 'e node \<Rightarrow> 'e node" where
  "node_ping_tick w n =
     snd (call_engine w (eo_publish_control (nd_engine_ops n) w (CmNode (self_node_info w n))) n)"

definition node_clean_tick :: "world \<Rightarrow> 'e node \<Rightarrow> 'e node" where
  "node_clean_tick w n = n\<lparr>nd_registry := registry_clean w 7000 (nd_registry n)\<rparr>"

end
