(* ===== verification/Client.thy ===== *)
theory Client
  imports Node
begin

text \<open>
  The per-connection session (\<open>crates/centrifugo-core/src/client.rs\<close>): its state, one definition
  per command handler with every guard and early return in the order of the code, the operations
  the transport drives (presence refresh, expiry check, proactive refresh, server unsubscribe,
  disconnect), and the helpers. A handler takes the session and the node and returns its outcome,
  the session and the node after it. One step reads the clock once.
\<close>

section \<open>State\<close>

record command_outcome =
  oc_replies :: "reply list"
  oc_disconnect :: "disconnect option"

definition outcome_replies :: "reply list \<Rightarrow> command_outcome" where
  "outcome_replies rs = \<lparr>oc_replies = rs, oc_disconnect = None\<rparr>"

definition outcome_disconnect :: "disconnect \<Rightarrow> command_outcome" where
  "outcome_disconnect d = \<lparr>oc_replies = [], oc_disconnect = Some d\<rparr>"

record sub_state =
  ss_expire_at :: int
  ss_recoverable :: bool
  ss_presence :: bool
  ss_join_leave :: bool
  ss_chan_info :: "bytes option"
  ss_server_side :: bool

record client =
  cl_id :: string
  cl_user :: string
  cl_proto :: protocol_type
  cl_transport :: string
  cl_authenticated :: bool
  cl_conn_info :: "bytes option"
  cl_expire_at :: int
  cl_subscriptions :: "(string, sub_state) hmap"
  cl_pending_joins :: "(string \<times> client_info) list"
  cl_tx :: nat
  cl_ctrl_tx :: "nat option"

definition client_new :: "nat \<Rightarrow> protocol_type \<Rightarrow> client" where
  "client_new tx proto =
     \<lparr>cl_id = '''', cl_user = '''', cl_proto = proto, cl_transport = ''websocket'',
      cl_authenticated = False, cl_conn_info = None, cl_expire_at = 0, cl_subscriptions = [],
      cl_pending_joins = [], cl_tx = tx, cl_ctrl_tx = None\<rparr>"

definition set_transport :: "string \<Rightarrow> client \<Rightarrow> client" where
  "set_transport t c = c\<lparr>cl_transport := t\<rparr>"

definition set_ctrl :: "nat \<Rightarrow> client \<Rightarrow> client" where
  "set_ctrl q c = c\<lparr>cl_ctrl_tx := Some q\<rparr>"

definition subscribed_channels :: "client \<Rightarrow> string list" where
  "subscribed_channels c = map fst (cl_subscriptions c)"

definition is_subscribed :: "client \<Rightarrow> string \<Rightarrow> bool" where
  "is_subscribed c channel = hm_contains (cl_subscriptions c) channel"

section \<open>Helpers\<close>

definition proto_name :: "protocol_type \<Rightarrow> string" where
  "proto_name p = (case p of Json \<Rightarrow> ''json'' | Protobuf \<Rightarrow> ''protobuf'')"

definition proxy_request_of :: "client \<Rightarrow> proxy_request" where
  "proxy_request_of c =
     \<lparr>pxq_client = cl_id c, pxq_user = cl_user c, pxq_transport = cl_transport c,
      pxq_protocol = proto_name (cl_proto c), pxq_channel = '''', pxq_method = '''',
      pxq_data = None, pxq_token = ''''\<rparr>"

definition client_info_with :: "client \<Rightarrow> bytes option \<Rightarrow> client_info" where
  "client_info_with c chan_info =
     \<lparr>ci_user = cl_user c, ci_client = cl_id c, ci_conn_info = cl_conn_info c,
      ci_chan_info = chan_info\<rparr>"

definition client_info_of :: "client \<Rightarrow> client_info" where
  "client_info_of c = client_info_with c None"

definition user_allowed :: "string \<Rightarrow> string \<Rightarrow> bool" where
  "user_allowed channel user =
     (case rsplit_once_char (CHR ''#'') channel of
        None \<Rightarrow> True
      | Some (_, allowed) \<Rightarrow> user \<in> set (split_char (CHR '','') allowed))"

definition is_user_limited :: "string \<Rightarrow> bool" where
  "is_user_limited channel = (CHR ''#'' \<in> set channel)"

definition parse_params ::
    "'d \<Rightarrow> 'd wire_type \<Rightarrow> protocol_type \<Rightarrow> bytes option \<Rightarrow> perror + 'd" where
  "parse_params dflt T proto params =
     (case decode_params dflt T proto params of
        Inl _ \<Rightarrow> Inl err_bad_request
      | Inr d \<Rightarrow> Inr d)"

definition ok_reply :: "'d wire_type \<Rightarrow> protocol_type \<Rightarrow> u32 \<Rightarrow> 'd \<Rightarrow> reply" where
  "ok_reply T proto i x =
     (case encode_result T proto x of
        Inr raw \<Rightarrow> reply_ok i raw
      | Inl _ \<Rightarrow> reply_err i err_internal)"

definition pack_offset :: "u32 \<Rightarrow> u32 \<Rightarrow> u64" where
  "pack_offset sq gn = ucast gn * 0xFFFFFFFF + ucast sq"

definition encode_position :: "u64 \<Rightarrow> bool \<Rightarrow> subscribe_result \<Rightarrow> subscribe_result" where
  "encode_position offset use_seq_gen r =
     (if use_seq_gen then
        (let (sq, gn) = unpack_offset offset in r\<lparr>sr_seq := sq, sr_gen := gn\<rparr>)
      else r\<lparr>sr_offset := offset\<rparr>)"

definition node_send :: "world \<Rightarrow> nat \<Rightarrow> out \<Rightarrow> 'e node \<Rightarrow> 'e node" where
  "node_send w q item n =
     (case wd_tx w (nd_log n) q of
        SendClosed \<Rightarrow> n
      | _ \<Rightarrow> n\<lparr>nd_log := nd_log n @ [Tx q item]\<rparr>)"

definition node_hub_map :: "(hub \<Rightarrow> hub) \<Rightarrow> 'e node \<Rightarrow> 'e node" where
  "node_hub_map f n = n\<lparr>nd_hub := f (nd_hub n)\<rparr>"

definition node_engine_subscribe :: "world \<Rightarrow> string \<Rightarrow> 'e node \<Rightarrow> 'e node" where
  "node_engine_subscribe w channel n = snd (call_engine w (eo_subscribe (nd_engine_ops n) w channel) n)"

definition node_engine_unsubscribe :: "world \<Rightarrow> string \<Rightarrow> 'e node \<Rightarrow> 'e node" where
  "node_engine_unsubscribe w channel n =
     snd (call_engine w (eo_unsubscribe (nd_engine_ops n) w channel) n)"

definition flush_pending_joins :: "world \<Rightarrow> client \<Rightarrow> 'e node \<Rightarrow> client \<times> 'e node" where
  "flush_pending_joins w c n =
     (c\<lparr>cl_pending_joins := []\<rparr>,
      fold (\<lambda>(channel, info). node_publish_join w channel info) (cl_pending_joins c) n)"

definition unsubscribe_channel :: "world \<Rightarrow> string \<Rightarrow> client \<Rightarrow> 'e node \<Rightarrow> client \<times> 'e node" where
  "unsubscribe_channel w channel c n =
     (case hm_get (cl_subscriptions c) channel of
        None \<Rightarrow> (c, n)
      | Some state \<Rightarrow>
          (let c1 = c\<lparr>cl_subscriptions := hm_remove channel (cl_subscriptions c)\<rparr>;
               info = client_info_with c1 (ss_chan_info state);
               n1 = (if ss_presence state then node_remove_presence w channel (cl_id c) n else n);
               n2 = (if ss_join_leave state then node_publish_leave w channel info n1 else n1);
               n3 = node_hub_map (hub_unsubscribe w (cl_id c) channel) n2
           in (c1, node_engine_unsubscribe w channel n3)))"

definition server_unsubscribe :: "world \<Rightarrow> string \<Rightarrow> client \<Rightarrow> 'e node \<Rightarrow> client \<times> 'e node" where
  "server_unsubscribe w channel c n =
     (if \<not> is_subscribed c channel then (c, n)
      else
        (let (c1, n1) = unsubscribe_channel w channel c n in
         case encode_result (wire_unsubscribe_result (wd_wire w)) (cl_proto c) UnsubscribeResult of
           Inl _ \<Rightarrow> (c1, n1)
         | Inr body \<Rightarrow>
             (case encode_push_frame (wd_wire w) (cl_proto c) (push_new PtUnsub channel (Some body)) of
                Inl _ \<Rightarrow> (c1, n1)
              | Inr frame \<Rightarrow> (c1, node_send w (cl_tx c) (Frame frame) n1))))"

section \<open>CONNECT\<close>

type_synonym creds = "string \<times> bytes option \<times> bytes option \<times> int \<times> string list"

definition connect_creds ::
    "world \<Rightarrow> command \<Rightarrow> connect_request \<Rightarrow> client \<Rightarrow> 'e node \<Rightarrow> command_outcome + creds option" where
  "connect_creds w cmd req c n =
     (if cq_token req \<noteq> [] then
        (case verify_connect_token (wd_jwt w) (wd_now w) (nd_verifier n) (cq_token req) of
           Inr ct \<Rightarrow>
             Inr (Some (ct_user ct, ct_info ct, None,
                        if nd_client_insecure n then 0 else ct_expire_at ct, ct_channels ct))
         | Inl Expired \<Rightarrow> Inl (outcome_replies [reply_err (cmd_id cmd) err_token_expired])
         | Inl Invalid \<Rightarrow> Inl (outcome_disconnect dc_invalid_token))
      else
        (case px_connect (nd_proxies n) of
           None \<Rightarrow> Inr None
         | Some proxy \<Rightarrow>
             (case proxy w \<lparr>pcq_client = cl_id c, pcq_transport = cl_transport c,
                            pcq_protocol = proto_name (cl_proto c), pcq_data = cq_data req\<rparr> of
                Some (PcCredentials r) \<Rightarrow>
                  Inr (Some (pcr_user r, pcr_info r, pcr_data r, pcr_expire_at r, pcr_channels r))
              | Some (PcError code message) \<Rightarrow>
                  Inl (outcome_replies [reply_err (cmd_id cmd) (perror_new code message)])
              | Some (PcDisconnect code reason) \<Rightarrow>
                  Inl (outcome_disconnect (disconnect_new code reason False))
              | Some PcNoCredentials \<Rightarrow> Inr None
              | None \<Rightarrow> Inl (outcome_replies [reply_err (cmd_id cmd) err_internal]))))"

definition server_side_subscribe ::
    "world \<Rightarrow> string \<Rightarrow> client \<Rightarrow> 'e node \<Rightarrow> subscribe_result \<times> client \<times> 'e node" where
  "server_side_subscribe w channel c n =
     (let (presence, join_leave, recoverable) =
            (case node_channel_options n channel of
               None \<Rightarrow> (False, False, False)
             | Some o1 \<Rightarrow> (co_presence o1, co_join_leave o1, co_history_recover o1));
          n1 = node_hub_map (hub_subscribe w (cl_id c) channel) n;
          n2 = node_engine_subscribe w channel n1;
          n3 = (if presence then node_add_presence w channel (cl_id c) (client_info_of c) n2 else n2);
          c1 = c\<lparr>cl_subscriptions :=
                 hm_insert channel
                   \<lparr>ss_expire_at = 0, ss_recoverable = recoverable, ss_presence = presence,
                    ss_join_leave = join_leave, ss_chan_info = None, ss_server_side = True\<rparr>
                   (cl_subscriptions c)\<rparr>;
          (r, n4) =
            (if recoverable then
               (let ((pubs, pos), n') = node_history w channel n3;
                    r1 = subscribe_result_default\<lparr>sr_recoverable := True, sr_epoch := sp_epoch pos\<rparr>
                in (encode_position (sp_offset pos) (nd_use_seq_gen n') r1, n'))
             else (subscribe_result_default, n3));
          c2 = (if join_leave
                then c1\<lparr>cl_pending_joins := cl_pending_joins c1 @ [(channel, client_info_of c1)]\<rparr>
                else c1)
      in (r, c2, n4))"

text \<open>The loop over the server-side channels of the connection.\<close>

fun server_side_subscribe_all ::
    "world \<Rightarrow> string list \<Rightarrow> (string, subscribe_result) hmap \<Rightarrow> client \<Rightarrow> 'e node
       \<Rightarrow> (string, subscribe_result) hmap \<times> client \<times> 'e node" where
  "server_side_subscribe_all w [] subs c n = (subs, c, n)"
| "server_side_subscribe_all w (ch # chs) subs c n =
     (let (sub, c', n') = server_side_subscribe w ch c n
      in server_side_subscribe_all w chs (hm_insert ch sub subs) c' n')"

definition ttl_until :: "world \<Rightarrow> int \<Rightarrow> bool \<times> u32" where
  "ttl_until w expire_at =
     (if expire_at > 0 then (True, i64_as_u32 (max 0 (i64_sub expire_at (wd_now w)))) else (False, 0))"

definition connect_register :: "client \<Rightarrow> 'e node \<Rightarrow> 'e node" where
  "connect_register c n =
     n\<lparr>nd_metrics := inc_connect (cl_transport c) (nd_metrics n),
       nd_hub := hub_add \<lparr>ch_id = cl_id c, ch_user = cl_user c, ch_proto = cl_proto c,
                          ch_tx = cl_tx c, ch_ctrl = cl_ctrl_tx c\<rparr> (nd_hub n)\<rparr>"

definition on_connect ::
    "world \<Rightarrow> command \<Rightarrow> client \<Rightarrow> 'e node \<Rightarrow> command_outcome \<times> client \<times> 'e node" where
  "on_connect w cmd c n =
     (if cl_authenticated c then (outcome_disconnect dc_bad_request, c, n)
      else
        (case parse_params connect_request_default (wire_connect_request (wd_wire w)) (cl_proto c)
                (cmd_params cmd) of
           Inl _ \<Rightarrow> (outcome_disconnect dc_bad_request, c, n)
         | Inr req \<Rightarrow>
             (let c1 = c\<lparr>cl_id := wd_uuid_string w\<rparr> in
              case connect_creds w cmd req c1 n of
                Inl out \<Rightarrow> (out, c1, n)
              | Inr cr \<Rightarrow>
                  (case (case cr of
                           Some x \<Rightarrow> Some x
                         | None \<Rightarrow>
                             if nd_client_anonymous n \<or> nd_client_insecure n
                             then Some ('''', None, None, 0, []) else None) of
                     None \<Rightarrow> (outcome_disconnect dc_bad_request, c1, n)
                   | Some (user, info, data, expire_at, channels0) \<Rightarrow>
                       (let channels =
                              (case node_personal_channel n user of
                                 None \<Rightarrow> channels0
                               | Some pc \<Rightarrow>
                                   if pc \<in> set channels0 then channels0 else channels0 @ [pc])
                        in
                        if \<exists>ch \<in> set channels. node_channel_options n ch = None
                        then (outcome_replies [reply_err (cmd_id cmd) err_unknown_channel], c1, n)
                        else
                          (let c2 = c1\<lparr>cl_user := user, cl_conn_info := info,
                                       cl_expire_at := expire_at, cl_authenticated := True\<rparr>;
                               conn_limit = lm_user_connection_limit (nd_limits n)
                           in
                           if conn_limit > 0 \<and> user \<noteq> []
                              \<and> length (user_clients (nd_hub n) user) \<ge> conn_limit
                           then (outcome_disconnect dc_connection_limit, c2, n)
                           else
                             (let n1 = connect_register c2 n;
                                  (subs, c3, n2) = server_side_subscribe_all w channels [] c2 n1;
                                  (expires, ttl) = ttl_until w expire_at;
                                  result = \<lparr>cr_client = cl_id c3, cr_version = nd_version n2,
                                            cr_expires = expires, cr_ttl = ttl, cr_data = data,
                                            cr_subs = subs\<rparr>
                              in (outcome_replies
                                    [ok_reply (wire_connect_result (wd_wire w)) (cl_proto c)
                                       (cmd_id cmd) result],
                                  c3, n2))))))))"

section \<open>SUBSCRIBE\<close>

definition subscribe_validate ::
    "command \<Rightarrow> subscribe_request \<Rightarrow> client \<Rightarrow> 'e node \<Rightarrow> command_outcome + channel_options" where
  "subscribe_validate cmd req c n =
     (let channel = sq_channel req;
          fail = (\<lambda>e. Inl (outcome_replies [reply_err (cmd_id cmd) e]));
          max_len = lm_channel_max_length (nd_limits n);
          chan_limit = lm_client_channel_limit (nd_limits n)
      in
      if channel = [] then Inl (outcome_disconnect dc_bad_request)
      else if max_len > 0 \<and> length channel > max_len then fail err_limit_exceeded
      else if chan_limit > 0 \<and> length (cl_subscriptions c) \<ge> chan_limit then fail err_limit_exceeded
      else if is_subscribed c channel then fail err_already_subscribed
      else
        (case node_channel_options n channel of
           None \<Rightarrow> fail err_unknown_channel
         | Some o1 \<Rightarrow>
             if co_server_side o1 then fail err_permission_denied
             else if \<not> co_anonymous o1 \<and> cl_user c = [] \<and> \<not> nd_client_insecure n
             then fail err_permission_denied
             else if \<not> user_allowed channel (cl_user c) then fail err_permission_denied
             else Inr o1))"

definition subscribe_authorize ::
    "world \<Rightarrow> command \<Rightarrow> subscribe_request \<Rightarrow> channel_options \<Rightarrow> client \<Rightarrow> 'e node
       \<Rightarrow> command_outcome + bytes option \<times> int" where
  "subscribe_authorize w cmd req o1 c n =
     (let channel = sq_channel req;
          fail = (\<lambda>e. Inl (outcome_replies [reply_err (cmd_id cmd) e]))
      in
      if node_is_private n channel then
        (if sq_token req = [] then fail err_permission_denied
         else
           (case verify_subscribe_token (wd_jwt w) (wd_now w) (nd_verifier n) (sq_token req) of
              Inr t \<Rightarrow>
                if st_client t \<noteq> cl_id c \<or> st_channel t \<noteq> channel then fail err_permission_denied
                else Inr (st_info t, if st_expire_token_only t then 0 else st_expire_at t)
            | Inl Expired \<Rightarrow> fail err_token_expired
            | Inl Invalid \<Rightarrow> fail err_permission_denied))
      else if co_proxy_subscribe o1 \<and> \<not> is_user_limited channel then
        (case px_subscribe (nd_proxies n) of
           None \<Rightarrow> fail err_not_available
         | Some proxy \<Rightarrow>
             (case proxy w ((proxy_request_of c)\<lparr>pxq_channel := channel, pxq_token := sq_token req\<rparr>) of
                Some (PxResult cr) \<Rightarrow> Inr (sbc_info cr, 0)
              | Some (PxError code message) \<Rightarrow> fail (perror_new code message)
              | Some (PxDisconnect code reason) \<Rightarrow>
                  Inl (outcome_disconnect (disconnect_new code reason False))
              | None \<Rightarrow> fail err_internal))
      else Inr (None, 0))"

definition seq_gen_publication :: "publication \<Rightarrow> publication" where
  "seq_gen_publication p =
     (let (sq, gn) = unpack_offset (pub_offset p) in p\<lparr>pub_seq := sq, pub_gen := gn, pub_offset := 0\<rparr>)"

definition request_offset :: "subscribe_request \<Rightarrow> u64" where
  "request_offset req =
     (if sq_seq req > 0 \<or> sq_gen req > 0 then pack_offset (sq_seq req) (sq_gen req) else sq_offset req)"

definition subscribe_result_of ::
    "world \<Rightarrow> subscribe_request \<Rightarrow> channel_options \<Rightarrow> 'e node \<Rightarrow> subscribe_result \<times> 'e node" where
  "subscribe_result_of w req o1 n =
     (if \<not> co_history_recover o1 then (subscribe_result_default, n)
      else
        (let r0 = subscribe_result_default\<lparr>sr_recoverable := True\<rparr>;
             use_seq_gen = nd_use_seq_gen n
         in
         if sq_recover req then
           (let cmd_offset = request_offset req;
                ((pubs, pos), n') = node_history_since w (sq_channel req) cmd_offset (sq_epoch req) n;
                r1 = r0\<lparr>sr_recovered := is_recovered pubs pos cmd_offset (sq_epoch req),
                        sr_epoch := sp_epoch pos\<rparr>;
                r2 = encode_position (sp_offset pos) use_seq_gen r1;
                pubs' = (if use_seq_gen then rev (map seq_gen_publication pubs) else pubs)
            in (r2\<lparr>sr_publications := pubs'\<rparr>, n'))
         else
           (let ((pubs, pos), n') = node_history w (sq_channel req) n;
                r1 = r0\<lparr>sr_epoch := sp_epoch pos\<rparr>
            in (encode_position (sp_offset pos) use_seq_gen r1, n'))))"

text \<open>From the registration in the hub to the reply.\<close>

definition subscribe_commit ::
    "world \<Rightarrow> command \<Rightarrow> subscribe_request \<Rightarrow> channel_options \<Rightarrow> bytes option \<Rightarrow> int \<Rightarrow> client
       \<Rightarrow> 'e node \<Rightarrow> command_outcome \<times> client \<times> 'e node" where
  "subscribe_commit w cmd req o1 chan_info sub_expire_at c n =
     (let channel = sq_channel req;
          n1 = node_hub_map (hub_subscribe w (cl_id c) channel) n;
          n2 = node_engine_subscribe w channel n1;
          sub_info = client_info_with c chan_info;
          n3 = (if co_presence o1 then node_add_presence w channel (cl_id c) sub_info n2 else n2);
          c1 = c\<lparr>cl_subscriptions :=
                 hm_insert channel
                   \<lparr>ss_expire_at = sub_expire_at, ss_recoverable = co_history_recover o1,
                    ss_presence = co_presence o1, ss_join_leave = co_join_leave o1,
                    ss_chan_info = chan_info, ss_server_side = False\<rparr> (cl_subscriptions c)\<rparr>;
          (result, n4) = subscribe_result_of w req o1 n3;
          rep = ok_reply (wire_subscribe_result (wd_wire w)) (cl_proto c) (cmd_id cmd) result;
          c2 = (if co_join_leave o1
                then c1\<lparr>cl_pending_joins := cl_pending_joins c1 @ [(channel, sub_info)]\<rparr> else c1)
      in (outcome_replies [rep], c2, n4))"

definition on_subscribe ::
    "world \<Rightarrow> command \<Rightarrow> client \<Rightarrow> 'e node \<Rightarrow> command_outcome \<times> client \<times> 'e node" where
  "on_subscribe w cmd c n =
     (case parse_params subscribe_request_default (wire_subscribe_request (wd_wire w)) (cl_proto c)
             (cmd_params cmd) of
        Inl _ \<Rightarrow> (outcome_disconnect dc_bad_request, c, n)
      | Inr req \<Rightarrow>
          (case subscribe_validate cmd req c n of
             Inl out \<Rightarrow> (out, c, n)
           | Inr o1 \<Rightarrow>
               (case subscribe_authorize w cmd req o1 c n of
                  Inl out \<Rightarrow> (out, c, n)
                | Inr (chan_info, sub_expire_at) \<Rightarrow>
                    subscribe_commit w cmd req o1 chan_info sub_expire_at c n)))"

section \<open>HISTORY, PUBLISH, UNSUBSCRIBE, PRESENCE\<close>

definition history_publication_seq_gen :: "publication \<Rightarrow> publication" where
  "history_publication_seq_gen p =
     (let (sq, gn) = unpack_offset (pub_offset p) in p\<lparr>pub_seq := sq, pub_gen := gn\<rparr>)"

definition fail_with :: "command \<Rightarrow> perror \<Rightarrow> command_outcome" where
  "fail_with cmd e = outcome_replies [reply_err (cmd_id cmd) e]"

definition on_history ::
    "world \<Rightarrow> command \<Rightarrow> client \<Rightarrow> 'e node \<Rightarrow> command_outcome \<times> client \<times> 'e node" where
  "on_history w cmd c n =
     (case parse_params history_request_default (wire_history_request (wd_wire w)) (cl_proto c)
             (cmd_params cmd) of
        Inl _ \<Rightarrow> (outcome_disconnect dc_bad_request, c, n)
      | Inr req \<Rightarrow>
          (case node_channel_options n (hq_channel req) of
             None \<Rightarrow> (fail_with cmd err_unknown_channel, c, n)
           | Some o1 \<Rightarrow>
               if \<not> co_history_enabled o1 \<or> co_history_disable_for_client o1
               then (fail_with cmd err_not_available, c, n)
               else if \<not> is_subscribed c (hq_channel req)
               then (fail_with cmd err_permission_denied, c, n)
               else
                 (let ((pubs, pos), n1) = node_history w (hq_channel req) n;
                      pubs' = (if nd_use_seq_gen n1 then map history_publication_seq_gen pubs else pubs)
                  in (outcome_replies
                        [ok_reply (wire_history_result (wd_wire w)) (cl_proto c) (cmd_id cmd)
                           \<lparr>hr_publications = pubs'\<rparr>], c, n1))))"

text \<open>The publish proxy may deny the publication or replace its payload.\<close>

definition publish_proxy ::
    "world \<Rightarrow> command \<Rightarrow> string \<Rightarrow> bytes \<Rightarrow> client \<Rightarrow> 'e node \<Rightarrow> command_outcome + bytes" where
  "publish_proxy w cmd channel data c n =
     (case px_publish (nd_proxies n) of
        None \<Rightarrow> Inl (fail_with cmd err_not_available)
      | Some proxy \<Rightarrow>
          (case proxy w ((proxy_request_of c)\<lparr>pxq_channel := channel, pxq_data := Some data\<rparr>) of
             Some (PxResult d) \<Rightarrow> Inr (case pd_data d of Some nd \<Rightarrow> nd | None \<Rightarrow> data)
           | Some (PxError code message) \<Rightarrow> Inl (fail_with cmd (perror_new code message))
           | Some (PxDisconnect code reason) \<Rightarrow>
               Inl (outcome_disconnect (disconnect_new code reason False))
           | None \<Rightarrow> Inl (fail_with cmd err_internal)))"

definition on_publish ::
    "world \<Rightarrow> command \<Rightarrow> client \<Rightarrow> 'e node \<Rightarrow> command_outcome \<times> client \<times> 'e node" where
  "on_publish w cmd c n =
     (case parse_params publish_request_default (wire_publish_request (wd_wire w)) (cl_proto c)
             (cmd_params cmd) of
        Inl _ \<Rightarrow> (outcome_disconnect dc_bad_request, c, n)
      | Inr req \<Rightarrow>
          (case (case pq_data req of Some r \<Rightarrow> if r \<noteq> [] then Some r else None | None \<Rightarrow> None) of
             None \<Rightarrow> (outcome_disconnect dc_bad_request, c, n)
           | Some data0 \<Rightarrow>
               if pq_channel req = [] then (outcome_disconnect dc_bad_request, c, n)
               else
                 (case node_channel_options n (pq_channel req) of
                    None \<Rightarrow> (fail_with cmd err_unknown_channel, c, n)
                  | Some o1 \<Rightarrow>
                      if \<not> co_publish o1 \<and> \<not> nd_client_insecure n
                      then (fail_with cmd err_permission_denied, c, n)
                      else if co_subscribe_to_publish o1 \<and> \<not> is_subscribed c (pq_channel req)
                      then (fail_with cmd err_permission_denied, c, n)
                      else
                        (case (if co_proxy_publish o1
                               then publish_proxy w cmd (pq_channel req) data0 c n
                               else Inr data0) of
                           Inl out \<Rightarrow> (out, c, n)
                         | Inr data \<Rightarrow>
                             (let n1 = node_publish w (pq_channel req) data (Some (client_info_of c)) n
                              in (outcome_replies
                                    [ok_reply (wire_publish_result (wd_wire w)) (cl_proto c)
                                       (cmd_id cmd) PublishResult], c, n1))))))"

definition on_unsubscribe ::
    "world \<Rightarrow> command \<Rightarrow> client \<Rightarrow> 'e node \<Rightarrow> command_outcome \<times> client \<times> 'e node" where
  "on_unsubscribe w cmd c n =
     (case parse_params unsubscribe_request_default (wire_unsubscribe_request (wd_wire w)) (cl_proto c)
             (cmd_params cmd) of
        Inl _ \<Rightarrow> (outcome_disconnect dc_bad_request, c, n)
      | Inr req \<Rightarrow>
          if uq_channel req = [] then (outcome_disconnect dc_bad_request, c, n)
          else
            (let (c1, n1) = unsubscribe_channel w (uq_channel req) c n
             in (outcome_replies
                   [ok_reply (wire_unsubscribe_result (wd_wire w)) (cl_proto c) (cmd_id cmd)
                      UnsubscribeResult], c1, n1)))"

definition on_presence ::
    "world \<Rightarrow> command \<Rightarrow> client \<Rightarrow> 'e node \<Rightarrow> command_outcome \<times> client \<times> 'e node" where
  "on_presence w cmd c n =
     (case parse_params presence_request_default (wire_presence_request (wd_wire w)) (cl_proto c)
             (cmd_params cmd) of
        Inl _ \<Rightarrow> (outcome_disconnect dc_bad_request, c, n)
      | Inr req \<Rightarrow>
          (case node_channel_options n (prq_channel req) of
             None \<Rightarrow> (fail_with cmd err_unknown_channel, c, n)
           | Some o1 \<Rightarrow>
               if \<not> co_presence o1 \<or> co_presence_disable_for_client o1
               then (fail_with cmd err_not_available, c, n)
               else if \<not> is_subscribed c (prq_channel req)
               then (fail_with cmd err_permission_denied, c, n)
               else
                 (let (p, n1) = node_presence w (prq_channel req) n
                  in (outcome_replies
                        [ok_reply (wire_presence_result (wd_wire w)) (cl_proto c) (cmd_id cmd)
                           \<lparr>prr_presence = p\<rparr>], c, n1))))"

definition on_presence_stats ::
    "world \<Rightarrow> command \<Rightarrow> client \<Rightarrow> 'e node \<Rightarrow> command_outcome \<times> client \<times> 'e node" where
  "on_presence_stats w cmd c n =
     (case parse_params presence_stats_request_default (wire_presence_stats_request (wd_wire w))
             (cl_proto c) (cmd_params cmd) of
        Inl _ \<Rightarrow> (outcome_disconnect dc_bad_request, c, n)
      | Inr req \<Rightarrow>
          (case node_channel_options n (psq_channel req) of
             None \<Rightarrow> (fail_with cmd err_unknown_channel, c, n)
           | Some o1 \<Rightarrow>
               if \<not> co_presence o1 \<or> co_presence_disable_for_client o1
               then (fail_with cmd err_not_available, c, n)
               else if \<not> is_subscribed c (psq_channel req)
               then (fail_with cmd err_permission_denied, c, n)
               else
                 (let ((num_clients, num_users), n1) = node_presence_stats w (psq_channel req) n
                  in (outcome_replies
                        [ok_reply (wire_presence_stats_result (wd_wire w)) (cl_proto c) (cmd_id cmd)
                           \<lparr>psr_num_clients = num_clients, psr_num_users = num_users\<rparr>], c, n1))))"

section \<open>Timers and the end of the connection\<close>

definition refresh_presence :: "world \<Rightarrow> client \<Rightarrow> 'e node \<Rightarrow> 'e node" where
  "refresh_presence w c n =
     (if \<not> cl_authenticated c then n
      else
        fold (\<lambda>(channel, state) n.
                if ss_presence state
                then node_add_presence w channel (cl_id c) (client_info_with c (ss_chan_info state)) n
                else n)
          (cl_subscriptions c) n)"

definition close_delay :: int where "close_delay = 25"

definition past_grace :: "world \<Rightarrow> int \<Rightarrow> bool" where
  "past_grace w expire_at \<longleftrightarrow> expire_at > 0 \<and> wd_now w > i64_add expire_at close_delay"

definition check_expired :: "world \<Rightarrow> client \<Rightarrow> disconnect option" where
  "check_expired w c =
     (if \<not> cl_authenticated c then None
      else if past_grace w (cl_expire_at c) then Some dc_expired
      else if \<exists>(channel, state) \<in> set (cl_subscriptions c). past_grace w (ss_expire_at state)
      then Some dc_sub_expired
      else None)"

definition leave_channel :: "world \<Rightarrow> client \<Rightarrow> string \<times> sub_state \<Rightarrow> 'e node \<Rightarrow> 'e node" where
  "leave_channel w c entry n =
     (let (ch, state) = entry;
          n1 = (if ss_presence state then node_remove_presence w ch (cl_id c) n else n)
      in if ss_join_leave state
         then node_publish_leave w ch (client_info_with c (ss_chan_info state)) n1 else n1)"

definition on_disconnect :: "world \<Rightarrow> client \<Rightarrow> 'e node \<Rightarrow> client \<times> 'e node" where
  "on_disconnect w c n =
     (let c1 = c\<lparr>cl_subscriptions := []\<rparr>;
          n1 = fold (leave_channel w c1) (cl_subscriptions c) n
      in (c1, node_remove (cl_id c) n1))"

section \<open>REFRESH, RPC, SUB_REFRESH\<close>

definition refresh_reply ::
    "world \<Rightarrow> command \<Rightarrow> client \<Rightarrow> 'e node \<Rightarrow> bool \<Rightarrow> u32 \<Rightarrow> command_outcome" where
  "refresh_reply w cmd c n expires ttl =
     outcome_replies
       [ok_reply (wire_refresh_result (wd_wire w)) (cl_proto c) (cmd_id cmd)
          \<lparr>rr_client = cl_id c, rr_version = nd_version n, rr_expires = expires, rr_ttl = ttl\<rparr>]"

definition on_refresh ::
    "world \<Rightarrow> command \<Rightarrow> client \<Rightarrow> 'e node \<Rightarrow> command_outcome \<times> client \<times> 'e node" where
  "on_refresh w cmd c n =
     (case parse_params refresh_request_default (wire_refresh_request (wd_wire w)) (cl_proto c)
             (cmd_params cmd) of
        Inl _ \<Rightarrow> (outcome_disconnect dc_bad_request, c, n)
      | Inr req \<Rightarrow>
          if rq_token req = [] then (outcome_disconnect dc_bad_request, c, n)
          else if px_refresh (nd_proxies n) \<noteq> None then (outcome_disconnect dc_bad_request, c, n)
          else
            (case verify_connect_token (wd_jwt w) (wd_now w) (nd_verifier n) (rq_token req) of
               Inr ct \<Rightarrow>
                 (let c1 = (if ct_user ct \<noteq> [] then c\<lparr>cl_user := ct_user ct\<rparr> else c);
                      c2 = c1\<lparr>cl_conn_info := ct_info ct, cl_expire_at := ct_expire_at ct\<rparr>
                  in
                  if ct_expire_at ct > 0 then
                    (let ttl = i64_sub (ct_expire_at ct) (wd_now w) in
                     if ttl \<le> 0 then (fail_with cmd err_expired, c2, n)
                     else (refresh_reply w cmd c2 n True (i64_as_u32 ttl), c2, n))
                  else (refresh_reply w cmd c2 n False 0, c2, n))
             | Inl Expired \<Rightarrow> (outcome_disconnect dc_expired, c, n)
             | Inl Invalid \<Rightarrow> (outcome_disconnect dc_invalid_token, c, n)))"

definition proactive_refresh ::
    "world \<Rightarrow> int \<Rightarrow> client \<Rightarrow> 'e node \<Rightarrow> disconnect option \<times> client" where
  "proactive_refresh w lookahead_secs c n =
     (case px_refresh (nd_proxies n) of
        None \<Rightarrow> (None, c)
      | Some proxy \<Rightarrow>
          if \<not> cl_authenticated c \<or> cl_expire_at c \<le> 0 then (None, c)
          else if i64_sub (cl_expire_at c) (wd_now w) > lookahead_secs then (None, c)
          else
            (case proxy w (proxy_request_of c) of
               Some (PxResult cr) \<Rightarrow>
                 if rc_expired cr then (Some dc_expired, c)
                 else
                   (let c1 = (if rc_info cr \<noteq> None then c\<lparr>cl_conn_info := rc_info cr\<rparr> else c) in
                    if rc_expire_at cr > 0 then
                      (let c2 = c1\<lparr>cl_expire_at := rc_expire_at cr\<rparr> in
                       if i64_sub (rc_expire_at cr) (wd_now w) \<le> 0 then (Some dc_expired, c2)
                       else (None, c2))
                    else (Some dc_expired, c1))
             | Some (PxDisconnect code reason) \<Rightarrow> (Some (disconnect_new code reason False), c)
             | Some (PxError code message) \<Rightarrow> (Some dc_server_error, c)
             | None \<Rightarrow> (Some dc_server_error, c)))"

definition on_rpc ::
    "world \<Rightarrow> command \<Rightarrow> client \<Rightarrow> 'e node \<Rightarrow> command_outcome \<times> client \<times> 'e node" where
  "on_rpc w cmd c n =
     (case px_rpc (nd_proxies n) of
        None \<Rightarrow> (fail_with cmd err_not_available, c, n)
      | Some proxy \<Rightarrow>
          (case parse_params rpc_request_default (wire_rpc_request (wd_wire w)) (cl_proto c)
                  (cmd_params cmd) of
             Inl _ \<Rightarrow> (outcome_disconnect dc_bad_request, c, n)
           | Inr req \<Rightarrow>
               (case proxy w ((proxy_request_of c)\<lparr>pxq_method := rpq_method req, pxq_data := rpq_data req\<rparr>) of
                  Some (PxResult d) \<Rightarrow>
                    (outcome_replies
                       [ok_reply (wire_rpc_result (wd_wire w)) (cl_proto c) (cmd_id cmd)
                          \<lparr>rpr_data = rd_data d\<rparr>], c, n)
                | Some (PxError code message) \<Rightarrow> (fail_with cmd (perror_new code message), c, n)
                | Some (PxDisconnect code reason) \<Rightarrow>
                    (outcome_disconnect (disconnect_new code reason False), c, n)
                | None \<Rightarrow> (fail_with cmd err_internal, c, n))))"

definition sub_refresh_reply :: "world \<Rightarrow> command \<Rightarrow> client \<Rightarrow> bool \<Rightarrow> u32 \<Rightarrow> command_outcome" where
  "sub_refresh_reply w cmd c expires ttl =
     outcome_replies
       [ok_reply (wire_sub_refresh_result (wd_wire w)) (cl_proto c) (cmd_id cmd)
          \<lparr>srr_expires = expires, srr_ttl = ttl\<rparr>]"

definition on_sub_refresh ::
    "world \<Rightarrow> command \<Rightarrow> client \<Rightarrow> 'e node \<Rightarrow> command_outcome \<times> client" where
  "on_sub_refresh w cmd c n =
     (case parse_params sub_refresh_request_default (wire_sub_refresh_request (wd_wire w)) (cl_proto c)
             (cmd_params cmd) of
        Inl _ \<Rightarrow> (outcome_disconnect dc_bad_request, c)
      | Inr req \<Rightarrow>
          (let channel = srq_channel req in
           if channel = [] then (outcome_disconnect dc_bad_request, c)
           else
             (case hm_get (cl_subscriptions c) channel of
                None \<Rightarrow> (fail_with cmd err_permission_denied, c)
              | Some s \<Rightarrow>
                  if ss_server_side s then (outcome_disconnect dc_bad_request, c)
                  else if srq_token req = [] then (fail_with cmd err_bad_request, c)
                  else
                    (case verify_subscribe_token (wd_jwt w) (wd_now w) (nd_verifier n) (srq_token req) of
                       Inr t \<Rightarrow>
                         if st_client t \<noteq> cl_id c \<or> st_channel t \<noteq> channel
                         then (outcome_disconnect dc_invalid_token, c)
                         else if st_expire_at t > 0 \<and> st_expire_at t < wd_now w
                         then (fail_with cmd err_expired, c)
                         else
                           (let (expires, ttl) = ttl_until w (st_expire_at t);
                                s1 = s\<lparr>ss_expire_at := st_expire_at t, ss_chan_info := st_info t\<rparr>
                            in (sub_refresh_reply w cmd c expires ttl,
                                c\<lparr>cl_subscriptions := hm_insert channel s1 (cl_subscriptions c)\<rparr>))
                     | Inl Expired \<Rightarrow>
                         (sub_refresh_reply w cmd c False 0,
                          c\<lparr>cl_subscriptions :=
                              hm_insert channel (s\<lparr>ss_expire_at := 0\<rparr>) (cl_subscriptions c)\<rparr>)
                     | Inl Invalid \<Rightarrow> (outcome_disconnect dc_invalid_token, c)))))"

section \<open>Dispatch\<close>

definition handle_command ::
    "world \<Rightarrow> command \<Rightarrow> client \<Rightarrow> 'e node \<Rightarrow> command_outcome \<times> client \<times> 'e node" where
  "handle_command w cmd c n0 =
     (let n = n0\<lparr>nd_metrics := inc_command (method_u8 (cmd_method cmd)) (nd_metrics n0)\<rparr> in
      if \<not> cl_authenticated c \<and> cmd_method cmd \<noteq> Connect
      then (outcome_disconnect dc_bad_request, c, n)
      else
        (case cmd_method cmd of
           Connect \<Rightarrow> on_connect w cmd c n
         | Subscribe \<Rightarrow> on_subscribe w cmd c n
         | Publish \<Rightarrow> on_publish w cmd c n
         | Unsubscribe \<Rightarrow> on_unsubscribe w cmd c n
         | Ping \<Rightarrow> (outcome_replies [reply_bare (cmd_id cmd)], c, n)
         | Refresh \<Rightarrow> on_refresh w cmd c n
         | Send \<Rightarrow> (outcome_replies [], c, n)
         | Rpc \<Rightarrow> on_rpc w cmd c n
         | Presence \<Rightarrow> on_presence w cmd c n
         | PresenceStats \<Rightarrow> on_presence_stats w cmd c n
         | History \<Rightarrow> on_history w cmd c n
         | SubRefresh \<Rightarrow> (let (out, c1) = on_sub_refresh w cmd c n in (out, c1, n))
         | UnknownMethod \<Rightarrow> (fail_with cmd err_method_not_found, c, n)))"

end
