(* ===== verification/Session.thy ===== *)
theory Session
  imports Client
begin

text \<open>
  The read loops of the two transports (\<open>crates/centrifugo-server/src/ws.rs\<close>, \<open>handle_socket\<close>,
  and \<open>sockjs.rs\<close>, \<open>run_session\<close>). Each turn of a loop is one event of the \<open>select!\<close>: a message
  of the peer, a timer, a control signal, or the end of the stream. A step returns whether the loop
  was left, with the session and the node after it; leaving it runs \<open>on_disconnect\<close>. The writer
  task is the function \<open>coalesce\<close> from queued items to transport messages.
\<close>

section \<open>The format of a connection\<close>

definition proto_of_pair :: "string \<Rightarrow> bool" where
  "proto_of_pair pair =
     (case split_once ''='' pair of
        None \<Rightarrow> False
      | Some (key, v) \<Rightarrow> (key = ''format'' \<or> key = ''protocol'') \<and> v = ''protobuf'')"

definition proto_from_query :: "string option \<Rightarrow> protocol_type" where
  "proto_from_query query =
     (case query of
        None \<Rightarrow> Json
      | Some q \<Rightarrow> if list_ex proto_of_pair (split_char (CHR ''&'') q) then Protobuf else Json)"

section \<open>Events and steps\<close>

datatype session_event =
  EvFrame bytes
| EvOther
| EvEnd
| EvPresence
| EvExpiry
| EvSignal signal
| EvSignalClosed

type_synonym 'e step_result = "bool \<times> client \<times> 'e node"

definition close_with :: "world \<Rightarrow> disconnect \<Rightarrow> client \<Rightarrow> 'e node \<Rightarrow> 'e step_result" where
  "close_with w d c n = (True, c, node_send w (cl_tx c) (Close d) n)"

text \<open>The loop over the commands of one frame.\<close>

fun process_commands ::
    "world \<Rightarrow> command list \<Rightarrow> client \<Rightarrow> 'e node
       \<Rightarrow> reply list \<times> disconnect option \<times> client \<times> 'e node" where
  "process_commands w [] c n = ([], None, c, n)"
| "process_commands w (cmd # cmds) c n =
     (if cmd_id cmd = 0 \<and> cmd_method cmd \<noteq> Send then ([], Some dc_bad_request, c, n)
      else
        (let (out, c1, n1) = handle_command w cmd c n in
         case oc_disconnect out of
           Some d \<Rightarrow> (oc_replies out, Some d, c1, n1)
         | None \<Rightarrow>
             (let (rs, d, c2, n2) = process_commands w cmds c1 n1
              in (oc_replies out @ rs, d, c2, n2))))"

definition finish_frame ::
    "world \<Rightarrow> disconnect option \<Rightarrow> client \<Rightarrow> 'e node \<Rightarrow> 'e step_result" where
  "finish_frame w d c n =
     (let (c1, n1) = flush_pending_joins w c n in
      case d of None \<Rightarrow> (False, c1, n1) | Some dc \<Rightarrow> close_with w dc c1 n1)"

definition ws_frame :: "world \<Rightarrow> bytes \<Rightarrow> client \<Rightarrow> 'e node \<Rightarrow> 'e step_result" where
  "ws_frame w frame c n =
     (if frame = [] then close_with w dc_bad_request c n
      else
        (case decode_commands (wd_wire w) (cl_proto c) frame of
           Inl _ \<Rightarrow> close_with w dc_bad_request c n
         | Inr cmds \<Rightarrow>
             (let (replies, d, c1, n1) = process_commands w cmds c n in
              if replies = [] then finish_frame w d c1 n1
              else
                (case encode_replies (wd_wire w) (cl_proto c) replies of
                   Inl _ \<Rightarrow> close_with w dc_server_error c1 n1
                 | Inr buf \<Rightarrow>
                     if wd_tx w (nd_log n1) (cl_tx c) = SendClosed then (True, c1, n1)
                     else finish_frame w d c1 (node_send w (cl_tx c) (Frame buf) n1)))))"

definition sockjs_frame :: "world \<Rightarrow> bytes \<Rightarrow> client \<Rightarrow> 'e node \<Rightarrow> 'e step_result" where
  "sockjs_frame w frame c n =
     (if frame = [] then close_with w dc_bad_request c n
      else
        (case decode_commands (wd_wire w) Json frame of
           Inl _ \<Rightarrow> close_with w dc_bad_request c n
         | Inr cmds \<Rightarrow>
             (let (replies, d, c1, n1) = process_commands w cmds c n in
              if replies = [] then finish_frame w d c1 n1
              else
                (case encode_replies (wd_wire w) Json replies of
                   Inl _ \<Rightarrow> finish_frame w d c1 n1
                 | Inr buf \<Rightarrow>
                     if wd_tx w (nd_log n1) (cl_tx c) = SendClosed then (True, c1, n1)
                     else finish_frame w d c1 (node_send w (cl_tx c) (Frame buf) n1)))))"

definition expiry_tick :: "world \<Rightarrow> client \<Rightarrow> 'e node \<Rightarrow> 'e step_result" where
  "expiry_tick w c n =
     (let (d, c1) = proactive_refresh w (u64_as_i64 (nd_presence_ping_secs n)) c n in
      case d of
        Some dc \<Rightarrow> close_with w dc c1 n
      | None \<Rightarrow>
          (case check_expired w c1 of
             Some dc \<Rightarrow> close_with w dc c1 n
           | None \<Rightarrow> (False, c1, n)))"

fun server_unsubscribe_all ::
    "world \<Rightarrow> string list \<Rightarrow> client \<Rightarrow> 'e node \<Rightarrow> client \<times> 'e node" where
  "server_unsubscribe_all w [] c n = (c, n)"
| "server_unsubscribe_all w (ch # chs) c n =
     (let (c1, n1) = server_unsubscribe w ch c n in server_unsubscribe_all w chs c1 n1)"

definition handle_signal :: "world \<Rightarrow> signal \<Rightarrow> client \<Rightarrow> 'e node \<Rightarrow> 'e step_result" where
  "handle_signal w sig c n =
     (case sig of
        SigUnsubscribe ch \<Rightarrow>
          if ch = [] then
            (let (c1, n1) = server_unsubscribe_all w (subscribed_channels c) c n in (False, c1, n1))
          else (let (c1, n1) = server_unsubscribe w ch c n in (False, c1, n1))
      | SigDisconnect d \<Rightarrow> close_with w d c n)"

text \<open>The turn of the loop, given the frame handler of the transport.\<close>

definition loop_step ::
    "(world \<Rightarrow> bytes \<Rightarrow> client \<Rightarrow> 'e node \<Rightarrow> 'e step_result)
       \<Rightarrow> world \<Rightarrow> session_event \<Rightarrow> client \<Rightarrow> 'e node \<Rightarrow> 'e step_result" where
  "loop_step on_frame w ev c n =
     (case ev of
        EvFrame frame \<Rightarrow> on_frame w frame c n
      | EvOther \<Rightarrow> (False, c, n)
      | EvEnd \<Rightarrow> (True, c, n)
      | EvPresence \<Rightarrow> (False, c, refresh_presence w c n)
      | EvExpiry \<Rightarrow> expiry_tick w c n
      | EvSignal sig \<Rightarrow> handle_signal w sig c n
      | EvSignalClosed \<Rightarrow> (False, c, n))"

definition ws_step :: "world \<Rightarrow> session_event \<Rightarrow> client \<Rightarrow> 'e node \<Rightarrow> 'e step_result" where
  "ws_step w ev c n = loop_step ws_frame w ev c n"

definition sockjs_step :: "world \<Rightarrow> session_event \<Rightarrow> client \<Rightarrow> 'e node \<Rightarrow> 'e step_result" where
  "sockjs_step w ev c n = loop_step sockjs_frame w ev c n"

text \<open>Leaving the loop ends the session.\<close>

definition with_end :: "world \<Rightarrow> 'e step_result \<Rightarrow> 'e step_result" where
  "with_end w r =
     (let (left, c, n) = r in
      if left then (let (c1, n1) = on_disconnect w c n in (True, c1, n1)) else (False, c, n))"

definition ws_client :: "nat \<Rightarrow> nat \<Rightarrow> protocol_type \<Rightarrow> client" where
  "ws_client tx ctrl proto = set_ctrl ctrl (client_new tx proto)"

definition sockjs_client :: "nat \<Rightarrow> nat \<Rightarrow> client" where
  "sockjs_client tx ctrl = set_ctrl ctrl (set_transport ''sockjs'' (client_new tx Json))"

section \<open>The writer task\<close>

datatype ws_message = WsText bytes | WsBinary bytes | WsClose "16 word" string | WsPing

text \<open>
  \<open>take_frames k buf q\<close>: the \<open>try_recv\<close> loop with at most \<open>k\<close> more frames; what is still queued is
  a parameter of the turn.
\<close>

fun take_frames :: "nat \<Rightarrow> bytes \<Rightarrow> out list \<Rightarrow> bytes \<times> disconnect option \<times> out list" where
  "take_frames 0 buf q = (buf, None, q)"
| "take_frames (Suc k) buf [] = (buf, None, [])"
| "take_frames (Suc k) buf (Frame b # q) = take_frames k (buf @ b) q"
| "take_frames (Suc k) buf (Close d # q) = (buf, Some d, q)"

text \<open>\<open>close_text\<close> of a disconnect (\<open>disconnect.rs\<close>) is a parameter: it prints JSON.\<close>

definition writer_turn ::
    "(disconnect \<Rightarrow> string) \<Rightarrow> protocol_type \<Rightarrow> out list \<Rightarrow> (ws_message list \<times> bool \<times> out list) option"
  where
  "writer_turn close_text proto q =
     (case q of
        [] \<Rightarrow> None
      | Frame b # q' \<Rightarrow>
          (let (buf, pending, rest) = take_frames 3 b q';
               msg = (case proto of Json \<Rightarrow> WsText buf | Protobuf \<Rightarrow> WsBinary buf)
           in (case pending of
                 None \<Rightarrow> Some ([msg], False, rest)
               | Some d \<Rightarrow> Some ([msg, WsClose (ucast (dc_code d)) (close_text d)], True, rest)))
      | Close d # q' \<Rightarrow> Some ([WsClose (ucast (dc_code d)) (close_text d)], True, q'))"

end
