(* ===== verification/Samples.thy ===== *)
theory Samples
  imports Engine
begin

text \<open>
  Concrete instances of the parameters of the model, at which the witnesses evaluate: serializers
  that encode everything alike, a token library with one key, and a world whose queues accept
  everything.
\<close>

definition sample_serde :: "('d, 'p) serde" where
  "sample_serde =
     \<lparr>sd_json_dec = (\<lambda>b. None), sd_json_enc = (\<lambda>d. Some [123, 125]), sd_pb_dec = (\<lambda>b. None),
      sd_pb_enc = (\<lambda>p. [0])\<rparr>"

text \<open>A message type whose decoders always give one message.\<close>

definition decodes_to :: "'d \<Rightarrow> ('d, 'p) serde" where
  "decodes_to d = sample_serde\<lparr>sd_json_dec := (\<lambda>b. Some d)\<rparr>"

definition sample_wire :: wire where
  "sample_wire =
     \<lparr>w_json_commands = (\<lambda>b. []), w_json_command_enc = (\<lambda>c. Some [99]),
      w_json_replies = (\<lambda>b. []), w_json_reply_enc = (\<lambda>r. Some [114]),
      w_json_push_enc = (\<lambda>p. Some [112]), w_pb_command_dec = (\<lambda>b. None),
      w_pb_command_enc = (\<lambda>c. [99]), w_pb_reply_dec = (\<lambda>b. None), w_pb_reply_enc = (\<lambda>r. [114]),
      w_pb_push_enc = (\<lambda>p. [112]),
      w_connect_request = sample_serde, w_connect_result = sample_serde,
      w_subscribe_request = sample_serde, w_subscribe_result = sample_serde,
      w_publish_request = sample_serde, w_publish_result = sample_serde,
      w_unsubscribe_request = sample_serde, w_unsubscribe_result = sample_serde,
      w_ping_result = sample_serde, w_refresh_request = sample_serde,
      w_refresh_result = sample_serde, w_sub_refresh_request = sample_serde,
      w_sub_refresh_result = sample_serde, w_rpc_request = sample_serde,
      w_rpc_result = sample_serde, w_presence_request = sample_serde,
      w_presence_result = sample_serde, w_presence_stats_request = sample_serde,
      w_presence_stats_result = sample_serde, w_join_msg = sample_serde,
      w_leave_msg = sample_serde, w_history_request = sample_serde,
      w_history_result = sample_serde, w_publication = sample_serde\<rparr>"

definition sample_world :: world where
  "sample_world =
     \<lparr>wd_now = 1000, wd_now_ms = 1000000, wd_uuid = replicate 16 0, wd_uuid_string = ''u1'',
      wd_epoch_bytes = (\<lambda>ch. replicate 16 0), wd_hash = (\<lambda>s. of_nat (length s)),
      wd_wire = sample_wire, wd_jwt = sample_jwt, wd_tx = (\<lambda>lg q. SendOk),
      wd_ctrl = (\<lambda>lg q. SendOk)\<rparr>"

text \<open>The samples' fields, so that a witness never unfolds the whole records.\<close>

lemma sample_serde_simps [simp]:
  "sd_json_dec sample_serde = (\<lambda>b. None)" "sd_json_enc sample_serde = (\<lambda>d. Some [123, 125])"
  "sd_pb_dec sample_serde = (\<lambda>b. None)" "sd_pb_enc sample_serde = (\<lambda>p. [0])"
  "sd_json_dec (decodes_to d) = (\<lambda>b. Some d)" "sd_json_enc (decodes_to d) = (\<lambda>d. Some [123, 125])"
  by (simp_all add: sample_serde_def decodes_to_def)

lemma sample_wire_simps [simp]:
  "w_json_commands sample_wire = (\<lambda>b. [])" "w_json_reply_enc sample_wire = (\<lambda>r. Some [114])"
  "w_json_push_enc sample_wire = (\<lambda>p. Some [112])" "w_pb_reply_enc sample_wire = (\<lambda>r. [114])"
  "w_pb_push_enc sample_wire = (\<lambda>p. [112])" "w_pb_command_dec sample_wire = (\<lambda>b. None)"
  "w_connect_request sample_wire = sample_serde"
  "w_connect_result sample_wire = sample_serde"
  "w_subscribe_request sample_wire = sample_serde"
  "w_subscribe_result sample_wire = sample_serde"
  "w_publish_request sample_wire = sample_serde"
  "w_publish_result sample_wire = sample_serde"
  "w_unsubscribe_request sample_wire = sample_serde"
  "w_unsubscribe_result sample_wire = sample_serde"
  "w_ping_result sample_wire = sample_serde"
  "w_refresh_request sample_wire = sample_serde"
  "w_refresh_result sample_wire = sample_serde"
  "w_sub_refresh_request sample_wire = sample_serde"
  "w_sub_refresh_result sample_wire = sample_serde"
  "w_rpc_request sample_wire = sample_serde"
  "w_rpc_result sample_wire = sample_serde"
  "w_presence_request sample_wire = sample_serde"
  "w_presence_result sample_wire = sample_serde"
  "w_presence_stats_request sample_wire = sample_serde"
  "w_presence_stats_result sample_wire = sample_serde"
  "w_join_msg sample_wire = sample_serde"
  "w_leave_msg sample_wire = sample_serde"
  "w_history_request sample_wire = sample_serde"
  "w_history_result sample_wire = sample_serde"
  "w_publication sample_wire = sample_serde"
  by (simp_all add: sample_wire_def)

lemma sample_world_simps [simp]:
  "wd_now sample_world = 1000" "wd_uuid_string sample_world = ''u1''"
  "wd_wire sample_world = sample_wire" "wd_jwt sample_world = sample_jwt"
  "wd_tx sample_world = (\<lambda>lg q. SendOk)" "wd_ctrl sample_world = (\<lambda>lg q. SendOk)"
  "wd_hash sample_world = (\<lambda>s. of_nat (length s))"
  "wd_epoch_bytes sample_world = (\<lambda>ch. replicate 16 0)"
  by (simp_all add: sample_world_def)

end
