(* ===== verification/Fanout.thy ===== *)
theory Fanout
  imports Node Samples
begin

text \<open>
  What the fan-out of the node guarantees: each subscriber of the channel gets exactly one event,
  in the order of the snapshot, and only subscribers whose queue refuses the frame leave the hub;
  what any call of any engine may change in a node; the channel options a name resolves to; and the
  control commands.
\<close>

section \<open>One fan-out\<close>

definition proto_frame :: "bytes option \<Rightarrow> bytes option \<Rightarrow> client_handle \<Rightarrow> bytes option" where
  "proto_frame jf pf s = (case ch_proto s of Json \<Rightarrow> jf | Protobuf \<Rightarrow> pf)"

lemma deliver_one_cases:
  assumes "hub_get h (ch_id s) = Some s"
  shows "deliver_one w jf pf s (h, lg) =
    (case proto_frame jf pf s of
       None \<Rightarrow> (h, lg)
     | Some b \<Rightarrow>
         if wd_tx w lg (ch_tx s) = SendOk then (h, lg @ [Tx (ch_tx s) (Frame b)])
         else (snd (hub_remove (ch_id s) h), lg @ [SpawnClose (ch_tx s) dc_slow]))"
proof -
  have "fst (hub_remove (ch_id s) h)" using assms hub_remove_fst by simp
  then show ?thesis
    by (auto simp: deliver_one_def proto_frame_def split_def Let_def split: option.split send_result.split)
qed

text \<open>
  What one subscriber \<open>s\<close> gets when the log is \<open>lg\<close>: its frame, keeping its place in the hub, or,
  when its queue refuses, a close for slowness and its removal.
\<close>

definition served ::
    "world \<Rightarrow> (client_handle \<Rightarrow> bytes) \<Rightarrow> hub \<Rightarrow> hub \<Rightarrow> effect list \<Rightarrow> client_handle \<Rightarrow> effect \<Rightarrow> bool"
  where
  "served w b h h' lg s e \<longleftrightarrow>
     (if wd_tx w lg (ch_tx s) = SendOk
      then e = Tx (ch_tx s) (Frame (b s)) \<and> hub_get h' (ch_id s) = Some s \<and>
           (\<forall>c. ch_id s \<in> sub_ids w h' c \<longleftrightarrow> ch_id s \<in> sub_ids w h c)
      else e = SpawnClose (ch_tx s) dc_slow \<and> hub_get h' (ch_id s) = None \<and>
           (\<forall>c. ch_id s \<notin> sub_ids w h' c))"

definition untouched :: "world \<Rightarrow> hub \<Rightarrow> hub \<Rightarrow> string set \<Rightarrow> bool" where
  "untouched w h h' A \<longleftrightarrow>
     (\<forall>i. i \<notin> A \<longrightarrow> hub_get h' i = hub_get h i \<and> (\<forall>c. i \<in> sub_ids w h' c \<longleftrightarrow> i \<in> sub_ids w h c))"

definition fanned_out ::
    "world \<Rightarrow> (client_handle \<Rightarrow> bytes) \<Rightarrow> client_handle list \<Rightarrow> hub \<Rightarrow> effect list \<Rightarrow> hub
       \<Rightarrow> effect list \<Rightarrow> bool" where
  "fanned_out w b hs h lg h' evs \<longleftrightarrow>
     hub_wf w h' \<and> untouched w h h' (ch_id ` set hs) \<and> length evs = length hs \<and>
     (\<forall>k < length hs. served w b h h' (lg @ take k evs) (hs ! k) (evs ! k))"

lemma fanned_out_Cons:
  assumes "fanned_out w b hs h1 (lg @ [e]) h' evs" "untouched w h h1 {ch_id s}"
    and "ch_id s \<notin> ch_id ` set hs" "served w b h h' lg s e"
  shows "fanned_out w b (s # hs) h lg h' (e # evs)"
proof -
  have un: "untouched w h h' (ch_id ` set (s # hs))"
    using assms(1,2) by (auto simp: fanned_out_def untouched_def)
  have "served w b h h' (lg @ take k (e # evs)) ((s # hs) ! k) ((e # evs) ! k)"
    if k: "k < length (s # hs)" for k
  proof (cases k)
    case 0
    then show ?thesis using assms(4) by simp
  next
    case (Suc j)
    with k have j: "j < length hs" by simp
    then have "ch_id (hs ! j) \<noteq> ch_id s" using assms(3) by (metis image_eqI nth_mem)
    then have same: "ch_id (hs ! j) \<in> sub_ids w h1 c \<longleftrightarrow> ch_id (hs ! j) \<in> sub_ids w h c" for c
      using assms(2) by (simp add: untouched_def)
    have "served w b h1 h' ((lg @ [e]) @ take j evs) (hs ! j) (evs ! j)"
      using assms(1) j by (simp add: fanned_out_def)
    with Suc show ?thesis by (simp add: served_def same)
  qed
  with un assms(1) show ?thesis by (simp add: fanned_out_def)
qed

lemma fold_deliver:
  assumes "hub_wf w h" "distinct (map ch_id hs)" "\<forall>s \<in> set hs. hub_get h (ch_id s) = Some s"
    and "\<forall>s \<in> set hs. proto_frame jf pf s = Some (b s)"
  shows "\<exists>h' evs. fold (deliver_one w jf pf) hs (h, lg) = (h', lg @ evs) \<and> fanned_out w b hs h lg h' evs"
  using assms
proof (induction hs arbitrary: h lg)
  case Nil
  then show ?case by (simp add: fanned_out_def untouched_def)
next
  case (Cons s hs)
  define ok where "ok \<longleftrightarrow> wd_tx w lg (ch_tx s) = SendOk"
  define e where "e = (if ok then Tx (ch_tx s) (Frame (b s)) else SpawnClose (ch_tx s) dc_slow)"
  define h1 where "h1 = (if ok then h else snd (hub_remove (ch_id s) h))"
  have s: "hub_get h (ch_id s) = Some s" "proto_frame jf pf s = Some (b s)" "ch_id s \<notin> ch_id ` set hs"
    "distinct (map ch_id hs)"
    by (rule bspec [OF Cons.prems(3)], simp, rule bspec [OF Cons.prems(4)], simp)
       (use Cons.prems(2) in simp_all)
  have step: "deliver_one w jf pf s (h, lg) = (h1, lg @ [e])"
    by (simp add: deliver_one_cases [OF s(1)] s(2) h1_def e_def ok_def)
  have wf1: "hub_wf w h1" using Cons.prems(1) by (simp add: h1_def hub_remove_wf)
  have get1: "hub_get h1 i = (if \<not> ok \<and> i = ch_id s then None else hub_get h i)" for i
    by (simp add: h1_def hub_get_remove)
  have ids1: "sub_ids w h1 c = (if ok then sub_ids w h c else sub_ids w h c - {ch_id s})" for c
    by (simp add: h1_def sub_ids_remove [OF Cons.prems(1)])
  have un1: "untouched w h h1 {ch_id s}" by (simp add: untouched_def get1 ids1)
  have conn1: "\<forall>x \<in> set hs. hub_get h1 (ch_id x) = Some x"
  proof
    fix x assume "x \<in> set hs"
    moreover from this s(3) have "ch_id x \<noteq> ch_id s" by (metis imageI)
    ultimately show "hub_get h1 (ch_id x) = Some x" using bspec [OF Cons.prems(3)] by (simp add: get1)
  qed
  have fr1: "\<forall>x \<in> set hs. proto_frame jf pf x = Some (b x)" using Cons.prems(4) by simp
  from Cons.IH [OF wf1 s(4) conn1 fr1, of "lg @ [e]"] obtain h' evs where
    run: "fold (deliver_one w jf pf) hs (h1, lg @ [e]) = (h', (lg @ [e]) @ evs)"
    and fo: "fanned_out w b hs h1 (lg @ [e]) h' evs" by blast
  have "hub_get h' (ch_id s) = hub_get h1 (ch_id s)"
    "\<forall>c. ch_id s \<in> sub_ids w h' c \<longleftrightarrow> ch_id s \<in> sub_ids w h1 c"
    using fo s(3) unfolding fanned_out_def untouched_def by blast+
  then have "served w b h h' lg s e"
    using s(1) by (simp add: served_def e_def get1 ids1 ok_def)
  from fanned_out_Cons [OF fo un1 s(3) this] run step show ?case
    by (intro exI [of _ h'] exI [of _ "e # evs"]) simp
qed

lemma subscribers_conn:
  "hub_wf w h \<Longrightarrow> s \<in> set (subscribers w h c) \<Longrightarrow> hub_get h (ch_id s) = Some s"
  using hub_wf_conn_id by (auto simp: subscribers_set)


definition push_frame_of ::
    "world \<Rightarrow> 'd wire_type \<Rightarrow> string \<Rightarrow> push_type \<Rightarrow> 'd \<Rightarrow> client_handle \<Rightarrow> bytes option" where
  "push_frame_of w T channel ptype inner s = make_push_frame w T (ch_proto s) channel ptype inner"

lemma deliver_push_fanned:
  assumes "hub_wf w h"
    and "\<forall>s \<in> set (subscribers w h c). push_frame_of w T c pt inner s = Some (b s)"
  shows "\<exists>h' evs. deliver_push w T c pt inner (h, lg) = (h', lg @ evs) \<and>
    fanned_out w b (subscribers w h c) h lg h' evs"
proof -
  have "proto_frame (make_push_frame w T Json c pt inner) (make_push_frame w T Protobuf c pt inner) s =
      push_frame_of w T c pt inner s" for s
    by (simp add: proto_frame_def push_frame_of_def split: protocol_type.split)
  with fold_deliver [OF assms(1) hub.listeners_distinct [OF assms(1)], of c
      "make_push_frame w T Json c pt inner" "make_push_frame w T Protobuf c pt inner" b lg]
  show ?thesis
    using assms subscribers_conn [OF assms(1)] by (simp add: deliver_push_def Let_def)
qed

section \<open>What an engine call may change\<close>

text \<open>
  Nothing but the registry, the metrics, the hub, the engine and the log; in the hub only
  connections disappear, with all their subscriptions, and each one that was there gets a close.
\<close>

definition same_config :: "'e node \<Rightarrow> 'e node \<Rightarrow> bool" where
  "same_config n n' \<longleftrightarrow>
     (\<exists>r m h e lg. n' = n\<lparr>nd_registry := r, nd_metrics := m, nd_hub := h, nd_engine := e, nd_log := lg\<rparr>)"

definition shrinks :: "world \<Rightarrow> hub \<Rightarrow> effect list \<Rightarrow> hub \<Rightarrow> effect list \<Rightarrow> bool" where
  "shrinks w h lg h' lg' \<longleftrightarrow>
     (hub_wf w h \<longrightarrow> hub_wf w h' \<and>
        (\<exists>evs S. lg' = lg @ evs \<and>
           (\<forall>i. hub_get h' i = (if i \<in> S then None else hub_get h i)) \<and>
           (\<forall>c. sub_ids w h' c = sub_ids w h c - S) \<and>
           (\<forall>i \<in> S. \<exists>x. hub_get h i = Some x \<and> SpawnClose (ch_tx x) dc_slow \<in> set evs)))"

definition node_shrinks :: "world \<Rightarrow> 'e node \<Rightarrow> 'e node \<Rightarrow> bool" where
  "node_shrinks w n n' \<longleftrightarrow>
     same_config n n' \<and> shrinks w (nd_hub n) (nd_log n) (nd_hub n') (nd_log n')"

lemma same_config_refl [simp]: "same_config n n"
  unfolding same_config_def
  by (rule exI [of _ "nd_registry n"], rule exI [of _ "nd_metrics n"], rule exI [of _ "nd_hub n"],
      rule exI [of _ "nd_engine n"], rule exI [of _ "nd_log n"]) simp

lemma same_config_trans: "same_config n n' \<Longrightarrow> same_config n' n'' \<Longrightarrow> same_config n n''"
  unfolding same_config_def by (elim exE) (simp, blast)

lemma shrinks_refl [simp]: "shrinks w h lg h lg"
  unfolding shrinks_def by (auto intro: exI [of _ "{}"])

lemma shrinks_trans:
  assumes "shrinks w h lg h1 lg1" "shrinks w h1 lg1 h2 lg2"
  shows "shrinks w h lg h2 lg2"
  unfolding shrinks_def
proof
  assume wf: "hub_wf w h"
  with assms(1) obtain evs S where 1: "hub_wf w h1" "lg1 = lg @ evs"
    "\<And>i. hub_get h1 i = (if i \<in> S then None else hub_get h i)"
    "\<And>c. sub_ids w h1 c = sub_ids w h c - S"
    "\<And>i. i \<in> S \<Longrightarrow> \<exists>x. hub_get h i = Some x \<and> SpawnClose (ch_tx x) dc_slow \<in> set evs"
    unfolding shrinks_def by blast
  with assms(2) obtain evs2 S2 where 2: "hub_wf w h2" "lg2 = lg1 @ evs2"
    "\<And>i. hub_get h2 i = (if i \<in> S2 then None else hub_get h1 i)"
    "\<And>c. sub_ids w h2 c = sub_ids w h1 c - S2"
    "\<And>i. i \<in> S2 \<Longrightarrow> \<exists>x. hub_get h1 i = Some x \<and> SpawnClose (ch_tx x) dc_slow \<in> set evs2"
    unfolding shrinks_def by blast
  have "\<exists>x. hub_get h i = Some x \<and> SpawnClose (ch_tx x) dc_slow \<in> set (evs @ evs2)"
    if "i \<in> S \<union> S2" for i
    using that 1(3,5) [of i] 2(5) [of i] by (cases "i \<in> S") auto
  moreover have "hub_get h2 i = (if i \<in> S \<union> S2 then None else hub_get h i)" for i
    by (simp add: 1(3) 2(3))
  moreover have "sub_ids w h2 c = sub_ids w h c - (S \<union> S2)" for c by (auto simp: 1(4) 2(4))
  moreover have "lg2 = lg @ (evs @ evs2)" by (simp add: 1(2) 2(2))
  ultimately show "hub_wf w h2 \<and> (\<exists>evs S. lg2 = lg @ evs \<and>
           (\<forall>i. hub_get h2 i = (if i \<in> S then None else hub_get h i)) \<and>
           (\<forall>c. sub_ids w h2 c = sub_ids w h c - S) \<and>
           (\<forall>i \<in> S. \<exists>x. hub_get h i = Some x \<and> SpawnClose (ch_tx x) dc_slow \<in> set evs))"
    using 2(1) by blast
qed

lemma shrinks_log: "shrinks w h lg h (lg @ evs)"
  unfolding shrinks_def by (auto intro: exI [of _ "{}"])

lemma node_shrinks_refl [simp]: "node_shrinks w n n"
  by (simp add: node_shrinks_def)

lemma node_shrinks_trans: "node_shrinks w n n' \<Longrightarrow> node_shrinks w n' n'' \<Longrightarrow> node_shrinks w n n''"
  unfolding node_shrinks_def using same_config_trans shrinks_trans by blast

lemma deliver_one_shrinks:
  assumes "hub_get h (ch_id s) = Some s" "deliver_one w jf pf s (h, lg) = (h1, lg1)"
  shows "shrinks w h lg h1 lg1" "\<forall>i. i \<noteq> ch_id s \<longrightarrow> hub_get h1 i = hub_get h i"
proof -
  consider "h1 = h" "\<exists>evs. lg1 = lg @ evs"
    | "h1 = snd (hub_remove (ch_id s) h)" "lg1 = lg @ [SpawnClose (ch_tx s) dc_slow]"
    using assms by (auto simp: deliver_one_cases split: option.splits if_splits)
  then have "shrinks w h lg h1 lg1 \<and> (\<forall>i. i \<noteq> ch_id s \<longrightarrow> hub_get h1 i = hub_get h i)"
  proof cases
    case 1
    then show ?thesis using shrinks_log by auto
  next
    case 2
    then show ?thesis
      using assms(1) hub_remove_wf [of w h "ch_id s"] sub_ids_remove [of w h "ch_id s"]
      unfolding shrinks_def
      by (auto simp: hub_get_remove intro!: exI [of _ "{ch_id s}"])
  qed
  then show "shrinks w h lg h1 lg1" "\<forall>i. i \<noteq> ch_id s \<longrightarrow> hub_get h1 i = hub_get h i" by blast+
qed

lemma fold_deliver_shrinks:
  assumes "distinct (map ch_id hs)" "\<forall>s \<in> set hs. hub_get h (ch_id s) = Some s"
    and "fold (deliver_one w jf pf) hs (h, lg) = (h', lg')"
  shows "shrinks w h lg h' lg'"
  using assms
proof (induction hs arbitrary: h lg)
  case (Cons s hs)
  obtain h1 lg1 where step: "deliver_one w jf pf s (h, lg) = (h1, lg1)" by fastforce
  have s: "hub_get h (ch_id s) = Some s" by (rule bspec [OF Cons.prems(2)]) simp
  note one = deliver_one_shrinks [OF s step]
  have "\<forall>x \<in> set hs. hub_get h1 (ch_id x) = Some x"
  proof
    fix x assume x: "x \<in> set hs"
    with Cons.prems(1) have "ch_id x \<noteq> ch_id s" by (metis distinct.simps(2) imageI list.simps(9) set_map)
    with one(2) bspec [OF Cons.prems(2), of x] x show "hub_get h1 (ch_id x) = Some x" by simp
  qed
  with Cons.IH [of h1 lg1] Cons.prems step have "shrinks w h1 lg1 h' lg'" by simp
  with one(1) show ?case by (rule shrinks_trans)
qed simp

lemma deliver_push_shrinks:
  assumes "deliver_push w T c pt inner (h, lg) = (h', lg')"
  shows "shrinks w h lg h' lg'"
proof (cases "hub_wf w h")
  case True
  then have "\<forall>s \<in> set (subscribers w h c). hub_get h (ch_id s) = Some s"
    using subscribers_conn by blast
  from fold_deliver_shrinks [OF hub.listeners_distinct [OF True] this] assms
  show ?thesis by (simp add: deliver_push_def Let_def)
qed (simp add: shrinks_def)

lemma deliver_node_shrinks: "node_shrinks w n (deliver_node w T c pt inner n)"
proof -
  obtain h lg where d: "deliver_push w T c pt inner (nd_hub n, nd_log n) = (h, lg)" by fastforce
  have "same_config n (n\<lparr>nd_hub := h, nd_log := lg\<rparr>)"
    unfolding same_config_def
    by (rule exI [of _ "nd_registry n"], rule exI [of _ "nd_metrics n"], rule exI [of _ h],
        rule exI [of _ "nd_engine n"], rule exI [of _ lg]) simp
  with deliver_push_shrinks [OF d] d show ?thesis by (simp add: deliver_node_def node_shrinks_def)
qed

lemma signal_one_log: "\<exists>evs. signal_one w sig h lg = lg @ evs"
  by (auto simp: signal_one_def split: option.split send_result.split)

lemma fold_log:
  assumes "\<And>x lg. \<exists>evs. f x lg = lg @ (evs :: effect list)"
  shows "\<exists>evs. fold f xs lg = lg @ evs"
proof (induction xs arbitrary: lg)
  case (Cons x xs)
  obtain e1 where "f x lg = lg @ e1" using assms by blast
  moreover obtain e2 where "fold f xs (lg @ e1) = (lg @ e1) @ e2" using Cons by blast
  ultimately show ?case by simp
qed simp

lemma apply_control_shrinks: "node_shrinks w n (apply_control w cmd n)"
proof -
  have "\<exists>r evs. apply_control w cmd n = n\<lparr>nd_registry := r, nd_log := nd_log n @ evs\<rparr>"
  proof (cases cmd)
    case (CmUnsubscribe user ch)
    obtain evs where "fold (signal_one w (SigUnsubscribe ch)) (user_clients (nd_hub n) user) (nd_log n) = nd_log n @ evs"
      using fold_log signal_one_log by metis
    with CmUnsubscribe show ?thesis
      by (intro exI [of _ "nd_registry n"] exI [of _ evs]) (simp add: apply_control_def)
  next
    case (CmDisconnect user code reason reconnect whitelist)
    have "\<exists>evs. (if ch_id h \<in> set whitelist then lg
        else signal_one w (SigDisconnect (disconnect_new code reason reconnect)) h lg) = lg @ evs" for h lg
      using signal_one_log by auto
    then obtain evs where "fold (\<lambda>h lg. if ch_id h \<in> set whitelist then lg
        else signal_one w (SigDisconnect (disconnect_new code reason reconnect)) h lg)
        (user_clients (nd_hub n) user) (nd_log n) = nd_log n @ evs"
      using fold_log [of "\<lambda>h lg. if ch_id h \<in> set whitelist then lg
        else signal_one w (SigDisconnect (disconnect_new code reason reconnect)) h lg"] by blast
    with CmDisconnect show ?thesis
      by (intro exI [of _ "nd_registry n"] exI [of _ evs]) (simp add: apply_control_def)
  next
    case (CmNode info)
    then show ?thesis
      by (intro exI [of _ "registry_add w info (nd_registry n)"] exI [of _ "[]"])
         (simp add: apply_control_def)
  qed
  then obtain r evs where n': "apply_control w cmd n = n\<lparr>nd_registry := r, nd_log := nd_log n @ evs\<rparr>"
    by blast
  have "same_config n (n\<lparr>nd_registry := r, nd_log := nd_log n @ evs\<rparr>)"
    unfolding same_config_def
    by (rule exI [of _ r], rule exI [of _ "nd_metrics n"], rule exI [of _ "nd_hub n"],
        rule exI [of _ "nd_engine n"], rule exI [of _ "nd_log n @ evs"]) simp
  with n' shrinks_log show ?thesis by (simp add: node_shrinks_def)
qed

lemma route_message_shrinks: "node_shrinks w n (route_message w msg n)"
  by (cases msg) (simp_all add: route_message_def deliver_node_shrinks apply_control_shrinks)

lemma route_messages_shrinks: "node_shrinks w n (fold (route_message w) msgs n)"
proof (induction msgs arbitrary: n)
  case (Cons msg msgs)
  show ?case using node_shrinks_trans [OF route_message_shrinks Cons] by simp
qed simp

lemma engine_change_shrinks: "node_shrinks w n (n\<lparr>nd_engine := e\<rparr>)"
proof -
  have "same_config n (n\<lparr>nd_engine := e\<rparr>)"
    unfolding same_config_def
    by (rule exI [of _ "nd_registry n"], rule exI [of _ "nd_metrics n"], rule exI [of _ "nd_hub n"],
        rule exI [of _ e], rule exI [of _ "nd_log n"]) simp
  then show ?thesis by (simp add: node_shrinks_def)
qed

lemma call_engine_shrinks: "node_shrinks w n (snd (call_engine w f n))"
  using node_shrinks_trans [OF engine_change_shrinks route_messages_shrinks]
  by (simp add: call_engine_def split_def Let_def)

lemma metrics_change_shrinks: "node_shrinks w n (n\<lparr>nd_metrics := m\<rparr>)"
proof -
  have "same_config n (n\<lparr>nd_metrics := m\<rparr>)"
    unfolding same_config_def
    by (rule exI [of _ "nd_registry n"], rule exI [of _ m], rule exI [of _ "nd_hub n"],
        rule exI [of _ "nd_engine n"], rule exI [of _ "nd_log n"]) simp
  then show ?thesis by (simp add: node_shrinks_def)
qed

lemma case_call_shrinks:
  "node_shrinks w n (snd r) \<Longrightarrow>
   node_shrinks w n (snd (case r of (Some a, m) \<Rightarrow> (a, m) | (None, m) \<Rightarrow> (d, m)))"
  by (cases r) (simp split: option.split)

lemma node_ops_shrink:
  "node_shrinks w n (node_add_presence w c i info n)"
  "node_shrinks w n (node_remove_presence w c i n)"
  "node_shrinks w n (snd (node_presence w c n))"
  "node_shrinks w n (snd (node_presence_stats w c n))"
  "node_shrinks w n (node_publish_join w c info n)"
  "node_shrinks w n (node_publish_leave w c info n)"
  "node_shrinks w n (node_publish w c data who n)"
  "node_shrinks w n (snd (node_history w c n))"
  "node_shrinks w n (snd (node_history_since w c off ep n))"
  "node_shrinks w n (node_remove_history w c n)"
  "node_shrinks w n (unsubscribe_user w user c n)"
  "node_shrinks w n (disconnect_user w user code reason n)"
proof -
  show "node_shrinks w n (node_add_presence w c i info n)"
    "node_shrinks w n (node_remove_presence w c i n)"
    "node_shrinks w n (node_remove_history w c n)"
    unfolding node_add_presence_def node_remove_presence_def node_remove_history_def
    by (rule call_engine_shrinks)+
  show "node_shrinks w n (snd (node_presence w c n))"
    "node_shrinks w n (snd (node_presence_stats w c n))"
    "node_shrinks w n (snd (node_history w c n))"
    "node_shrinks w n (snd (node_history_since w c off ep n))"
    unfolding node_presence_def node_presence_stats_def node_history_def node_history_since_def
    by (rule case_call_shrinks [OF call_engine_shrinks])+
  show "node_shrinks w n (node_publish_join w c info n)"
    "node_shrinks w n (node_publish_leave w c info n)"
    "node_shrinks w n (node_publish w c data who n)"
    unfolding node_publish_join_def node_publish_leave_def node_publish_def node_count_message_def Let_def
    by (rule node_shrinks_trans [OF metrics_change_shrinks call_engine_shrinks])+
  show "node_shrinks w n (unsubscribe_user w user c n)"
    "node_shrinks w n (disconnect_user w user code reason n)"
    unfolding unsubscribe_user_def disconnect_user_def Let_def
    by (rule node_shrinks_trans [OF apply_control_shrinks call_engine_shrinks])+
qed

section \<open>Channel names\<close>

lemma unpack_offset_value:
  "unat (snd (unpack_offset v)) * 2 ^ 32 + unat (fst (unpack_offset v)) = unat v"
proof -
  have "unat v < 2 ^ 64" using unsigned_less [of v, where 'a = nat] by simp
  then have "unat v div 2 ^ 32 < 2 ^ 32" by (simp add: less_mult_imp_div_less)
  moreover have "unat (drop_bit 32 v) = unat v div 2 ^ 32"
    by (simp add: drop_bit_eq_div unat_div)
  ultimately have "unat (ucast (drop_bit 32 v) :: u32) = unat v div 2 ^ 32"
    by (simp add: unsigned_ucast_eq take_bit_nat_eq_self)
  moreover have "unat (ucast v :: u32) = unat v mod 2 ^ 32"
    by (simp add: unsigned_ucast_eq take_bit_eq_mod)
  ultimately show ?thesis by (simp add: unpack_offset_def)
qed

section \<open>Control commands\<close>

lemma fold_signals:
  assumes "\<And>h lg. f h lg = (if P h then signal_one w sig h lg else lg)"
  shows "\<exists>evs. fold f hs lg = lg @ evs \<and>
    (\<forall>e \<in> set evs. \<exists>h \<in> set hs. P h \<and> (\<exists>q. ch_ctrl h = Some q \<and> e = Ctrl q sig)) \<and>
    ((\<forall>lg q. wd_ctrl w lg q = SendOk) \<longrightarrow>
       (\<forall>h \<in> set hs. P h \<longrightarrow> (\<forall>q. ch_ctrl h = Some q \<longrightarrow> Ctrl q sig \<in> set evs)))"
proof (induction hs arbitrary: lg)
  case (Cons h hs)
  define e1 where "e1 = (case ch_ctrl h of
      Some q \<Rightarrow> if P h \<and> wd_ctrl w lg q = SendOk then [Ctrl q sig] else [] | None \<Rightarrow> [])"
  have step: "f h lg = lg @ e1"
    by (auto simp: assms e1_def signal_one_def split: option.split send_result.split)
  from Cons [of "lg @ e1"] obtain evs where evs: "fold f hs (lg @ e1) = (lg @ e1) @ evs"
    "\<forall>e \<in> set evs. \<exists>h \<in> set hs. P h \<and> (\<exists>q. ch_ctrl h = Some q \<and> e = Ctrl q sig)"
    "(\<forall>lg q. wd_ctrl w lg q = SendOk) \<longrightarrow>
       (\<forall>h \<in> set hs. P h \<longrightarrow> (\<forall>q. ch_ctrl h = Some q \<longrightarrow> Ctrl q sig \<in> set evs))" by blast
  have "\<forall>e \<in> set (e1 @ evs). \<exists>x \<in> set (h # hs). P x \<and> (\<exists>q. ch_ctrl x = Some q \<and> e = Ctrl q sig)"
    using evs(2) by (auto simp: e1_def split: option.splits if_splits)
  moreover have "(\<forall>lg q. wd_ctrl w lg q = SendOk) \<longrightarrow>
      (\<forall>x \<in> set (h # hs). P x \<longrightarrow> (\<forall>q. ch_ctrl x = Some q \<longrightarrow> Ctrl q sig \<in> set (e1 @ evs)))"
    using evs(3) by (auto simp: e1_def)
  moreover have "fold f (h # hs) lg = lg @ (e1 @ evs)" using step evs(1) by simp
  ultimately show ?case by blast
qed simp

lemma user_clients_set:
  assumes "hub_wf w h"
  shows "set (user_clients h u) = {x. hub_get h (ch_id x) = Some x \<and> ch_user x = u}"
proof -
  have "set (user_clients h u) = {x. \<exists>i \<in> user_ids h u. hub_get h i = Some x}"
    by (auto simp: user_clients_def user_ids_def hm_get_or_def map_filter_set hub_get_def
        split: option.splits)
  moreover have "(\<exists>i \<in> user_ids h u. hub_get h i = Some x) \<longleftrightarrow>
      hub_get h (ch_id x) = Some x \<and> ch_user x = u" for x
  proof -
    have "i \<in> user_ids h u \<longleftrightarrow> ch_user x = u" if "hub_get h i = Some x" for i
      using assms that by (simp add: hub_wf_def users_wf_def hub_get_def)
    then show ?thesis using hub_wf_conn_id [OF assms, of _ x] by blast
  qed
  ultimately show ?thesis by simp
qed

section \<open>Properties\<close>

text \<open>
  C1: a push is offered to every subscriber of the channel exactly once, in the order of the
  snapshot: a subscriber whose queue accepts it gets the frame of its own protocol and keeps its
  place in the hub; one whose queue is full or closed is removed from the hub with all its
  subscriptions and gets a close with code 3008; every other connection is left as it was.
\<close>

theorem deliver_push_exact:
  assumes "hub_wf w h"
    and "\<forall>s \<in> set (subscribers w h c). push_frame_of w T c pt inner s = Some (b s)"
    and "deliver_push w T c pt inner (h, lg) = (h', lg')"
  shows "\<exists>evs. lg' = lg @ evs \<and> length evs = length (subscribers w h c) \<and> hub_wf w h' \<and>
    (\<forall>k < length (subscribers w h c).
       let s = subscribers w h c ! k in
       if wd_tx w (lg @ take k evs) (ch_tx s) = SendOk
       then evs ! k = Tx (ch_tx s) (Frame (b s)) \<and> hub_get h' (ch_id s) = Some s
       else evs ! k = SpawnClose (ch_tx s) dc_slow \<and> hub_get h' (ch_id s) = None \<and>
            (\<forall>c'. ch_id s \<notin> sub_ids w h' c')) \<and>
    (\<forall>i. i \<notin> sub_ids w h c \<longrightarrow> hub_get h' i = hub_get h i \<and>
       (\<forall>c'. i \<in> sub_ids w h' c' \<longleftrightarrow> i \<in> sub_ids w h c'))"
proof -
  from deliver_push_fanned [OF assms(1,2), of lg] assms(3) obtain evs where
    lg': "lg' = lg @ evs" and fo: "fanned_out w b (subscribers w h c) h lg h' evs" by auto
  have "ch_id ` set (subscribers w h c) \<subseteq> sub_ids w h c"
    using hub_wf_conn_id [OF assms(1)] by (auto simp: subscribers_set)
  then have "\<forall>i. i \<notin> sub_ids w h c \<longrightarrow> hub_get h' i = hub_get h i \<and>
      (\<forall>c'. i \<in> sub_ids w h' c' \<longleftrightarrow> i \<in> sub_ids w h c')"
    using fo unfolding fanned_out_def untouched_def by blast
  moreover have "\<forall>k < length (subscribers w h c).
       let s = subscribers w h c ! k in
       if wd_tx w (lg @ take k evs) (ch_tx s) = SendOk
       then evs ! k = Tx (ch_tx s) (Frame (b s)) \<and> hub_get h' (ch_id s) = Some s
       else evs ! k = SpawnClose (ch_tx s) dc_slow \<and> hub_get h' (ch_id s) = None \<and>
            (\<forall>c'. ch_id s \<notin> sub_ids w h' c')"
    using fo by (simp add: fanned_out_def served_def Let_def split: if_splits)
  ultimately show ?thesis using fo lg' unfolding fanned_out_def by (intro exI [of _ evs]) simp
qed

definition sample_handle :: client_handle where
  "sample_handle = \<lparr>ch_id = ''u1'', ch_user = ''bob'', ch_proto = Json, ch_tx = 7, ch_ctrl = Some 8\<rparr>"

lemma sample_handle_simps [simp]:
  "ch_id sample_handle = ''u1''" "ch_user sample_handle = ''bob''" "ch_proto sample_handle = Json"
  "ch_tx sample_handle = 7" "ch_ctrl sample_handle = Some 8"
  by (simp_all add: sample_handle_def)

definition sample_hub :: hub where
  "sample_hub = hub_subscribe sample_world ''u1'' ''news'' (hub_add sample_handle hub_new)"

lemma sample_hub_wf: "hub_wf sample_world sample_hub"
  unfolding sample_hub_def
  by (intro wf_intros hub_new_wf) (simp add: hub_new_def sample_handle_def)

lemma sample_subscribers: "subscribers sample_world sample_hub ''news'' = [sample_handle]"
  by code_simp

theorem deliver_push_exact_witness:
  "\<exists>evs. snd (deliver_push sample_world (wire_join_msg sample_wire) ''news'' PtJoin
       \<lparr>jm_info = client_info_default\<rparr> (sample_hub, [])) = [] @ evs \<and> length evs = 1"
proof -
  have "\<forall>s \<in> set (subscribers sample_world sample_hub ''news'').
      push_frame_of sample_world (wire_join_msg sample_wire) ''news'' PtJoin
        \<lparr>jm_info = client_info_default\<rparr> s = Some [114, 10]"
    by (simp add: sample_subscribers push_frame_of_def make_push_frame_def sample_handle_def
        encode_result_def wire_join_msg_def wire_impl_def encode_push_frame_def encode_replies_def)
  from deliver_push_exact [OF sample_hub_wf this, of "[]"] show ?thesis
    by (metis One_nat_def length_Cons list.size(3) sample_subscribers prod.collapse)
qed

text \<open>
  C11: whatever an engine does in a call (its result, its new state and the messages it hands back
  are arbitrary), the node keeps its configuration, the hub stays well formed, the log only grows,
  and a connection leaves the hub only together with a close with code 3008 queued for it.
\<close>

theorem engine_call_safe:
  assumes "hub_wf w (nd_hub n)"
  shows "same_config n (snd (call_engine w f n)) \<and>
    hub_wf w (nd_hub (snd (call_engine w f n))) \<and>
    (\<exists>evs. nd_log (snd (call_engine w f n)) = nd_log n @ evs \<and>
       (\<forall>i x. hub_get (nd_hub n) i = Some x \<longrightarrow>
          hub_get (nd_hub (snd (call_engine w f n))) i = Some x \<or>
          SpawnClose (ch_tx x) dc_slow \<in> set evs))"
proof -
  note s = call_engine_shrinks [of w n f, unfolded node_shrinks_def]
  from s assms obtain evs S where
    "hub_wf w (nd_hub (snd (call_engine w f n)))" "nd_log (snd (call_engine w f n)) = nd_log n @ evs"
    "\<forall>i. hub_get (nd_hub (snd (call_engine w f n))) i = (if i \<in> S then None else hub_get (nd_hub n) i)"
    "\<forall>i \<in> S. \<exists>x. hub_get (nd_hub n) i = Some x \<and> SpawnClose (ch_tx x) dc_slow \<in> set evs"
    unfolding shrinks_def by blast
  with s show ?thesis by (metis option.inject)
qed

definition sample_node :: "memory_engine node" where
  "sample_node = (node_new sample_world)\<lparr>nd_hub := sample_hub\<rparr>"

lemma sample_node_simps [simp]:
  "nd_hub sample_node = sample_hub" "nd_log sample_node = []" "nd_engine_ops sample_node = memory_ops"
  "nd_engine sample_node = memory_engine_new" "nd_use_seq_gen sample_node = True"
  "nd_namespaces sample_node = namespaces_default" "nd_client_insecure sample_node = True"
  by (simp_all add: sample_node_def node_new_def node_new_with_def node_new_with_engine_def
      default_use_seq_gen_def Let_def)

theorem engine_call_safe_witness:
  "hub_wf sample_world (nd_hub (snd (call_engine sample_world
     (mem_publish sample_world ''news'' [1] None publish_options_default) sample_node)))"
  using engine_call_safe [of sample_world sample_node
      "mem_publish sample_world ''news'' [1] None publish_options_default"] sample_hub_wf
  by (simp add: sample_node_def)

text \<open>
  With the default separators, a channel name resolves by what precedes its first colon,
  after one leading dollar sign: without a colon to the top-level options, with one to the options
  of the namespace of that name, and to nothing when there is no such namespace.
\<close>

theorem channel_options_resolution:
  assumes "ns_boundary ns = '':''" "ns_private_prefix ns = ''$''"
  shows "ns_channel_options ns channel =
    (let name = (if \<exists>r. channel = CHR ''$'' # r then tl channel else channel) in
     if CHR '':'' \<in> set name then hm_get (ns_namespaces ns) (takeWhile (\<lambda>x. x \<noteq> CHR '':'') name)
     else Some (ns_default ns))"
proof -
  have "(case strip_prefix ''$'' channel of None \<Rightarrow> channel | Some r \<Rightarrow> r) =
      (if \<exists>r. channel = CHR ''$'' # r then tl channel else channel)"
    by (cases channel) (auto simp: strip_prefix_def)
  then show ?thesis using assms by (simp add: ns_channel_options_def split_once_char Let_def)
qed

theorem channel_options_resolution_witness:
  "ns_channel_options namespaces_default ''$chat:1:2'' = None"
  using channel_options_resolution [of namespaces_default "''$chat:1:2''"]
  by (simp add: namespaces_default_def Let_def)

text \<open>
  A routed live publication keeps its payload, publisher and position: under the seq/gen mode
  the offset is zero on the wire and seq and gen are its low and high halves, so they determine it.
\<close>

theorem route_publication_position:
  "(let q = route_publication True p in
      unat (pub_gen q) * 2 ^ 32 + unat (pub_seq q) =
        (if pub_offset p = 0 then unat (pub_gen p) * 2 ^ 32 + unat (pub_seq p) else unat (pub_offset p)) \<and>
      pub_offset q = 0 \<and> pub_data q = pub_data p \<and> pub_info q = pub_info p \<and> pub_uid q = pub_uid p) \<and>
   route_publication False p = p"
  using unpack_offset_value [of "pub_offset p"]
  by (simp add: route_publication_def split_def Let_def)

text \<open>
  C12: applying a disconnect command changes nothing but the signal queues, and it signals only
  connections of that user that are not on the whitelist, with the code, reason and reconnect
  advice of the command; when no control queue is full every such connection is signalled.
\<close>

theorem disconnect_spares_whitelist:
  assumes "hub_wf w (nd_hub n)"
  shows "\<exists>evs. apply_control w (CmDisconnect user code reason reconnect whitelist) n =
      n\<lparr>nd_log := nd_log n @ evs\<rparr> \<and>
    (\<forall>e \<in> set evs. \<exists>h q. hub_get (nd_hub n) (ch_id h) = Some h \<and> ch_user h = user \<and>
       ch_id h \<notin> set whitelist \<and> ch_ctrl h = Some q \<and>
       e = Ctrl q (SigDisconnect \<lparr>dc_code = code, dc_reason = reason, dc_reconnect = reconnect\<rparr>)) \<and>
    ((\<forall>lg q. wd_ctrl w lg q = SendOk) \<longrightarrow>
       (\<forall>h q. hub_get (nd_hub n) (ch_id h) = Some h \<longrightarrow> ch_user h = user \<longrightarrow>
          ch_id h \<notin> set whitelist \<longrightarrow> ch_ctrl h = Some q \<longrightarrow>
          Ctrl q (SigDisconnect \<lparr>dc_code = code, dc_reason = reason, dc_reconnect = reconnect\<rparr>) \<in> set evs))"
proof -
  let ?sig = "SigDisconnect \<lparr>dc_code = code, dc_reason = reason, dc_reconnect = reconnect\<rparr>"
  let ?f = "\<lambda>h lg. if ch_id h \<in> set whitelist then lg
    else signal_one w (SigDisconnect (disconnect_new code reason reconnect)) h lg"
  have "?f h lg = (if ch_id h \<notin> set whitelist then signal_one w ?sig h lg else lg)" for h lg
    by (simp add: disconnect_new_def)
  from fold_signals [of ?f, OF this, of "user_clients (nd_hub n) user" "nd_log n"] obtain evs where
    f: "fold ?f (user_clients (nd_hub n) user) (nd_log n) = nd_log n @ evs"
    and only: "\<forall>e \<in> set evs. \<exists>h \<in> set (user_clients (nd_hub n) user).
        ch_id h \<notin> set whitelist \<and> (\<exists>q. ch_ctrl h = Some q \<and> e = Ctrl q ?sig)"
    and all: "(\<forall>lg q. wd_ctrl w lg q = SendOk) \<longrightarrow> (\<forall>h \<in> set (user_clients (nd_hub n) user).
        ch_id h \<notin> set whitelist \<longrightarrow> (\<forall>q. ch_ctrl h = Some q \<longrightarrow> Ctrl q ?sig \<in> set evs))"
    by blast
  have "apply_control w (CmDisconnect user code reason reconnect whitelist) n = n\<lparr>nd_log := nd_log n @ evs\<rparr>"
    using f by (simp add: apply_control_def)
  moreover have "\<forall>e \<in> set evs. \<exists>h q. hub_get (nd_hub n) (ch_id h) = Some h \<and> ch_user h = user \<and>
       ch_id h \<notin> set whitelist \<and> ch_ctrl h = Some q \<and> e = Ctrl q ?sig"
    using only unfolding user_clients_set [OF assms] by blast
  moreover have "(\<forall>lg q. wd_ctrl w lg q = SendOk) \<longrightarrow>
       (\<forall>h q. hub_get (nd_hub n) (ch_id h) = Some h \<longrightarrow> ch_user h = user \<longrightarrow>
          ch_id h \<notin> set whitelist \<longrightarrow> ch_ctrl h = Some q \<longrightarrow> Ctrl q ?sig \<in> set evs)"
    using all unfolding user_clients_set [OF assms] by blast
  ultimately show ?thesis by blast
qed

theorem disconnect_spares_whitelist_witness:
  "\<exists>evs. apply_control sample_world (CmDisconnect ''bob'' 3012 ''force disconnect'' False []) sample_node =
      sample_node\<lparr>nd_log := nd_log sample_node @ evs\<rparr> \<and>
    Ctrl 8 (SigDisconnect \<lparr>dc_code = 3012, dc_reason = ''force disconnect'', dc_reconnect = False\<rparr>) \<in> set evs"
proof -
  have "hub_get (nd_hub sample_node) (ch_id sample_handle) = Some sample_handle"
    by (simp add: sample_node_def sample_hub_def hub_get_subscribe hub_get_add)
  moreover have "hub_wf sample_world (nd_hub sample_node)"
    by (simp add: sample_node_def sample_hub_wf)
  ultimately show ?thesis
    using disconnect_spares_whitelist [of sample_world sample_node "''bob''" 3012 "''force disconnect''" False "[]"]
    by (metis (no_types, lifting) empty_iff empty_set sample_handle_simps sample_world_simps(6))
qed

text \<open>
  C2: publishing through a node on the memory engine, on a channel with history: the publication
  is appended to the channel's log with the next offset, and that same publication, positioned by
  seq and gen, is what every current subscriber is served.
\<close>

theorem memory_publish_end_to_end:
  assumes "nd_engine_ops n = memory_ops" "hub_wf w (nd_hub n)" "mem_holds G (nd_engine n)"
    and "node_channel_options n ch = Some o1" "co_history_enabled o1"
    and "length (live_log w G (nd_engine n) ch) + 1 < 2 ^ 64"
    and "p = history_publication data info (of_nat (length (live_log w G (nd_engine n) ch) + 1))"
    and "\<forall>s \<in> set (subscribers w (nd_hub n) ch).
      push_frame_of w (wire_publication (wd_wire w)) ch PtPublication
        (route_publication (nd_use_seq_gen n) p) s = Some (b s)"
  shows "\<exists>evs. let n' = node_publish w ch data info n in
    mem_holds (G(ch := live_log w G (nd_engine n) ch @ [p])) (nd_engine n') \<and>
    nd_log n' = nd_log n @ evs \<and>
    fanned_out w b (subscribers w (nd_hub n) ch) (nd_hub n) (nd_log n) (nd_hub n') evs"
proof -
  let ?opts = "co_publish_options o1"
  have en: "po_history_enabled ?opts"
    using assms(5) by (simp add: po_history_enabled_def co_publish_options_def co_history_enabled_def)
  obtain r ms e' where pub: "mem_publish w ch data info ?opts (nd_engine n) = (r, ms, e')"
    by (metis prod.collapse)
  from mem_publish_holds [OF assms(3) en assms(6) pub]
  have holds: "mem_holds (G(ch := live_log w G (nd_engine n) ch @ [p])) e'" and ms: "ms = [NmPublication ch p]"
    by (simp_all add: assms(7))
  from deliver_push_fanned [OF assms(2,8), of "nd_log n"] obtain h' evs where
    d: "deliver_push w (wire_publication (wd_wire w)) ch PtPublication
          (route_publication (nd_use_seq_gen n) p) (nd_hub n, nd_log n) = (h', nd_log n @ evs)"
    and fo: "fanned_out w b (subscribers w (nd_hub n) ch) (nd_hub n) (nd_log n) h' evs" by blast
  have opts: "ns_channel_options (nd_namespaces n) ch = Some o1"
    using assms(4) by (simp add: node_channel_options_def)
  have "node_publish w ch data info n =
      (node_count_message 0 n)\<lparr>nd_engine := e', nd_hub := h', nd_log := nd_log n @ evs\<rparr>"
    using pub ms d assms(1)
    by (simp add: node_publish_def opts call_engine_def memory_ops_def node_count_message_def
        route_message_def deliver_node_def node_channel_options_def Let_def)
  with holds fo show ?thesis by (intro exI [of _ evs]) (simp add: Let_def)
qed

definition sample_history_options :: channel_options where
  "sample_history_options = channel_options_default
     \<lparr>co_history_size := 2, co_history_lifetime := 60, co_history_recover := True, co_anonymous := True\<rparr>"

definition sample_history_node :: "memory_engine node" where
  "sample_history_node =
     sample_node\<lparr>nd_namespaces := namespaces_default\<lparr>ns_default := sample_history_options\<rparr>\<rparr>"

theorem memory_publish_end_to_end_witness:
  "\<exists>evs. let n' = node_publish sample_world ''news'' [1] None sample_history_node in
    nd_log n' = [] @ evs \<and> length evs = 1"
proof -
  have fr: "\<forall>s \<in> set (subscribers sample_world (nd_hub sample_history_node) ''news'').
      push_frame_of sample_world (wire_publication (wd_wire sample_world)) ''news'' PtPublication q s
        = Some [114, 10]" for q
    by (simp add: sample_history_node_def sample_node_def sample_subscribers push_frame_of_def
        make_push_frame_def sample_handle_def encode_result_def wire_publication_def wire_impl_def
        encode_push_frame_def encode_replies_def)
  have "\<exists>evs. let n' = node_publish sample_world ''news'' [1] None sample_history_node in
    mem_holds ((\<lambda>c. [])(''news'' := live_log sample_world (\<lambda>c. []) (nd_engine sample_history_node) ''news''
        @ [history_publication [1] None (of_nat (length (live_log sample_world (\<lambda>c. [])
             (nd_engine sample_history_node) ''news'') + 1))])) (nd_engine n') \<and>
    nd_log n' = nd_log sample_history_node @ evs \<and>
    fanned_out sample_world (\<lambda>s. [114, 10]) (subscribers sample_world (nd_hub sample_history_node) ''news'')
      (nd_hub sample_history_node) (nd_log sample_history_node) (nd_hub n') evs"
    by (rule memory_publish_end_to_end [where ?o1.0 = sample_history_options, OF _ _ _ _ _ _ refl fr])
       (simp_all add: sample_history_node_def sample_hub_wf mem_holds_new live_log_new
          node_channel_options_def ns_channel_options_def namespaces_default_def strip_prefix_def
          sample_history_options_def channel_options_default_def co_history_enabled_def)
  then show ?thesis
    by (auto simp: Let_def fanned_out_def sample_history_node_def sample_subscribers)
qed

end
