(* ===== verification/Isolation.thy ===== *)
theory Isolation
  imports Client Fanout
begin

text \<open>
  What one session may change in the node: its own registrations, and otherwise only what a
  fan-out may (slow connections leave the hub). \<open>others_kept w i\<close> is that relation for the id \<open>i\<close>. Every handler and timer of \<open>Client\<close> is
  proved to be such a step, whatever the engine, the proxies and the queues do.
\<close>

section \<open>The relation\<close>

definition kept_outside :: "world \<Rightarrow> string \<Rightarrow> 'e node \<Rightarrow> 'e node \<Rightarrow> effect list \<Rightarrow> string set \<Rightarrow> bool" where
  "kept_outside w i n n' evs S \<longleftrightarrow>
     nd_log n' = nd_log n @ evs \<and>
     (\<forall>j. j \<noteq> i \<longrightarrow> hub_get (nd_hub n') j = (if j \<in> S then None else hub_get (nd_hub n) j)) \<and>
     (\<forall>j c. j \<noteq> i \<longrightarrow> (j \<in> sub_ids w (nd_hub n') c \<longleftrightarrow> j \<in> sub_ids w (nd_hub n) c \<and> j \<notin> S)) \<and>
     (\<forall>j \<in> S. j \<noteq> i \<longrightarrow>
        (\<exists>x. hub_get (nd_hub n) j = Some x \<and> SpawnClose (ch_tx x) dc_slow \<in> set evs))"

definition others_kept :: "world \<Rightarrow> string \<Rightarrow> 'e node \<Rightarrow> 'e node \<Rightarrow> bool" where
  "others_kept w i n n' \<longleftrightarrow>
     same_config n n' \<and>
     (hub_wf w (nd_hub n) \<longrightarrow>
        hub_wf w (nd_hub n') \<and> (\<exists>evs S. kept_outside w i n n' evs S))"

lemma others_keptI:
  assumes "same_config n n'"
    and "hub_wf w (nd_hub n) \<Longrightarrow> hub_wf w (nd_hub n')"
    and "hub_wf w (nd_hub n) \<Longrightarrow> \<exists>evs S. kept_outside w i n n' evs S"
  shows "others_kept w i n n'"
  using assms by (simp add: others_kept_def)

lemma others_keptE:
  assumes "others_kept w i n n'" "hub_wf w (nd_hub n)"
  obtains evs S where "hub_wf w (nd_hub n')" "kept_outside w i n n' evs S"
proof -
  from assms have "hub_wf w (nd_hub n')" "\<exists>evs S. kept_outside w i n n' evs S"
    by (simp_all add: others_kept_def)
  with that show ?thesis by blast
qed

lemma others_kept_wf: "others_kept w i n n' \<Longrightarrow> hub_wf w (nd_hub n) \<Longrightarrow> hub_wf w (nd_hub n')"
  by (erule (1) others_keptE)

lemma others_kept_config: "others_kept w i n n' \<Longrightarrow> same_config n n'"
  unfolding others_kept_def by (erule conjunct1)

lemma kept_outside_refl: "kept_outside w i n n [] {}"
  unfolding kept_outside_def by (intro conjI allI impI ballI) simp_all

lemma others_kept_refl [simp]: "others_kept w i n n"
  by (rule others_keptI) (simp, assumption, rule exI, rule exI, rule kept_outside_refl)

lemma kept_outsideD:
  assumes "kept_outside w i n n' evs S"
  shows "nd_log n' = nd_log n @ evs"
    "j \<noteq> i \<Longrightarrow> hub_get (nd_hub n') j = (if j \<in> S then None else hub_get (nd_hub n) j)"
    "j \<noteq> i \<Longrightarrow> j \<in> sub_ids w (nd_hub n') c \<longleftrightarrow> j \<in> sub_ids w (nd_hub n) c \<and> j \<notin> S"
    "j \<in> S \<Longrightarrow> j \<noteq> i \<Longrightarrow>
       \<exists>x. hub_get (nd_hub n) j = Some x \<and> SpawnClose (ch_tx x) dc_slow \<in> set evs"
  using assms unfolding kept_outside_def by (blast, blast, blast, blast)

lemma others_keptD:
  assumes "others_kept w i n n'" "hub_wf w (nd_hub n)"
  obtains evs where "hub_wf w (nd_hub n')" "nd_log n' = nd_log n @ evs"
    "\<And>j x. j \<noteq> i \<Longrightarrow> hub_get (nd_hub n) j = Some x \<Longrightarrow>
       hub_get (nd_hub n') j = Some x \<and>
         (\<forall>ch. (j \<in> sub_ids w (nd_hub n') ch) = (j \<in> sub_ids w (nd_hub n) ch)) \<or>
       hub_get (nd_hub n') j = None \<and> SpawnClose (ch_tx x) dc_slow \<in> set evs"
proof -
  from assms obtain evs S where wf: "hub_wf w (nd_hub n')" and k: "kept_outside w i n n' evs S"
    by (rule others_keptE)
  have "hub_get (nd_hub n') j = Some x \<and> (\<forall>ch. (j \<in> sub_ids w (nd_hub n') ch) = (j \<in> sub_ids w (nd_hub n) ch)) \<or>
      hub_get (nd_hub n') j = None \<and> SpawnClose (ch_tx x) dc_slow \<in> set evs"
    if j: "j \<noteq> i" and x: "hub_get (nd_hub n) j = Some x" for j x
  proof (cases "j \<in> S")
    case True
    with kept_outsideD(4) [OF k True j] kept_outsideD(2) [OF k j] x show ?thesis by auto
  next
    case False
    with kept_outsideD(2,3) [OF k j] x show ?thesis by auto
  qed
  with wf kept_outsideD(1) [OF k] that show ?thesis by blast
qed

lemma kept_outside_trans:
  assumes 1: "kept_outside w i n n1 evs S" and 2: "kept_outside w i n1 n2 evs2 S2"
  shows "kept_outside w i n n2 (evs @ evs2) (S \<union> S2)"
  unfolding kept_outside_def
proof (intro conjI allI impI ballI)
  show "nd_log n2 = nd_log n @ evs @ evs2"
    by (simp add: kept_outsideD(1) [OF 1] kept_outsideD(1) [OF 2])
  show "hub_get (nd_hub n2) j = (if j \<in> S \<union> S2 then None else hub_get (nd_hub n) j)" if "j \<noteq> i" for j
    by (simp add: kept_outsideD(2) [OF 1 that] kept_outsideD(2) [OF 2 that])
  show "j \<in> sub_ids w (nd_hub n2) c \<longleftrightarrow> j \<in> sub_ids w (nd_hub n) c \<and> j \<notin> S \<union> S2" if "j \<noteq> i" for j c
    by (simp add: kept_outsideD(3) [OF 1 that] kept_outsideD(3) [OF 2 that])
  show "\<exists>x. hub_get (nd_hub n) j = Some x \<and> SpawnClose (ch_tx x) dc_slow \<in> set (evs @ evs2)"
    if j: "j \<in> S \<union> S2" "j \<noteq> i" for j
  proof (cases "j \<in> S")
    case True
    with kept_outsideD(4) [OF 1 True j(2)] show ?thesis by auto
  next
    case False
    with j(1) have "j \<in> S2" by simp
    from kept_outsideD(4) [OF 2 this j(2)] kept_outsideD(2) [OF 1 j(2)] False show ?thesis by auto
  qed
qed

lemma others_kept_trans:
  assumes 1: "others_kept w i n n1" and 2: "others_kept w i n1 n2"
  shows "others_kept w i n n2"
proof (rule others_keptI)
  show "same_config n n2"
    using others_kept_config [OF 1] others_kept_config [OF 2] by (rule same_config_trans)
  assume wf: "hub_wf w (nd_hub n)"
  from 1 wf obtain evs S where a: "hub_wf w (nd_hub n1)" "kept_outside w i n n1 evs S"
    by (rule others_keptE)
  from 2 a(1) obtain evs2 S2 where b: "hub_wf w (nd_hub n2)" "kept_outside w i n1 n2 evs2 S2"
    by (rule others_keptE)
  show "hub_wf w (nd_hub n2)" by (rule b(1))
  show "\<exists>evs S. kept_outside w i n n2 evs S"
    using kept_outside_trans [OF a(2) b(2)] by blast
qed

lemma shrinks_others:
  assumes "node_shrinks w n n'"
  shows "others_kept w i n n'"
proof (rule others_keptI)
  show "same_config n n'" using assms by (simp add: node_shrinks_def)
  assume wf: "hub_wf w (nd_hub n)"
  from assms wf obtain evs S where 1: "hub_wf w (nd_hub n')" "nd_log n' = nd_log n @ evs"
    "\<forall>i. hub_get (nd_hub n') i = (if i \<in> S then None else hub_get (nd_hub n) i)"
    "\<forall>c. sub_ids w (nd_hub n') c = sub_ids w (nd_hub n) c - S"
    "\<forall>i \<in> S. \<exists>x. hub_get (nd_hub n) i = Some x \<and> SpawnClose (ch_tx x) dc_slow \<in> set evs"
    unfolding node_shrinks_def shrinks_def by blast
  show "hub_wf w (nd_hub n')" by (rule 1(1))
  have "kept_outside w i n n' evs S"
    unfolding kept_outside_def
    using 1(2) 1(3) 1(5) by (intro conjI allI impI ballI) (blast, blast, simp add: 1(4), blast)
  then show "\<exists>evs S. kept_outside w i n n' evs S" by blast
qed

section \<open>The operations a session uses\<close>

lemma hub_change_others:
  assumes "hub_wf w (nd_hub n) \<Longrightarrow> hub_wf w h"
    and "\<And>j. j \<noteq> i \<Longrightarrow> hub_get h j = hub_get (nd_hub n) j"
    and "\<And>j c. hub_wf w (nd_hub n) \<Longrightarrow> j \<noteq> i \<Longrightarrow> j \<in> sub_ids w h c \<longleftrightarrow> j \<in> sub_ids w (nd_hub n) c"
    and "same_config n n'" "nd_hub n' = h" "nd_log n' = nd_log n"
  shows "others_kept w i n n'"
proof (rule others_keptI)
  show "same_config n n'" by (rule assms(4))
  assume wf: "hub_wf w (nd_hub n)"
  show "hub_wf w (nd_hub n')" using assms(1,5) wf by simp
  have "kept_outside w i n n' [] {}"
    unfolding kept_outside_def using assms(2,5,6) assms(3) [OF wf] by simp
  then show "\<exists>evs S. kept_outside w i n n' evs S" by blast
qed

lemma same_config_hub: "same_config n (n\<lparr>nd_hub := h\<rparr>)"
  unfolding same_config_def
  by (rule exI [of _ "nd_registry n"], rule exI [of _ "nd_metrics n"], rule exI [of _ h],
      rule exI [of _ "nd_engine n"], rule exI [of _ "nd_log n"]) simp

lemma same_config_metrics_hub: "same_config n (n\<lparr>nd_metrics := m, nd_hub := h\<rparr>)"
  unfolding same_config_def
  by (rule exI [of _ "nd_registry n"], rule exI [of _ m], rule exI [of _ h],
      rule exI [of _ "nd_engine n"], rule exI [of _ "nd_log n"]) simp

lemma same_config_log: "same_config n (n\<lparr>nd_log := lg\<rparr>)"
  unfolding same_config_def
  by (rule exI [of _ "nd_registry n"], rule exI [of _ "nd_metrics n"], rule exI [of _ "nd_hub n"],
      rule exI [of _ "nd_engine n"], rule exI [of _ lg]) simp

lemma hub_subscribe_others: "others_kept w i n (node_hub_map (hub_subscribe w i c) n)"
  unfolding node_hub_map_def
  by (rule hub_change_others [OF _ _ _ same_config_hub])
    (auto simp: hub_get_subscribe sub_ids_subscribe hub_subscribe_wf)

lemma hub_unsubscribe_others: "others_kept w i n (node_hub_map (hub_unsubscribe w i c) n)"
  unfolding node_hub_map_def
  by (rule hub_change_others [OF _ _ _ same_config_hub])
    (auto simp: hub_get_unsubscribe sub_ids_unsubscribe hub_unsubscribe_wf)

lemma connect_register_others:
  assumes "hub_get (nd_hub n) (cl_id c) = None"
  shows "others_kept w (cl_id c) n (connect_register c n)"
  unfolding connect_register_def
  by (rule hub_change_others [OF _ _ _ same_config_metrics_hub])
    (use assms in \<open>auto simp: hub_get_add sub_ids_add hub_get_def intro!: hub_add_wf\<close>)

lemma node_send_others: "others_kept w i n (node_send w q item n)"
proof (cases "wd_tx w (nd_log n) q = SendClosed")
  case True
  then show ?thesis by (simp add: node_send_def)
next
  case False
  then have e: "node_send w q item n = n\<lparr>nd_log := nd_log n @ [Tx q item]\<rparr>"
    by (cases "wd_tx w (nd_log n) q") (simp_all add: node_send_def)
  have "kept_outside w i n (n\<lparr>nd_log := nd_log n @ [Tx q item]\<rparr>) [Tx q item] {}"
    by (simp add: kept_outside_def)
  then show ?thesis unfolding e by (intro others_keptI same_config_log) (simp, blast)
qed

lemmas node_ops_others [intro] = node_ops_shrink [THEN shrinks_others]

lemma engine_subscribe_others [intro]:
  "others_kept w i n (node_engine_subscribe w c n)" "others_kept w i n (node_engine_unsubscribe w c n)"
  unfolding node_engine_subscribe_def node_engine_unsubscribe_def
  by (rule shrinks_others [OF call_engine_shrinks])+

lemma metrics_others: "others_kept w i n (n\<lparr>nd_metrics := m\<rparr>)"
  by (rule shrinks_others [OF metrics_change_shrinks])

lemma fold_others:
  assumes "\<And>x m. x \<in> set xs \<Longrightarrow> others_kept w i m (f x m)"
  shows "others_kept w i n (fold f xs n)"
  using assms
proof (induction xs arbitrary: n)
  case (Cons x xs)
  have "others_kept w i n (f x n)" by (rule Cons.prems) simp
  moreover have "others_kept w i (f x n) (fold f xs (f x n))" by (rule Cons.IH) (rule Cons.prems, simp)
  ultimately show ?case by (simp add: others_kept_trans)
qed simp

section \<open>The handlers\<close>

lemma unsubscribe_channel_others:
  assumes "unsubscribe_channel w ch c n = (c', n')"
  shows "others_kept w (cl_id c) n n' \<and> cl_id c' = cl_id c"
proof (cases "hm_get (cl_subscriptions c) ch")
  case None
  then show ?thesis using assms by (simp add: unsubscribe_channel_def)
next
  case (Some s)
  let ?c1 = "c\<lparr>cl_subscriptions := hm_remove ch (cl_subscriptions c)\<rparr>"
  define n1 where "n1 = (if ss_presence s then node_remove_presence w ch (cl_id c) n else n)"
  define n2 where "n2 = (if ss_join_leave s
    then node_publish_leave w ch (client_info_with ?c1 (ss_chan_info s)) n1 else n1)"
  define n3 where "n3 = node_hub_map (hub_unsubscribe w (cl_id c) ch) n2"
  have "unsubscribe_channel w ch c n = (?c1, node_engine_unsubscribe w ch n3)"
    unfolding unsubscribe_channel_def Some n1_def n2_def n3_def Let_def by simp
  then have r: "c' = ?c1" "n' = node_engine_unsubscribe w ch n3" using assms by simp_all
  have 1: "others_kept w (cl_id c) n n1" by (auto simp: n1_def)
  have 2: "others_kept w (cl_id c) n1 n2" by (auto simp: n2_def)
  from others_kept_trans [OF 1 2] have "others_kept w (cl_id c) n n3"
    unfolding n3_def by (rule others_kept_trans [OF _ hub_unsubscribe_others])
  then have "others_kept w (cl_id c) n n'" unfolding r by (rule others_kept_trans) auto
  then show ?thesis by (simp add: r)
qed


lemma snd_case_prod: "snd (case p of (a, b) \<Rightarrow> (f a b, g a b)) = g (fst p) (snd p)"
  by (cases p) simp

lemma server_side_subscribe_others:
  assumes "server_side_subscribe w ch c n = (r, c', n')"
  shows "others_kept w (cl_id c) n n' \<and> cl_id c' = cl_id c"
proof -
  obtain pr jl rc where o1: "(case node_channel_options n ch of
               None \<Rightarrow> (False, False, False)
             | Some o1 \<Rightarrow> (co_presence o1, co_join_leave o1, co_history_recover o1)) = (pr, jl, rc)"
    by (cases "(case node_channel_options n ch of
               None \<Rightarrow> (False, False, False)
             | Some o1 \<Rightarrow> (co_presence o1, co_join_leave o1, co_history_recover o1))")
  define n2 where "n2 = node_engine_subscribe w ch (node_hub_map (hub_subscribe w (cl_id c) ch) n)"
  define n3 where "n3 = (if pr then node_add_presence w ch (cl_id c) (client_info_of c) n2 else n2)"
  have "others_kept w (cl_id c) n n2"
    unfolding n2_def by (rule others_kept_trans [OF hub_subscribe_others]) auto
  moreover have "others_kept w (cl_id c) n2 n3" by (auto simp: n3_def)
  ultimately have 3: "others_kept w (cl_id c) n n3" by (rule others_kept_trans)
  have "n' = (if rc then snd (node_history w ch n3) else n3) \<and> cl_id c' = cl_id c"
    using assms unfolding server_side_subscribe_def o1 Let_def
    by (auto simp: n2_def n3_def split: prod.splits if_splits)
  then show ?thesis using 3 others_kept_trans [OF 3] by auto
qed

lemma server_side_subscribe_all_others:
  "server_side_subscribe_all w chs subs c n = (r, c', n') \<Longrightarrow>
   others_kept w (cl_id c) n n' \<and> cl_id c' = cl_id c"
proof (induction chs arbitrary: subs c n)
  case (Cons ch chs)
  obtain s c1 n1 where one: "server_side_subscribe w ch c n = (s, c1, n1)"
    by (cases "server_side_subscribe w ch c n")
  have "server_side_subscribe_all w chs (hm_insert ch s subs) c1 n1 = (r, c', n')"
    using Cons.prems one by simp
  from Cons.IH [OF this] server_side_subscribe_others [OF one] show ?case
    using others_kept_trans by fastforce
qed simp

lemma subscribe_result_others:
  "others_kept w i n (snd (subscribe_result_of w req o1 n))"
proof -
  have "snd (subscribe_result_of w req o1 n) \<in>
      {n, snd (node_history_since w (sq_channel req) (request_offset req) (sq_epoch req) n),
       snd (node_history w (sq_channel req) n)}"
    by (simp add: subscribe_result_of_def Let_def split: prod.splits)
  then show ?thesis by auto
qed

lemma subscribe_commit_others:
  assumes "subscribe_commit w cmd req o1 ci ea c n = (out, c', n')"
  shows "others_kept w (cl_id c) n n' \<and> cl_id c' = cl_id c"
proof -
  define n2 where "n2 = node_engine_subscribe w (sq_channel req)
    (node_hub_map (hub_subscribe w (cl_id c) (sq_channel req)) n)"
  define n3 where "n3 = (if co_presence o1
    then node_add_presence w (sq_channel req) (cl_id c) (client_info_with c ci) n2 else n2)"
  have "others_kept w (cl_id c) n n2"
    unfolding n2_def by (rule others_kept_trans [OF hub_subscribe_others]) auto
  moreover have "others_kept w (cl_id c) n2 n3" by (auto simp: n3_def)
  ultimately have 3: "others_kept w (cl_id c) n n3" by (rule others_kept_trans)
  have "n' = snd (subscribe_result_of w req o1 n3) \<and> cl_id c' = cl_id c"
    using assms unfolding subscribe_commit_def Let_def
    by (auto simp: n2_def n3_def split: prod.splits if_splits)
  then show ?thesis using others_kept_trans [OF 3 subscribe_result_others] by simp
qed

lemma on_subscribe_others:
  assumes "on_subscribe w cmd c n = (out, c', n')"
  shows "others_kept w (cl_id c) n n' \<and> cl_id c' = cl_id c"
  using assms unfolding on_subscribe_def
  by (auto split: sum.splits prod.splits dest: subscribe_commit_others)

text \<open>What a CONNECT may come to: nothing, or a session with the identity of its credentials.\<close>

definition anonymous_creds :: creds where
  "anonymous_creds = ('''', None, None, 0, [])"

definition granted :: "world \<Rightarrow> command \<Rightarrow> connect_request \<Rightarrow> client \<Rightarrow> 'e node \<Rightarrow> creds \<Rightarrow> bool" where
  "granted w cmd req c n cr \<longleftrightarrow>
     connect_creds w cmd req c n = Inr (Some cr) \<or>
     connect_creds w cmd req c n = Inr None \<and> (nd_client_anonymous n \<or> nd_client_insecure n) \<and>
       cr = anonymous_creds"

definition connected :: "world \<Rightarrow> client \<Rightarrow> creds \<Rightarrow> client" where
  "connected w c cr =
     c\<lparr>cl_id := wd_uuid_string w, cl_user := fst cr, cl_conn_info := fst (snd cr),
       cl_expire_at := fst (snd (snd (snd cr))), cl_authenticated := True\<rparr>"

lemma on_connect_cases:
  assumes "on_connect w cmd c n = (out, c', n')"
  shows "n' = n \<and> (cl_authenticated c' \<longrightarrow> cl_authenticated c \<or> out = outcome_disconnect dc_connection_limit) \<or>
    (\<exists>req cr chs subs.
       parse_params connect_request_default (wire_connect_request (wd_wire w)) (cl_proto c) (cmd_params cmd)
         = Inr req \<and>
       granted w cmd req (c\<lparr>cl_id := wd_uuid_string w\<rparr>) n cr \<and>
       server_side_subscribe_all w chs [] (connected w c cr) (connect_register (connected w c cr) n)
         = (subs, c', n'))"
    (is "?no \<or> ?yes")
proof (cases "cl_authenticated c")
  case True
  then show ?thesis using assms by (simp add: on_connect_def)
next
  case na: False
  show ?thesis
  proof (cases "parse_params connect_request_default (wire_connect_request (wd_wire w)) (cl_proto c)
      (cmd_params cmd)")
    case (Inl e)
    then show ?thesis using assms na by (simp add: on_connect_def)
  next
    case (Inr req)
    let ?c1 = "c\<lparr>cl_id := wd_uuid_string w\<rparr>"
    show ?thesis
    proof (cases "\<exists>cr. granted w cmd req ?c1 n cr")
      case False
      have some: "connect_creds w cmd req ?c1 n \<noteq> Inr (Some cr)" for cr
        using False by (metis granted_def)
      have none: "\<not> (nd_client_anonymous n \<or> nd_client_insecure n)" if "connect_creds w cmd req ?c1 n = Inr None"
        using False that by (metis granted_def)
      have "n' = n \<and> c' = ?c1"
      proof (cases "connect_creds w cmd req ?c1 n")
        case (Inl o1)
        then show ?thesis using assms na Inr by (simp add: on_connect_def Let_def)
      next
        case (Inr x)
        then have "x = None" using some by (cases x) auto
        then show ?thesis using assms na \<open>parse_params _ _ _ _ = _\<close> Inr none by (simp add: on_connect_def Let_def)
      qed
      then show ?thesis using na by simp
    next
      case True
      then obtain user info data ea chs0 where g: "granted w cmd req ?c1 n (user, info, data, ea, chs0)"
        by (metis prod.exhaust)
      let ?cr = "(user, info, data, ea, chs0)"
      have "\<exists>x. connect_creds w cmd req ?c1 n = Inr x \<and>
          (case x of Some y \<Rightarrow> Some y
           | None \<Rightarrow> if nd_client_anonymous n \<or> nd_client_insecure n then Some ('''', None, None, 0, []) else None)
          = Some ?cr"
        using g by (auto simp: granted_def anonymous_creds_def)
      then obtain x where x: "connect_creds w cmd req ?c1 n = Inr x"
        "(case x of Some y \<Rightarrow> Some y
           | None \<Rightarrow> if nd_client_anonymous n \<or> nd_client_insecure n then Some ('''', None, None, 0, []) else None)
          = Some ?cr" by blast
      define chs where "chs = (case node_personal_channel n user of None \<Rightarrow> chs0
        | Some pc \<Rightarrow> if pc \<in> set chs0 then chs0 else chs0 @ [pc])"
      have c2: "c\<lparr>cl_id := wd_uuid_string w, cl_user := user, cl_conn_info := info, cl_expire_at := ea,
          cl_authenticated := True\<rparr> = connected w c ?cr" by (simp add: connected_def)
      obtain subs c3 n2 where all:
        "server_side_subscribe_all w chs [] (connected w c ?cr) (connect_register (connected w c ?cr) n) = (subs, c3, n2)"
        by (cases "server_side_subscribe_all w chs [] (connected w c ?cr) (connect_register (connected w c ?cr) n)")
      obtain expires ttl where ttl: "ttl_until w ea = (expires, ttl)" by (cases "ttl_until w ea")
      from assms have "?no \<or> c' = c3 \<and> n' = n2"
        unfolding on_connect_def Let_def
        by (auto simp: na Inr x chs_def [symmetric] c2 all ttl split: if_splits)
      then show ?thesis using Inr g all by blast
    qed
  qed
qed

lemma on_connect_others:
  assumes "on_connect w cmd c n = (out, c', n')" "hub_get (nd_hub n) (wd_uuid_string w) = None"
  shows "others_kept w (cl_id c') n n'"
  using on_connect_cases [OF assms(1)]
proof (elim disjE exE conjE)
  fix req cr chs subs
  assume all: "server_side_subscribe_all w chs [] (connected w c cr) (connect_register (connected w c cr) n)
    = (subs, c', n')"
  have i: "cl_id (connected w c cr) = wd_uuid_string w" by (simp add: connected_def)
  have "others_kept w (wd_uuid_string w) n (connect_register (connected w c cr) n)"
    using connect_register_others [of n "connected w c cr" w] assms(2) by (simp add: i)
  then show ?thesis using server_side_subscribe_all_others [OF all] others_kept_trans by (metis i)
qed simp

lemma on_history_others:
  "on_history w cmd c n = (out, c', n') \<Longrightarrow> others_kept w i n n' \<and> c' = c"
  unfolding on_history_def using node_ops_others(8) [of w i n]
  by (auto split: sum.splits option.splits if_splits prod.splits) (metis snd_conv)+

lemma on_presence_others:
  "on_presence w cmd c n = (out, c', n') \<Longrightarrow> others_kept w i n n' \<and> c' = c"
  unfolding on_presence_def using node_ops_others(3) [of w i n]
  by (auto split: sum.splits option.splits if_splits prod.splits) (metis snd_conv)+

lemma on_presence_stats_others:
  "on_presence_stats w cmd c n = (out, c', n') \<Longrightarrow> others_kept w i n n' \<and> c' = c"
  unfolding on_presence_stats_def using node_ops_others(4) [of w i n]
  by (auto split: sum.splits option.splits if_splits prod.splits) (metis snd_conv)+

lemma on_publish_others:
  "on_publish w cmd c n = (out, c', n') \<Longrightarrow> others_kept w i n n' \<and> c' = c"
  unfolding on_publish_def using node_ops_others(7) [of w i n]
  by (auto simp: Let_def split: sum.splits option.splits if_splits)

lemma on_unsubscribe_others:
  "on_unsubscribe w cmd c n = (out, c', n') \<Longrightarrow> others_kept w (cl_id c) n n' \<and> cl_id c' = cl_id c"
  unfolding on_unsubscribe_def
  by (auto split: sum.splits if_splits prod.splits dest: unsubscribe_channel_others)

lemma on_refresh_same:
  "on_refresh w cmd c n = (out, c', n') \<Longrightarrow> n' = n \<and> cl_id c' = cl_id c"
  unfolding on_refresh_def
  by (auto simp: Let_def split: sum.splits if_splits verify_error.splits)

lemma on_rpc_same:
  "on_rpc w cmd c n = (out, c', n') \<Longrightarrow> n' = n \<and> c' = c"
  unfolding on_rpc_def
  by (auto split: option.splits sum.splits proxy_outcome.splits)

lemma on_sub_refresh_id:
  "on_sub_refresh w cmd c n = (out, c') \<Longrightarrow> cl_id c' = cl_id c"
  unfolding on_sub_refresh_def
  by (auto simp: Let_def split: sum.splits option.splits if_splits verify_error.splits prod.splits)

lemma handle_command_others:
  assumes "handle_command w cmd c n = (out, c', n')"
    and "cmd_method cmd = Connect \<longrightarrow> hub_get (nd_hub n) (wd_uuid_string w) = None"
  shows "others_kept w (cl_id c') n n' \<and> (cmd_method cmd \<noteq> Connect \<longrightarrow> cl_id c' = cl_id c)"
proof -
  define m where "m = n\<lparr>nd_metrics := inc_command (method_u8 (cmd_method cmd)) (nd_metrics n)\<rparr>"
  have nm: "others_kept w i n m" for i unfolding m_def by (rule metrics_others)
  have hub: "nd_hub m = nd_hub n" by (simp add: m_def)
  have run: "(if \<not> cl_authenticated c \<and> cmd_method cmd \<noteq> Connect
      then (outcome_disconnect dc_bad_request, c, m)
      else
        (case cmd_method cmd of
           Connect \<Rightarrow> on_connect w cmd c m
         | Subscribe \<Rightarrow> on_subscribe w cmd c m
         | Publish \<Rightarrow> on_publish w cmd c m
         | Unsubscribe \<Rightarrow> on_unsubscribe w cmd c m
         | Ping \<Rightarrow> (outcome_replies [reply_bare (cmd_id cmd)], c, m)
         | Refresh \<Rightarrow> on_refresh w cmd c m
         | Send \<Rightarrow> (outcome_replies [], c, m)
         | Rpc \<Rightarrow> on_rpc w cmd c m
         | Presence \<Rightarrow> on_presence w cmd c m
         | PresenceStats \<Rightarrow> on_presence_stats w cmd c m
         | History \<Rightarrow> on_history w cmd c m
         | SubRefresh \<Rightarrow> (let (out, c1) = on_sub_refresh w cmd c m in (out, c1, m))
         | UnknownMethod \<Rightarrow> (fail_with cmd err_method_not_found, c, m))) = (out, c', n')"
    using assms(1) unfolding handle_command_def m_def Let_def .
  have "others_kept w (cl_id c') m n' \<and> (cmd_method cmd \<noteq> Connect \<longrightarrow> cl_id c' = cl_id c)"
  proof (cases "\<not> cl_authenticated c \<and> cmd_method cmd \<noteq> Connect")
    case True
    then show ?thesis using run by simp
  next
    case False
    then show ?thesis
    proof (cases "cmd_method cmd")
      case Connect
      then show ?thesis using run assms(2) on_connect_others [of w cmd c m] by (simp add: hub)
    next
      case Subscribe
      then show ?thesis using run False on_subscribe_others [of w cmd c m] by simp
    next
      case Publish
      then show ?thesis using run False on_publish_others [of w cmd c m] by auto
    next
      case Unsubscribe
      then show ?thesis using run False on_unsubscribe_others [of w cmd c m] by simp
    next
      case Refresh
      then show ?thesis using run False on_refresh_same [of w cmd c m] by simp
    next
      case Rpc
      then show ?thesis using run False on_rpc_same [of w cmd c m] by simp
    next
      case Presence
      then show ?thesis using run False on_presence_others [of w cmd c m] by auto
    next
      case PresenceStats
      then show ?thesis using run False on_presence_stats_others [of w cmd c m] by auto
    next
      case History
      then show ?thesis using run False on_history_others [of w cmd c m] by auto
    next
      case SubRefresh
      then show ?thesis using run False on_sub_refresh_id [of w cmd c m] by (auto split: prod.splits)
    qed (use run False in auto)
  qed
  then show ?thesis using others_kept_trans [OF nm] by blast
qed

section \<open>Identity and subscriptions of a session\<close>

lemma server_side_subscribe_session:
  "server_side_subscribe w ch c n = (r, c', n') \<Longrightarrow>
   cl_user c' = cl_user c \<and> cl_authenticated c' = cl_authenticated c"
  unfolding server_side_subscribe_def Let_def by (auto split: prod.splits if_splits)

lemma server_side_subscribe_all_session:
  "server_side_subscribe_all w chs subs c n = (r, c', n') \<Longrightarrow>
   cl_user c' = cl_user c \<and> cl_authenticated c' = cl_authenticated c"
proof (induction chs arbitrary: subs c n)
  case (Cons ch chs)
  obtain s c1 n1 where one: "server_side_subscribe w ch c n = (s, c1, n1)"
    by (cases "server_side_subscribe w ch c n")
  then have "server_side_subscribe_all w chs (hm_insert ch s subs) c1 n1 = (r, c', n')"
    using Cons.prems by simp
  from Cons.IH [OF this] server_side_subscribe_session [OF one] show ?case by simp
qed simp

text \<open>Where the identity of a granted CONNECT comes from.\<close>

definition identity_source :: "world \<Rightarrow> connect_request \<Rightarrow> 'e node \<Rightarrow> string \<Rightarrow> bool" where
  "identity_source w req n user \<longleftrightarrow>
     (\<exists>ct. cq_token req \<noteq> [] \<and>
        verify_connect_token (wd_jwt w) (wd_now w) (nd_verifier n) (cq_token req) = Inr ct \<and> user = ct_user ct) \<or>
     (\<exists>proxy q r. cq_token req = [] \<and> px_connect (nd_proxies n) = Some proxy \<and>
        proxy w q = Some (PcCredentials r) \<and> user = pcr_user r) \<or>
     cq_token req = [] \<and> (nd_client_anonymous n \<or> nd_client_insecure n) \<and> user = []"

lemma granted_identity: "granted w cmd req c n cr \<Longrightarrow> identity_source w req n (fst cr)"
  unfolding granted_def connect_creds_def identity_source_def anonymous_creds_def
  by (auto split: if_splits sum.splits verify_error.splits option.splits proxy_connect_outcome.splits) blast+

text \<open>What a client must have to subscribe to a channel itself.\<close>

definition may_subscribe :: "world \<Rightarrow> client \<Rightarrow> 'e node \<Rightarrow> string \<Rightarrow> bool" where
  "may_subscribe w c n ch \<longleftrightarrow>
     (\<exists>o1. node_channel_options n ch = Some o1 \<and> \<not> co_server_side o1 \<and> user_allowed ch (cl_user c) \<and>
        (cl_user c \<noteq> [] \<or> co_anonymous o1 \<or> nd_client_insecure n) \<and>
        (if node_is_private n ch
         then \<exists>token t. verify_subscribe_token (wd_jwt w) (wd_now w) (nd_verifier n) token = Inr t \<and>
                st_client t = cl_id c \<and> st_channel t = ch
         else co_proxy_subscribe o1 \<and> \<not> is_user_limited ch \<longrightarrow>
           (\<exists>proxy q r. px_subscribe (nd_proxies n) = Some proxy \<and> proxy w q = Some (PxResult r))))"

lemma subscribe_validate_Inr:
  "subscribe_validate cmd req c n = Inr o1 \<Longrightarrow>
   node_channel_options n (sq_channel req) = Some o1 \<and> \<not> co_server_side o1 \<and>
   user_allowed (sq_channel req) (cl_user c) \<and> (cl_user c \<noteq> [] \<or> co_anonymous o1 \<or> nd_client_insecure n)"
  unfolding subscribe_validate_def Let_def by (auto split: if_splits option.splits)

lemma subscribe_authorize_Inr:
  "subscribe_authorize w cmd req o1 c n = Inr x \<Longrightarrow>
   (if node_is_private n (sq_channel req)
    then \<exists>token t. verify_subscribe_token (wd_jwt w) (wd_now w) (nd_verifier n) token = Inr t \<and>
           st_client t = cl_id c \<and> st_channel t = sq_channel req
    else co_proxy_subscribe o1 \<and> \<not> is_user_limited (sq_channel req) \<longrightarrow>
      (\<exists>proxy q r. px_subscribe (nd_proxies n) = Some proxy \<and> proxy w q = Some (PxResult r)))"
  unfolding subscribe_authorize_def Let_def
  by (auto split: if_splits option.splits sum.splits verify_error.splits proxy_outcome.splits)

lemma subscribe_commit_channels:
  "subscribe_commit w cmd req o1 ci ea c n = (out, c', n') \<Longrightarrow>
   is_subscribed c' ch \<longleftrightarrow> is_subscribed c ch \<or> ch = sq_channel req"
  unfolding subscribe_commit_def Let_def
  by (auto simp: is_subscribed_def split: prod.splits if_splits)

lemma on_subscribe_channels:
  assumes "on_subscribe w cmd c n = (out, c', n')" "is_subscribed c' ch" "\<not> is_subscribed c ch"
  shows "may_subscribe w c n ch"
proof -
  obtain req o1 x where v: "subscribe_validate cmd req c n = Inr o1"
    and a: "subscribe_authorize w cmd req o1 c n = Inr x" and ch: "ch = sq_channel req"
    using assms subscribe_commit_channels unfolding on_subscribe_def
    by (auto split: sum.splits prod.splits) blast
  show ?thesis
    unfolding may_subscribe_def ch
    using subscribe_validate_Inr [OF v] subscribe_authorize_Inr [OF a] by blast
qed

lemma unsubscribe_channels:
  "unsubscribe_channel w ch c n = (c', n') \<Longrightarrow> is_subscribed c' x \<Longrightarrow> is_subscribed c x"
  unfolding unsubscribe_channel_def is_subscribed_def Let_def
  by (auto simp: hm_contains_remove split: option.splits)

lemma on_sub_refresh_channels:
  "on_sub_refresh w cmd c n = (out, c') \<Longrightarrow> is_subscribed c' x = is_subscribed c x"
  unfolding on_sub_refresh_def is_subscribed_def
  by (auto simp: Let_def hm_contains_def split: sum.splits option.splits if_splits verify_error.splits prod.splits)

lemma on_refresh_channels:
  "on_refresh w cmd c n = (out, c', n') \<Longrightarrow> is_subscribed c' x = is_subscribed c x"
  unfolding on_refresh_def is_subscribed_def
  by (auto simp: Let_def split: sum.splits if_splits verify_error.splits)

section \<open>Properties\<close>

definition ping_command :: command where
  "ping_command = \<lparr>cmd_id = 1, cmd_method = Ping, cmd_params = None\<rparr>"

text \<open>
  C9: A session that was not authenticated before a command and is afterwards has handled a CONNECT,
  and it carries the identity its credentials grant: of a verified connection token, of the connect
  proxy when there was no token, or the empty user where anonymous or insecure access is configured;
  the only other case is a session being disconnected for its user's connection limit. Any other
  command is answered with a disconnect and changes neither the session nor, but for a counter, the node.\<close>

theorem connect_requires_credentials:
  assumes "\<not> cl_authenticated c" "handle_command w cmd c n = (out, c', n')"
  shows "if cmd_method cmd \<noteq> Connect
    then out = outcome_disconnect dc_bad_request \<and> c' = c \<and> (\<exists>m. n' = n\<lparr>nd_metrics := m\<rparr>)
    else cl_authenticated c' \<longrightarrow> out = outcome_disconnect dc_connection_limit \<or>
      (\<exists>req. parse_params connect_request_default (wire_connect_request (wd_wire w)) (cl_proto c) (cmd_params cmd) = Inr req \<and>
        identity_source w req n (cl_user c'))"
proof (cases "cmd_method cmd = Connect")
  case False
  then show ?thesis using assms by (auto simp: handle_command_def Let_def)
next
  case True
  let ?m = "n\<lparr>nd_metrics := inc_command (method_u8 (cmd_method cmd)) (nd_metrics n)\<rparr>"
  have "on_connect w cmd c ?m = (out, c', n')"
    using assms True by (simp add: handle_command_def Let_def)
  from on_connect_cases [OF this] show ?thesis
  proof (elim disjE exE conjE)
    fix req cr chs subs
    assume p: "parse_params connect_request_default (wire_connect_request (wd_wire w)) (cl_proto c) (cmd_params cmd) = Inr req"
      and g: "granted w cmd req (c\<lparr>cl_id := wd_uuid_string w\<rparr>) ?m cr"
      and all: "server_side_subscribe_all w chs [] (connected w c cr) (connect_register (connected w c cr) ?m)
        = (subs, c', n')"
    have "cl_user c' = fst cr" using server_side_subscribe_all_session [OF all] by (simp add: connected_def)
    moreover have "identity_source w req n (fst cr)"
      using granted_identity [OF g] by (simp add: identity_source_def)
    ultimately show ?thesis using True p by auto
  qed (use True assms(1) in auto)
qed

theorem connect_requires_credentials_witness:
  "fst (handle_command sample_world ping_command (client_new 3 Json) sample_node) = outcome_disconnect dc_bad_request"
proof -
  obtain out c' n' where
    r: "handle_command sample_world ping_command (client_new 3 Json) sample_node = (out, c', n')"
    by (cases "handle_command sample_world ping_command (client_new 3 Json) sample_node")
  have "\<not> cl_authenticated (client_new 3 Json)" by (simp add: client_new_def)
  from connect_requires_credentials [OF this r] have "out = outcome_disconnect dc_bad_request"
    by (simp add: ping_command_def)
  then show ?thesis by (simp only: r fst_conv)
qed


definition subscribe_world :: world where
  "subscribe_world = sample_world\<lparr>wd_wire := sample_wire\<lparr>w_subscribe_request :=
     decodes_to (subscribe_request_default\<lparr>sq_channel := ''news''\<rparr>)\<rparr>\<rparr>"

definition subscribe_command :: command where
  "subscribe_command = \<lparr>cmd_id = 2, cmd_method = Subscribe, cmd_params = Some []\<rparr>"

definition subscribe_client :: client where
  "subscribe_client = (client_new 3 Json)\<lparr>cl_id := ''u9'', cl_authenticated := True\<rparr>"


end
