(* ===== verification/Lifecycle.thy ===== *)
theory Lifecycle
  imports Session Isolation
begin

text \<open>
  A whole turn of a read loop: what \<open>Session\<close> does with one event of its peer, its timers or the
  node keeps the other connections as \<open>Isolation\<close> says of a single command, and a loop that is
  left leaves nothing of its session behind.
\<close>

section \<open>The operations the transport drives\<close>

lemma flush_joins_others:
  "flush_pending_joins w c n = (c', n') \<Longrightarrow>
   others_kept w i n n' \<and> cl_id c' = cl_id c \<and> cl_authenticated c' = cl_authenticated c"
  unfolding flush_pending_joins_def by (auto intro!: fold_others)

lemma refresh_presence_others: "others_kept w i n (refresh_presence w c n)"
  unfolding refresh_presence_def by (auto intro!: fold_others)

lemma unsubscribe_channel_keeps:
  "unsubscribe_channel w ch c n = (c', n') \<Longrightarrow> cl_authenticated c' = cl_authenticated c"
  unfolding unsubscribe_channel_def by (auto simp: Let_def split: option.splits)

lemma server_unsubscribe_others:
  assumes "server_unsubscribe w ch c n = (c', n')"
  shows "others_kept w (cl_id c) n n' \<and> cl_id c' = cl_id c \<and> cl_authenticated c' = cl_authenticated c"
proof (cases "is_subscribed c ch")
  case False
  then show ?thesis using assms by (simp add: server_unsubscribe_def)
next
  case True
  obtain c1 n1 where u: "unsubscribe_channel w ch c n = (c1, n1)"
    by (cases "unsubscribe_channel w ch c n")
  have "c' = c1 \<and> (n' = n1 \<or> (\<exists>q item. n' = node_send w q item n1))"
    using assms True u unfolding server_unsubscribe_def by (auto split: sum.splits)
  then show ?thesis
    using unsubscribe_channel_others [OF u] unsubscribe_channel_keeps [OF u] others_kept_trans
      node_send_others by metis
qed

lemma server_unsubscribe_all_others:
  "server_unsubscribe_all w chs c n = (c', n') \<Longrightarrow>
   others_kept w (cl_id c) n n' \<and> cl_id c' = cl_id c \<and> cl_authenticated c' = cl_authenticated c"
proof (induction chs arbitrary: c n)
  case (Cons ch chs)
  obtain c1 n1 where one: "server_unsubscribe w ch c n = (c1, n1)"
    by (cases "server_unsubscribe w ch c n")
  then have "server_unsubscribe_all w chs c1 n1 = (c', n')" using Cons.prems by simp
  from Cons.IH [OF this] server_unsubscribe_others [OF one] show ?case
    using others_kept_trans by metis
qed simp

lemma proactive_refresh_keeps:
  "proactive_refresh w k c n = (d, c') \<Longrightarrow>
   cl_id c' = cl_id c \<and> cl_authenticated c' = cl_authenticated c"
  unfolding proactive_refresh_def
  by (auto simp: Let_def split: option.splits if_splits proxy_outcome.splits)

lemma leave_channel_others: "others_kept w i n (leave_channel w c x n)"
proof -
  obtain ch s where x: "x = (ch, s)" by (cases x)
  define n1 where "n1 = (if ss_presence s then node_remove_presence w ch (cl_id c) n else n)"
  have "others_kept w i n n1" by (auto simp: n1_def)
  then show ?thesis
    unfolding x leave_channel_def Let_def prod.case n1_def [symmetric]
    by (auto intro: others_kept_trans)
qed

lemma node_remove_others: "others_kept w i n (node_remove i n)"
  unfolding node_remove_def
  by (rule hub_change_others [OF _ _ _ same_config_hub])
    (auto simp: hub_get_remove sub_ids_remove hub_remove_wf)

text \<open>The end of a session: its registration and its subscriptions are gone.\<close>

definition left_node :: "world \<Rightarrow> string \<Rightarrow> 'e node \<Rightarrow> bool" where
  "left_node w i n \<longleftrightarrow> hub_get (nd_hub n) i = None \<and> (\<forall>ch. i \<notin> sub_ids w (nd_hub n) ch)"

lemma on_disconnect_leaves:
  assumes "on_disconnect w c n = (c', n')"
  shows "others_kept w (cl_id c) n n'"
    "cl_id c' = cl_id c \<and> cl_subscriptions c' = []"
    "hub_wf w (nd_hub n) \<Longrightarrow> left_node w (cl_id c) n'"
proof -
  define n1 where "n1 = fold (leave_channel w (c\<lparr>cl_subscriptions := []\<rparr>)) (cl_subscriptions c) n"
  have r: "c' = c\<lparr>cl_subscriptions := []\<rparr>" "n' = node_remove (cl_id c) n1"
    using assms unfolding on_disconnect_def n1_def Let_def by auto
  have 1: "others_kept w (cl_id c) n n1"
    unfolding n1_def by (rule fold_others) (rule leave_channel_others)
  then show "others_kept w (cl_id c) n n'"
    unfolding r by (rule others_kept_trans) (rule node_remove_others)
  show "cl_id c' = cl_id c \<and> cl_subscriptions c' = []" by (simp add: r)
  assume "hub_wf w (nd_hub n)"
  then have "hub_wf w (nd_hub n1)" by (rule others_kept_wf [OF 1])
  then show "left_node w (cl_id c) n'"
    by (simp add: left_node_def r node_remove_def hub_get_remove sub_ids_remove)
qed

section \<open>One frame\<close>

lemma subscribe_commit_keeps:
  "subscribe_commit w cmd req o1 ci ea c n = (out, c', n') \<Longrightarrow> cl_authenticated c' = cl_authenticated c"
  unfolding subscribe_commit_def Let_def by (auto split: prod.splits if_splits)

lemma on_subscribe_keeps:
  "on_subscribe w cmd c n = (out, c', n') \<Longrightarrow> cl_authenticated c' = cl_authenticated c"
  unfolding on_subscribe_def by (auto split: sum.splits prod.splits dest: subscribe_commit_keeps)

lemma on_unsubscribe_keeps:
  "on_unsubscribe w cmd c n = (out, c', n') \<Longrightarrow> cl_authenticated c' = cl_authenticated c"
  unfolding on_unsubscribe_def
  by (auto split: sum.splits if_splits prod.splits dest: unsubscribe_channel_keeps)

lemma on_refresh_keeps:
  "on_refresh w cmd c n = (out, c', n') \<Longrightarrow> cl_authenticated c' = cl_authenticated c"
  unfolding on_refresh_def
  by (auto simp: Let_def split: sum.splits if_splits verify_error.splits)

lemma on_sub_refresh_keeps:
  "on_sub_refresh w cmd c n = (out, c') \<Longrightarrow> cl_authenticated c' = cl_authenticated c"
  unfolding on_sub_refresh_def
  by (auto simp: Let_def split: sum.splits option.splits if_splits verify_error.splits prod.splits)

lemma on_publish_same: "on_publish w cmd c n = (out, c', n') \<Longrightarrow> c' = c"
  using on_publish_others by blast

lemma on_read_same:
  "on_presence w cmd c n = (out, c', n') \<Longrightarrow> c' = c"
  "on_presence_stats w cmd c n = (out, c', n') \<Longrightarrow> c' = c"
  "on_history w cmd c n = (out, c', n') \<Longrightarrow> c' = c"
  "on_rpc w cmd c n = (out, c', n') \<Longrightarrow> n' = n \<and> c' = c"
  by (blast dest: on_presence_others, blast dest: on_presence_stats_others,
      blast dest: on_history_others, blast dest: on_rpc_same)

lemmas handlers_keep = on_subscribe_keeps on_unsubscribe_keeps on_refresh_keeps on_sub_refresh_keeps
  on_publish_same on_read_same

lemma on_connect_again: "cl_authenticated c \<Longrightarrow> on_connect w cmd c n = (outcome_disconnect dc_bad_request, c, n)"
  by (simp add: on_connect_def)

lemma handle_command_keeps:
  assumes "handle_command w cmd c n = (out, c', n')" "cl_authenticated c"
  shows "cl_authenticated c' \<and> cl_id c' = cl_id c"
proof (cases "cmd_method cmd = Connect")
  case True
  then show ?thesis using assms by (simp add: handle_command_def on_connect_again Let_def)
next
  case False
  have "cl_authenticated c'"
    using assms False unfolding handle_command_def Let_def
    by (cases "cmd_method cmd") (auto split: prod.splits dest: handlers_keep)
  then show ?thesis using handle_command_others [OF assms(1)] False by simp
qed

text \<open>A session that is not authenticated after a command has changed a counter at most.\<close>

lemma handle_command_quiet:
  assumes "handle_command w cmd c n = (out, c', n')" "\<not> cl_authenticated c'"
  shows "\<exists>m. n' = n\<lparr>nd_metrics := m\<rparr>"
proof -
  have na: "\<not> cl_authenticated c" using assms handle_command_keeps by blast
  show ?thesis
  proof (cases "cmd_method cmd = Connect")
    case False
    then show ?thesis using assms na by (auto simp: handle_command_def Let_def)
  next
    case True
    then have "on_connect w cmd c (n\<lparr>nd_metrics := inc_command (method_u8 Connect) (nd_metrics n)\<rparr>) = (out, c', n')"
      using assms by (simp add: handle_command_def Let_def)
    from on_connect_cases [OF this] show ?thesis
    proof (elim disjE exE conjE)
      fix req cr chs subs
      assume "server_side_subscribe_all w chs [] (connected w c cr) (connect_register (connected w c cr)
        (n\<lparr>nd_metrics := inc_command (method_u8 Connect) (nd_metrics n)\<rparr>)) = (subs, c', n')"
      from server_side_subscribe_all_session [OF this] assms(2) show ?thesis
        by (simp add: connected_def)
    qed blast
  qed
qed

text \<open>\<open>fresh_id\<close>: a session that may still connect gets an id that no connection of the hub has.\<close>

definition fresh_id :: "world \<Rightarrow> client \<Rightarrow> 'e node \<Rightarrow> bool" where
  "fresh_id w c n \<longleftrightarrow> cl_authenticated c \<or> hub_get (nd_hub n) (wd_uuid_string w) = None"

definition turn :: "world \<Rightarrow> client \<Rightarrow> 'e node \<Rightarrow> client \<Rightarrow> 'e node \<Rightarrow> bool" where
  "turn w c n c' n' \<longleftrightarrow>
     others_kept w (cl_id c') n n' \<and> (cl_authenticated c \<longrightarrow> cl_authenticated c' \<and> cl_id c' = cl_id c) \<and>
     (\<not> cl_authenticated c' \<longrightarrow> (\<exists>m. n' = n\<lparr>nd_metrics := m\<rparr>))"

lemma turn_refl [simp]: "turn w c n c n"
  unfolding turn_def by (intro conjI impI exI [of _ "nd_metrics n"]) simp_all

lemma turn_trans:
  assumes "turn w c n c1 n1" "turn w c1 n1 c2 n2"
  shows "turn w c n c2 n2"
proof (cases "cl_authenticated c1")
  case True
  then show ?thesis using assms others_kept_trans unfolding turn_def by metis
next
  case False
  then obtain m where m: "n1 = n\<lparr>nd_metrics := m\<rparr>" using assms(1) unfolding turn_def by blast
  have "others_kept w (cl_id c2) n n1" unfolding m by (rule metrics_others)
  moreover have "\<exists>k. n2 = n\<lparr>nd_metrics := k\<rparr>" if "\<exists>k. n2 = n1\<lparr>nd_metrics := k\<rparr>"
    using that by (auto simp: m)
  ultimately show ?thesis using assms False others_kept_trans unfolding turn_def by metis
qed

lemma turn_fresh: "turn w c n c' n' \<Longrightarrow> fresh_id w c n \<Longrightarrow> fresh_id w c' n'"
  unfolding turn_def fresh_id_def by auto

lemma handle_command_turn:
  assumes "handle_command w cmd c n = (out, c', n')" "fresh_id w c n"
  shows "turn w c n c' n'"
proof -
  have "others_kept w (cl_id c') n n'"
  proof (cases "cmd_method cmd = Connect \<and> cl_authenticated c")
    case True
    then have "n' = n\<lparr>nd_metrics := inc_command (method_u8 Connect) (nd_metrics n)\<rparr>"
      using assms(1) by (simp add: handle_command_def on_connect_again Let_def)
    then show ?thesis by (simp add: metrics_others)
  next
    case False
    then have "cmd_method cmd = Connect \<longrightarrow> hub_get (nd_hub n) (wd_uuid_string w) = None"
      using assms(2) unfolding fresh_id_def by blast
    from handle_command_others [OF assms(1) this] show ?thesis by (rule conjunct1)
  qed
  then show ?thesis
    unfolding turn_def using handle_command_keeps [OF assms(1)] handle_command_quiet [OF assms(1)] by blast
qed

lemma process_commands_turn:
  "process_commands w cmds c n = (rs, d, c', n') \<Longrightarrow> fresh_id w c n \<Longrightarrow> turn w c n c' n'"
proof (induction cmds arbitrary: c n rs d)
  case (Cons cmd cmds)
  obtain out c1 n1 where one: "handle_command w cmd c n = (out, c1, n1)"
    by (cases "handle_command w cmd c n")
  have 1: "turn w c n c1 n1" using one Cons.prems(2) by (rule handle_command_turn)
  consider "c' = c" "n' = n" | "c' = c1" "n' = n1"
    | rs2 d2 where "process_commands w cmds c1 n1 = (rs2, d2, c', n')"
    using Cons.prems(1) one by (auto split: if_splits option.splits prod.splits)
  then show ?case
  proof cases
    case (3 rs2 d2)
    from Cons.IH [OF this turn_fresh [OF 1 Cons.prems(2)]] show ?thesis by (rule turn_trans [OF 1])
  qed (use 1 in simp_all)
qed simp

section \<open>One event\<close>

definition kept_by :: "world \<Rightarrow> 'e node \<Rightarrow> 'e step_result \<Rightarrow> bool" where
  "kept_by w n r \<longleftrightarrow> others_kept w (cl_id (fst (snd r))) n (snd (snd r))"

lemma kept_by_after:
  assumes "others_kept w (cl_id c) n n1" "kept_by w n1 r" "cl_id (fst (snd r)) = cl_id c"
  shows "kept_by w n r"
  using assms others_kept_trans unfolding kept_by_def by metis

lemma close_with_kept: "kept_by w n (close_with w d c n) \<and> cl_id (fst (snd (close_with w d c n))) = cl_id c"
  by (simp add: close_with_def kept_by_def node_send_others)

lemma finish_frame_kept: "kept_by w n (finish_frame w d c n) \<and> cl_id (fst (snd (finish_frame w d c n))) = cl_id c"
proof -
  obtain c1 n1 where f: "flush_pending_joins w c n = (c1, n1)" by (cases "flush_pending_joins w c n")
  then have i: "cl_id c1 = cl_id c" and 1: "others_kept w (cl_id c1) n n1"
    using flush_joins_others [OF f] by simp_all
  show ?thesis
  proof (cases d)
    case None
    then have "finish_frame w d c n = (False, c1, n1)" using f by (simp add: finish_frame_def)
    then show ?thesis using 1 i by (simp add: kept_by_def)
  next
    case (Some dc)
    then have "finish_frame w d c n = close_with w dc c1 n1" using f by (simp add: finish_frame_def)
    then show ?thesis using kept_by_after [OF 1] close_with_kept [of w n1 dc c1] i by simp
  qed
qed

text \<open>What follows the commands of a frame: nothing but sending and publishing.\<close>

lemma after_commands_kept:
  assumes "process_commands w cmds c n = (rs, d, c1, n1)" "fresh_id w c n"
  shows "kept_by w n (finish_frame w d c1 n1)" "kept_by w n (close_with w dc c1 n1)"
    "kept_by w n (True, c1, n1)" "kept_by w n (finish_frame w d c1 (node_send w q item n1))"
proof -
  from process_commands_turn [OF assms] have 1: "others_kept w (cl_id c1) n n1" unfolding turn_def by blast
  show "kept_by w n (finish_frame w d c1 n1)" "kept_by w n (close_with w dc c1 n1)"
    using kept_by_after [OF 1] finish_frame_kept close_with_kept by blast+
  show "kept_by w n (True, c1, n1)" using 1 by (simp add: kept_by_def)
  have "others_kept w (cl_id c1) n (node_send w q item n1)"
    using 1 by (rule others_kept_trans) (rule node_send_others)
  then show "kept_by w n (finish_frame w d c1 (node_send w q item n1))"
    using kept_by_after finish_frame_kept by blast
qed

lemma ws_frame_kept:
  assumes "fresh_id w c n"
  shows "kept_by w n (ws_frame w frame c n)"
proof (cases "frame = []")
  case True
  then show ?thesis by (simp add: ws_frame_def close_with_kept)
next
  case False
  show ?thesis
  proof (cases "decode_commands (wd_wire w) (cl_proto c) frame")
    case (Inl e)
    then show ?thesis using False by (simp add: ws_frame_def close_with_kept)
  next
    case (Inr cmds)
    obtain rs d c1 n1 where p: "process_commands w cmds c n = (rs, d, c1, n1)"
      by (cases "process_commands w cmds c n")
    show ?thesis
      using False Inr p after_commands_kept [OF p assms]
      by (simp add: ws_frame_def Let_def split: sum.split)
  qed
qed

lemma sockjs_frame_kept:
  assumes "fresh_id w c n"
  shows "kept_by w n (sockjs_frame w frame c n)"
proof (cases "frame = []")
  case True
  then show ?thesis by (simp add: sockjs_frame_def close_with_kept)
next
  case False
  show ?thesis
  proof (cases "decode_commands (wd_wire w) Json frame")
    case (Inl e)
    then show ?thesis using False by (simp add: sockjs_frame_def close_with_kept)
  next
    case (Inr cmds)
    obtain rs d c1 n1 where p: "process_commands w cmds c n = (rs, d, c1, n1)"
      by (cases "process_commands w cmds c n")
    show ?thesis
      using False Inr p after_commands_kept [OF p assms]
      by (simp add: sockjs_frame_def Let_def split: sum.split)
  qed
qed

lemma expiry_tick_kept: "kept_by w n (expiry_tick w c n)"
proof -
  obtain d c1 where p: "proactive_refresh w (u64_as_i64 (nd_presence_ping_secs n)) c n = (d, c1)"
    by (cases "proactive_refresh w (u64_as_i64 (nd_presence_ping_secs n)) c n")
  have "kept_by w n (False, c1, n)" by (simp add: kept_by_def)
  then show ?thesis
    using p close_with_kept by (auto simp: expiry_tick_def split: option.split)
qed

lemma handle_signal_kept: "kept_by w n (handle_signal w sig c n)"
proof (cases sig)
  case (SigUnsubscribe ch)
  obtain c1 n1 where all: "server_unsubscribe_all w (subscribed_channels c) c n = (c1, n1)"
    by (cases "server_unsubscribe_all w (subscribed_channels c) c n")
  obtain c2 n2 where one: "server_unsubscribe w ch c n = (c2, n2)"
    by (cases "server_unsubscribe w ch c n")
  show ?thesis
    using SigUnsubscribe all one server_unsubscribe_all_others [OF all] server_unsubscribe_others [OF one]
    by (simp add: handle_signal_def kept_by_def)
next
  case (SigDisconnect d)
  then show ?thesis by (simp add: handle_signal_def close_with_kept)
qed

lemma loop_step_kept:
  assumes "\<And>frame. kept_by w n (on_frame w frame c n)"
  shows "kept_by w n (loop_step on_frame w ev c n)"
  using assms expiry_tick_kept handle_signal_kept
  by (cases ev) (simp_all add: loop_step_def, simp_all add: kept_by_def refresh_presence_others)

text \<open>Both transports: the turn and, when the loop was left, the end of the session.\<close>

definition session_step ::
    "bool \<Rightarrow> world \<Rightarrow> session_event \<Rightarrow> client \<Rightarrow> 'e node \<Rightarrow> 'e step_result" where
  "session_step sockjs w ev c n = with_end w (if sockjs then sockjs_step w ev c n else ws_step w ev c n)"

lemma session_step_kept:
  assumes "fresh_id w c n" "session_step sockjs w ev c n = (left, c', n')"
  shows "others_kept w (cl_id c') n n'"
    and "left \<Longrightarrow> hub_wf w (nd_hub n) \<Longrightarrow> cl_subscriptions c' = [] \<and> left_node w (cl_id c') n'"
proof -
  obtain l c1 n1 where s: "(if sockjs then sockjs_step w ev c n else ws_step w ev c n) = (l, c1, n1)"
    by (cases "if sockjs then sockjs_step w ev c n else ws_step w ev c n")
  have "kept_by w n (if sockjs then sockjs_step w ev c n else ws_step w ev c n)"
    unfolding sockjs_step_def ws_step_def
    using loop_step_kept [of w n sockjs_frame c ev] loop_step_kept [of w n ws_frame c ev]
      ws_frame_kept [OF assms(1)] sockjs_frame_kept [OF assms(1)] by simp
  then have 1: "others_kept w (cl_id c1) n n1" unfolding s kept_by_def by simp
  have r: "if l then left \<and> on_disconnect w c1 n1 = (c', n') else \<not> left \<and> c' = c1 \<and> n' = n1"
    using assms(2) s by (auto simp: session_step_def with_end_def split: if_splits prod.splits)
  show "others_kept w (cl_id c') n n'"
    using r 1 on_disconnect_leaves(1,2) [of w c1 n1 c' n'] others_kept_trans by (metis (full_types))
  show "left \<Longrightarrow> hub_wf w (nd_hub n) \<Longrightarrow> cl_subscriptions c' = [] \<and> left_node w (cl_id c') n'"
    using r on_disconnect_leaves(2,3) [of w c1 n1 c' n'] others_kept_wf [OF 1] by (metis (full_types))
qed

section \<open>Properties\<close>

text \<open>
  C3: One turn of a read loop, of either transport and with any event, keeps the rest of the node:
  the hub stays well formed, the log only grows, and every other connection keeps its registration
  and all its subscriptions, or is closed with code 3008 because its own queue was full. When the
  turn leaves the loop, nothing of the session is left: it is not registered any more and no channel
  lists it as a subscriber. The id a CONNECT draws must be new.\<close>

theorem session_turn_isolated:
  assumes "hub_wf w (nd_hub n)" "fresh_id w c n" "session_step sockjs w ev c n = (left, c', n')"
  shows "hub_wf w (nd_hub n') \<and>
    (\<exists>evs. nd_log n' = nd_log n @ evs \<and>
       (\<forall>j x. j \<noteq> cl_id c' \<longrightarrow> hub_get (nd_hub n) j = Some x \<longrightarrow>
          hub_get (nd_hub n') j = Some x \<and> (\<forall>ch. (j \<in> sub_ids w (nd_hub n') ch) = (j \<in> sub_ids w (nd_hub n) ch)) \<or>
          hub_get (nd_hub n') j = None \<and> SpawnClose (ch_tx x) dc_slow \<in> set evs)) \<and>
    (left \<longrightarrow> cl_subscriptions c' = [] \<and> hub_get (nd_hub n') (cl_id c') = None \<and>
       (\<forall>ch. cl_id c' \<notin> sub_ids w (nd_hub n') ch))"
proof -
  from others_keptD [OF session_step_kept(1) [OF assms(2,3)] assms(1)] obtain evs
    where 1: "hub_wf w (nd_hub n')" "nd_log n' = nd_log n @ evs"
      "\<And>j x. j \<noteq> cl_id c' \<Longrightarrow> hub_get (nd_hub n) j = Some x \<Longrightarrow>
         hub_get (nd_hub n') j = Some x \<and>
           (\<forall>ch. (j \<in> sub_ids w (nd_hub n') ch) = (j \<in> sub_ids w (nd_hub n) ch)) \<or>
         hub_get (nd_hub n') j = None \<and> SpawnClose (ch_tx x) dc_slow \<in> set evs"
    by blast
  from session_step_kept(2) [OF assms(2,3) _ assms(1)]
  have 2: "left \<longrightarrow> cl_subscriptions c' = [] \<and> hub_get (nd_hub n') (cl_id c') = None \<and>
       (\<forall>ch. cl_id c' \<notin> sub_ids w (nd_hub n') ch)"
    unfolding left_node_def by blast
  have "\<exists>evs. nd_log n' = nd_log n @ evs \<and>
       (\<forall>j x. j \<noteq> cl_id c' \<longrightarrow> hub_get (nd_hub n) j = Some x \<longrightarrow>
          hub_get (nd_hub n') j = Some x \<and> (\<forall>ch. (j \<in> sub_ids w (nd_hub n') ch) = (j \<in> sub_ids w (nd_hub n) ch)) \<or>
          hub_get (nd_hub n') j = None \<and> SpawnClose (ch_tx x) dc_slow \<in> set evs)"
    by (rule exI [of _ evs]) (intro conjI allI impI 1)
  with 1(1) 2 show ?thesis by (intro conjI)
qed

definition listed_client :: client where
  "listed_client = (client_new 3 Json)\<lparr>cl_id := ch_id sample_handle, cl_authenticated := True\<rparr>"

theorem session_turn_isolated_witness:
  "hub_get (nd_hub sample_node) (ch_id sample_handle) = Some sample_handle \<and>
   hub_get (nd_hub (snd (snd (session_step False sample_world EvEnd listed_client sample_node))))
     (ch_id sample_handle) = None"
proof -
  obtain left c' n' where r: "session_step False sample_world EvEnd listed_client sample_node = (left, c', n')"
    by (cases "session_step False sample_world EvEnd listed_client sample_node")
  have e: "left" "cl_id c' = ch_id sample_handle"
    using r by (auto simp: session_step_def with_end_def ws_step_def loop_step_def on_disconnect_def
        listed_client_def client_new_def Let_def)
  have "hub_wf sample_world (nd_hub sample_node)" by (simp add: sample_hub_wf)
  moreover have "fresh_id sample_world listed_client sample_node"
    by (simp add: fresh_id_def listed_client_def)
  ultimately have "hub_get (nd_hub n') (ch_id sample_handle) = None"
    using session_turn_isolated [OF _ _ r] e by simp
  then show ?thesis
    by (simp add: r sample_hub_def hub_get_subscribe hub_get_add)
qed

end
