(* ===== verification/Delivery.thy ===== *)
theory Delivery
  imports Isolation
begin

text \<open>
  What crosses the wire and what a client recovers: frames of commands and replies come back as
  they were sent, the position a client is given names the same place of the stream when it is sent
  back, and a subscription that recovers gets the publications it missed.
\<close>

section \<open>Positions\<close>

lemma ucast_low: "ucast (ucast (v :: u64) :: u32) = take_bit 32 v"
  by (rule bit_word_eqI) (auto simp: bit_simps)

lemma ucast_high: "ucast (ucast (drop_bit 32 (v :: u64)) :: u32) = drop_bit 32 v"
  unfolding ucast_low by (rule bit_word_eqI) (auto simp: bit_simps dest: bit_imp_le_length)

lemma pack_unpack:
  "pack_offset (fst (unpack_offset v)) (snd (unpack_offset v)) = v - drop_bit 32 v"
proof -
  have "push_bit 32 (drop_bit 32 v) + take_bit 32 v = v" by (rule bits_ident)
  then have v: "drop_bit 32 v * 2 ^ 32 + take_bit 32 v = v" by (simp add: push_bit_eq_mult)
  have "drop_bit 32 v * 0xFFFFFFFF + take_bit 32 v = drop_bit 32 v * 2 ^ 32 + take_bit 32 v - drop_bit 32 v"
    by (simp add: algebra_simps)
  with v show ?thesis by (simp only: pack_offset_def unpack_offset_def ucast_high ucast_low [of v] fst_conv snd_conv)
qed

lemma unpack_zero: "fst (unpack_offset v) = 0 \<Longrightarrow> snd (unpack_offset v) = 0 \<Longrightarrow> v = 0"
  using unpack_offset_value [of v] by (simp add: unat_eq_0 [symmetric])

text \<open>
  C14: The position of a SUBSCRIBE reply, sent back to recover, is the same offset when positions
  are offsets; as seq and gen it is, as the comment of \<open>pack_offset\<close> says, only below the offset
  \<open>2 ^ 32\<close>, and beyond that falls short by the gen.\<close>

theorem position_round_trip:
  "(let r = encode_position v sg (subscribe_result_default\<lparr>sr_recoverable := True, sr_epoch := e\<rparr>);
        q = request_offset (req\<lparr>sq_seq := sr_seq r, sq_gen := sr_gen r, sq_offset := sr_offset r\<rparr>)
    in q = (if sg then v - drop_bit 32 v else v) \<and> (q = v \<longleftrightarrow> \<not> (sg \<and> 2 ^ 32 \<le> v)))"
proof -
  have small: "v - drop_bit 32 v = v \<longleftrightarrow> v < 2 ^ 32"
  proof -
    have "v - drop_bit 32 v = v \<longleftrightarrow> drop_bit 32 v = 0" by simp
    also have "\<dots> \<longleftrightarrow> unat (drop_bit 32 v) = 0" by (simp only: unat_eq_0)
    also have "\<dots> \<longleftrightarrow> unat v div 2 ^ 32 = 0" by (simp add: drop_bit_eq_div unat_div)
    also have "\<dots> \<longleftrightarrow> v < 2 ^ 32" by (simp add: div_eq_0_iff word_less_nat_alt)
    finally show ?thesis .
  qed
  let ?req = "req\<lparr>sq_seq := fst (unpack_offset v), sq_gen := snd (unpack_offset v), sq_offset := 0\<rparr>"
  have "request_offset ?req = v - drop_bit 32 v"
    using pack_unpack [of v] unpack_zero [of v]
    by (auto simp: request_offset_def word_greater_zero_iff)
  then show ?thesis
    using small
    by (cases sg) (simp_all add: encode_position_def split_def Let_def subscribe_result_default_def
        linorder_not_le, simp_all add: request_offset_def)
qed

section \<open>Recovery\<close>

text \<open>What a SUBSCRIBE reply lists of the publications \<open>pubs\<close>: newest first under seq and gen.\<close>

definition listed_pubs :: "bool \<Rightarrow> publication list \<Rightarrow> publication list" where
  "listed_pubs sg pubs = (if sg then rev (map seq_gen_publication pubs) else pubs)"

lemma node_history_since_memory:
  assumes "nd_engine_ops n = memory_ops"
  shows "node_history_since w ch off ep n =
    (let s = stream_entry w ch (evict_if_expired w ch (me_history (nd_engine n)))
     in (stream_since s off ep,
         n\<lparr>nd_engine := (nd_engine n)\<lparr>me_history :=
             hm_insert ch s (evict_if_expired w ch (me_history (nd_engine n)))\<rparr>\<rparr>))"
  using assms by (simp add: node_history_since_def memory_ops_def call_engine_def mem_history_since_def Let_def)

lemma encode_position_simps [simp]:
  "sr_recovered (encode_position v sg r) = sr_recovered r"
  "sr_recoverable (encode_position v sg r) = sr_recoverable r"
  "sr_epoch (encode_position v sg r) = sr_epoch r"
  by (simp_all add: encode_position_def split_def Let_def)

text \<open>
  C4: Recovery on the memory engine. A reply that says recovered lists exactly the publications of
  the channel's log after the position of the request, none missing and none twice, in the same
  epoch; and it says so whenever the request names the epoch of the stream and a position in it
  whose successors are all still kept. Recovering changes neither the log of the channel nor any
  queue.\<close>

theorem recovery_exact:
  assumes "nd_engine_ops n = memory_ops" "mem_holds G (nd_engine n)"
    and "co_history_recover o1" "sq_recover req" "subscribe_result_of w req o1 n = (r, n')"
  shows "let L = live_log w G (nd_engine n) (sq_channel req); seen = unat (request_offset req);
      s = stream_entry w (sq_channel req) (evict_if_expired w (sq_channel req) (me_history (nd_engine n)))
    in (sr_recovered r \<longrightarrow> sq_epoch req = sm_epoch s \<and> seen \<le> length L \<and>
          sr_publications r = listed_pubs (nd_use_seq_gen n) (drop seen L)) \<and>
       (sq_epoch req = sm_epoch s \<and> seen \<le> length L \<and> length L - seen \<le> length (sm_pubs s) \<longrightarrow> sr_recovered r) \<and>
       sr_epoch r = sm_epoch s \<and> mem_holds (G(sq_channel req := L)) (nd_engine n') \<and>
       nd_log n' = nd_log n \<and> nd_hub n' = nd_hub n"
proof -
  let ?ch = "sq_channel req" and ?off = "request_offset req"
  let ?s = "stream_entry w ?ch (evict_if_expired w ?ch (me_history (nd_engine n)))"
  let ?L = "live_log w G (nd_engine n) ?ch"
  obtain pubs pos where sn: "stream_since ?s ?off (sq_epoch req) = (pubs, pos)"
    by (cases "stream_since ?s ?off (sq_epoch req)")
  have h: "stream_holds ?L (sm_epoch ?s) ?s" using assms(2) by (rule evict_entry_holds)
  have r: "sr_recovered r = is_recovered pubs pos ?off (sq_epoch req)" "sr_epoch r = sp_epoch pos"
      "sr_publications r = listed_pubs (nd_use_seq_gen n) pubs"
    and n': "n' = n\<lparr>nd_engine := (nd_engine n)\<lparr>me_history :=
        hm_insert ?ch ?s (evict_if_expired w ?ch (me_history (nd_engine n)))\<rparr>\<rparr>"
    using assms(3,4,5) sn
    by (auto simp: subscribe_result_of_def node_history_since_memory [OF assms(1)] listed_pubs_def Let_def)
  have top: "sp_epoch pos = sm_epoch ?s" using mem.since_top [OF h, of ?off "sq_epoch req"] sn by simp
  have 1: "sq_epoch req = sm_epoch ?s \<and> unat ?off \<le> length ?L \<and> pubs = drop (unat ?off) ?L"
    if "sr_recovered r"
    using mem.recovered_complete [OF h, of ?off "sq_epoch req"] that sn by (simp add: r)
  have 2: "sr_recovered r"
    if "sq_epoch req = sm_epoch ?s \<and> unat ?off \<le> length ?L \<and> length ?L - unat ?off \<le> length (sm_pubs ?s)"
    using mem.recovered_if_kept [OF h, of ?off] that sn by (simp add: r stream_kept_def)
  have 3: "mem_holds (G(?ch := ?L)) (nd_engine n')"
    using mem_holds_insert [OF assms(2) h] by (simp add: n')
  have 4: "nd_log n' = nd_log n" "nd_hub n' = nd_hub n" by (simp_all add: n')
  show ?thesis
    unfolding Let_def r(2,3) top using 1 2 3 4 by (intro conjI impI) simp_all
qed

text \<open>A channel with two publications; a client that saw the first recovers the second.\<close>

definition recovery_engine :: memory_engine where
  "recovery_engine =
     (let pub = (\<lambda>d e. snd (snd (mem_publish sample_world ''news'' d None
                    (co_publish_options sample_history_options) e)))
      in pub [2] (pub [1] memory_engine_new))"

definition recovery_log :: "publication list" where
  "recovery_log = [history_publication [1] None 1, history_publication [2] None 2]"

definition recovery_request :: subscribe_request where
  "recovery_request = subscribe_request_default
     \<lparr>sq_channel := ''news'', sq_recover := True, sq_seq := 1, sq_epoch := new_epoch (replicate 16 0)\<rparr>"

lemma recovery_engine_eq:
  "recovery_engine =
     memory_engine_new\<lparr>me_history :=
       [(''news'', \<lparr>sm_offset = 2, sm_epoch = new_epoch (replicate 16 0), sm_pubs = recovery_log,
          sm_expire_at = 1060, sm_meta_expire_at = i64_max\<rparr>)]\<rparr>"
  by code_simp

theorem recovery_exact_witness:
  "sr_recovered (fst (subscribe_result_of sample_world recovery_request sample_history_options
     (sample_node\<lparr>nd_engine := recovery_engine\<rparr>))) \<and>
   sr_publications (fst (subscribe_result_of sample_world recovery_request sample_history_options
     (sample_node\<lparr>nd_engine := recovery_engine\<rparr>))) = [seq_gen_publication (history_publication [2] None 2)]"
proof -
  let ?n = "sample_node\<lparr>nd_engine := recovery_engine\<rparr>"
  obtain r n' where res: "subscribe_result_of sample_world recovery_request sample_history_options ?n = (r, n')"
    by (cases "subscribe_result_of sample_world recovery_request sample_history_options ?n")
  have e: "evict_if_expired sample_world ''news'' (me_history recovery_engine) = me_history recovery_engine"
    by (simp add: recovery_engine_eq evict_if_expired_def i64_max_def)
  have L: "live_log sample_world (\<lambda>c. recovery_log) recovery_engine ''news'' = recovery_log"
    unfolding live_log_def e by (simp add: recovery_engine_eq hm_contains_def)
  have "numbered recovery_log"
    by (auto simp: numbered_def recovery_log_def history_publication_def less_Suc_eq)
  then have "mem_holds (\<lambda>c. recovery_log) (nd_engine ?n)"
    by (auto simp: mem_holds_def recovery_engine_eq stream_holds_def recovery_log_def split: if_splits)
  from recovery_exact [OF _ this _ _ res] have
    "sr_recovered r \<and> sr_publications r = listed_pubs True (drop 1 recovery_log)"
    by (simp add: recovery_request_def sample_history_options_def request_offset_def pack_offset_def
        stream_entry_def e L subscribe_request_default_def)
      (simp add: recovery_engine_eq recovery_log_def Let_def)
  then show ?thesis by (simp add: res listed_pubs_def recovery_log_def)
qed

section \<open>Frames\<close>

lemma uvarint_cut:
  "k < length (encode_uvarint v) \<Longrightarrow> decode_uvarint_from i s r (take k (encode_uvarint v)) = None"
proof (induction v arbitrary: i s r k rule: encode_uvarint.induct)
  case (1 v)
  show ?case
  proof (cases "0x80 \<le> v")
    case True
    then have e: "encode_uvarint v = (ucast v OR 0x80) # encode_uvarint (drop_bit 7 v)"
      by (simp add: encode_uvarint.simps [of v])
    show ?thesis
    proof (cases k)
      case (Suc m)
      then have "m < length (encode_uvarint (drop_bit 7 v))" using 1(2) e by simp
      from 1(1) [OF True this] Suc e show ?thesis by (simp add: uvarint_mid_byte(2) Let_def)
    qed simp
  next
    case False
    then show ?thesis using 1(2) by (simp add: encode_uvarint.simps [of v])
  qed
qed

text \<open>A frame that was cut short holds whole messages, or it is refused.\<close>

lemma pb_frames_cut:
  assumes "\<And>x. x \<in> set xs \<Longrightarrow> dec (enc x) = Inr (f x)"
    and "\<And>x. x \<in> set xs \<Longrightarrow> length (enc x :: bytes) + 10 < 2 ^ 64"
  shows "(\<exists>j. pb_frames dec (take k (pb_delimited enc xs)) = Inr (map f (take j xs))) \<or>
    pb_frames dec (take k (pb_delimited enc xs)) = Inl Truncated"
  using assms
proof (induction xs arbitrary: k)
  case (Cons x xs)
  let ?u = "encode_uvarint (of_nat (length (enc x)))" and ?b = "enc x" and ?rest = "pb_delimited enc xs"
  have short: "length ?b + 10 < 2 ^ 64" and dec: "dec ?b = Inr (f x)" using Cons.prems by auto
  show ?case
  proof (cases "length ?u + length ?b \<le> k")
    case True
    then have t: "take k (pb_delimited enc (x # xs)) = ?u @ ?b @ take (k - length ?u - length ?b) ?rest"
      by (simp add: Let_def)
    have IH: "(\<exists>j. pb_frames dec (take (k - length ?u - length ?b) ?rest) = Inr (map f (take j xs))) \<or>
        pb_frames dec (take (k - length ?u - length ?b) ?rest) = Inl Truncated"
      using Cons.prems by (intro Cons.IH) auto
    then show ?thesis
    proof (elim disjE exE)
      fix j
      assume "pb_frames dec (take (k - length ?u - length ?b) ?rest) = Inr (map f (take j xs))"
      then have "pb_frames dec (take k (pb_delimited enc (x # xs))) = Inr (map f (take (Suc j) (x # xs)))"
        unfolding t by (simp add: pb_frames_step [OF short] dec)
      then show ?thesis by blast
    next
      assume "pb_frames dec (take (k - length ?u - length ?b) ?rest) = Inl Truncated"
      then have "pb_frames dec (take k (pb_delimited enc (x # xs))) = Inl Truncated"
        unfolding t by (simp add: pb_frames_step [OF short] dec)
      then show ?thesis by blast
    qed
  next
    case False
    show ?thesis
    proof (cases "k < length ?u")
      case True
      have t: "take k (pb_delimited enc (x # xs)) = take k ?u" using True by (simp add: Let_def)
      show ?thesis
      proof (cases "k = 0")
        case True
        then have "pb_frames dec (take k (pb_delimited enc (x # xs))) = Inr (map f (take 0 (x # xs)))" by simp
        then show ?thesis by blast
      next
        case False
        then have "pb_frames dec (take k ?u) = Inl Truncated"
          using uvarint_cut [OF True] by (subst pb_frames.simps) (simp add: decode_uvarint_def)
        then show ?thesis unfolding t by blast
      qed
    next
      case False
      with \<open>\<not> length ?u + length ?b \<le> k\<close> have "k - length ?u < length ?b" by auto
      from pb_frames_truncated [OF short this, of dec] False \<open>\<not> length ?u + length ?b \<le> k\<close>
      show ?thesis by (simp add: Let_def)
    qed
  qed
qed simp

text \<open>
  C13: Protobuf frames. When the protobuf library reads back what it writes, a frame of commands
  decodes to the commands that were encoded, in order, with an absent payload where it was empty,
  and so does a frame of replies. A frame of commands that was cut anywhere decodes to a prefix of
  its commands or is refused as truncated: no command is ever made up.\<close>

theorem frames_round_trip:
  assumes "\<forall>c \<in> set cmds. w_pb_command_dec W (w_pb_command_enc W (command_to_pb c)) = Some (command_to_pb c)"
    and "\<forall>c \<in> set cmds. length (w_pb_command_enc W (command_to_pb c)) + 10 < 2 ^ 64"
    and "\<forall>r \<in> set rs. w_pb_reply_dec W (w_pb_reply_enc W (reply_to_pb r)) = Some (reply_to_pb r)"
    and "\<forall>r \<in> set rs. length (w_pb_reply_enc W (reply_to_pb r)) + 10 < 2 ^ 64"
  shows "\<exists>b d. encode_commands W Protobuf cmds = Inr b \<and> encode_replies W Protobuf rs = Inr d \<and>
    decode_commands W Protobuf b = Inr (map command_norm cmds) \<and>
    decode_replies W Protobuf d = Inr (map reply_norm rs) \<and>
    (\<forall>k. (\<exists>j. decode_commands W Protobuf (take k b) = Inr (map command_norm (take j cmds))) \<or>
         decode_commands W Protobuf (take k b) = Inl Truncated)"
proof -
  let ?enc = "\<lambda>c. w_pb_command_enc W (command_to_pb c)"
  let ?dec = "\<lambda>b. case w_pb_command_dec W b of None \<Rightarrow> Inl ProtoDecode | Some msg \<Rightarrow> command_from_pb msg"
  have d: "?dec (?enc c) = Inr (command_norm c)" "length (?enc c) + 10 < 2 ^ 64" if "c \<in> set cmds" for c
    using assms(1,2) that by (simp_all add: command_from_to_pb)
  have r: "pb_frames (\<lambda>b. case w_pb_reply_dec W b of None \<Rightarrow> Inl ProtoDecode | Some msg \<Rightarrow> Inr (reply_from_pb msg))
      (pb_delimited (\<lambda>r. w_pb_reply_enc W (reply_to_pb r)) rs) = Inr (map reply_norm rs)"
    using assms(3,4) by (intro pb_frames_delimited) (simp_all add: pb_reply.from_to)
  show ?thesis
    using pb_frames_delimited [of cmds ?dec ?enc, OF d] pb_frames_cut [of cmds ?dec ?enc, OF d] r
    by (simp add: encode_commands_def encode_replies_def decode_commands_def decode_replies_def)
qed

text \<open>Two commands, written as their id.\<close>

definition id_wire :: wire where
  "id_wire = sample_wire\<lparr>
     w_pb_command_enc := (\<lambda>c. [ucast (pcmd_id c)]),
     w_pb_command_dec := (\<lambda>b. Some \<lparr>pcmd_id = ucast (hd b), pcmd_method = 7, pcmd_params = []\<rparr>)\<rparr>"

definition two_pings :: "command list" where
  "two_pings = [\<lparr>cmd_id = 1, cmd_method = Ping, cmd_params = Some []\<rparr>,
     \<lparr>cmd_id = 2, cmd_method = Ping, cmd_params = None\<rparr>]"

theorem frames_round_trip_witness:
  "\<exists>b. encode_commands id_wire Protobuf two_pings = Inr b \<and>
     decode_commands id_wire Protobuf b =
       Inr [\<lparr>cmd_id = 1, cmd_method = Ping, cmd_params = None\<rparr>, \<lparr>cmd_id = 2, cmd_method = Ping, cmd_params = None\<rparr>]"
proof -
  have 1: "\<forall>c \<in> set two_pings. w_pb_command_dec id_wire (w_pb_command_enc id_wire (command_to_pb c)) = Some (command_to_pb c)"
    "\<forall>c \<in> set two_pings. length (w_pb_command_enc id_wire (command_to_pb c)) + 10 < 2 ^ 64"
    by (simp_all add: two_pings_def id_wire_def command_to_pb_def raw_to_vec_def)
  have "map command_norm two_pings =
      [\<lparr>cmd_id = 1, cmd_method = Ping, cmd_params = None\<rparr>, \<lparr>cmd_id = 2, cmd_method = Ping, cmd_params = None\<rparr>]"
    by (simp add: two_pings_def command_norm_def norm_raw_def)
  then show ?thesis using frames_round_trip [OF 1, of "[]"] by auto
qed

end
