(* ===== verification/Admin.thy ===== *)
theory Admin
  imports Auth
begin

text \<open>
  The admin endpoints of the server (\<open>admin.rs\<close>; the token check of \<open>admin_api_handler\<close> and the API
  key check of \<open>api.rs\<close>): the decoding of a posted form, \<open>POST /admin/auth\<close>, and who may use the
  server API. Texts are their UTF-8 bytes, one \<open>char\<close> each; a panic of the decoder is \<open>None\<close>.
\<close>

section \<open>Reading a form\<close>

definition byte_of :: "char \<Rightarrow> nat" where "byte_of c = of_char c"

text \<open>A byte that is not the first of a character: 10xxxxxx.\<close>

definition is_cont :: "char \<Rightarrow> bool" where
  "is_cont c = (128 \<le> byte_of c \<and> byte_of c < 192)"

definition radix16_digit :: "char \<Rightarrow> nat option" where
  "radix16_digit c =
     (let n = byte_of c in
      if 48 \<le> n \<and> n \<le> 57 then Some (n - 48)
      else if 65 \<le> n \<and> n \<le> 70 then Some (n - 55)
      else if 97 \<le> n \<and> n \<le> 102 then Some (n - 87) else None)"

text \<open>\<open>u8::from_str_radix\<close> on two characters: a leading \<open>+\<close> is allowed.\<close>

definition from_str_radix16 :: "char \<Rightarrow> char \<Rightarrow> nat option" where
  "from_str_radix16 a b =
     (if a = CHR ''+'' then radix16_digit b
      else (case (radix16_digit a, radix16_digit b) of
              (Some x, Some y) \<Rightarrow> Some (16 * x + y) | _ \<Rightarrow> None))"

text \<open>The slice \<open>s[i + 1..i + 3]\<close> panics when it would end inside a character.\<close>

fun urldecode_bytes :: "string \<Rightarrow> string option" where
  "urldecode_bytes [] = Some []"
| "urldecode_bytes (c # cs) =
     (if c = CHR ''+'' then map_option (Cons (CHR '' '')) (urldecode_bytes cs)
      else if c = CHR ''%'' then
        (case cs of
           a # b # rest \<Rightarrow>
             if is_cont a \<or> rest \<noteq> [] \<and> is_cont (hd rest) then None
             else (case from_str_radix16 a b of
                     Some n \<Rightarrow> map_option (Cons (char_of n)) (urldecode_bytes rest)
                   | None \<Rightarrow> map_option (Cons c) (urldecode_bytes cs))
         | _ \<Rightarrow> map_option (Cons c) (urldecode_bytes cs))
      else map_option (Cons c) (urldecode_bytes cs))"

text \<open>
  \<open>String::from_utf8_lossy\<close>: \<open>utf8_chunk\<close> gives how many bytes the next character or the next broken
  sequence takes, and which of the two it is; a broken one becomes U+FFFD.
\<close>

definition byte_in :: "nat \<Rightarrow> nat \<Rightarrow> nat list \<Rightarrow> nat \<Rightarrow> bool" where
  "byte_in lo hi bs i = (i < length bs \<and> lo \<le> bs ! i \<and> bs ! i \<le> hi)"

definition utf8_chunk :: "nat list \<Rightarrow> nat \<times> bool" where
  "utf8_chunk bs =
     (let b = bs ! 0 in
      if b < 128 then (1, True)
      else if 194 \<le> b \<and> b \<le> 223 then if byte_in 128 191 bs 1 then (2, True) else (1, False)
      else if 224 \<le> b \<and> b \<le> 239 then
        (if \<not> byte_in (if b = 224 then 160 else 128) (if b = 237 then 159 else 191) bs 1 then (1, False)
         else if \<not> byte_in 128 191 bs 2 then (2, False) else (3, True))
      else if 240 \<le> b \<and> b \<le> 244 then
        (if \<not> byte_in (if b = 240 then 144 else 128) (if b = 244 then 143 else 191) bs 1 then (1, False)
         else if \<not> byte_in 128 191 bs 2 then (2, False)
         else if \<not> byte_in 128 191 bs 3 then (3, False) else (4, True))
      else (1, False))"

lemma utf8_chunk_pos: "0 < fst (utf8_chunk bs)"
  by (simp add: utf8_chunk_def Let_def)

function utf8_lossy :: "string \<Rightarrow> string" where
  "utf8_lossy [] = []"
| "utf8_lossy (c # cs) =
     (let (n, fine) = utf8_chunk (map byte_of (c # cs)) in
      (if fine then take n (c # cs) else map char_of [239 :: nat, 191, 189]) @ utf8_lossy (drop n (c # cs)))"
  by pat_completeness auto
termination
proof (relation "measure length", goal_cases)
  case (2 c cs x n fine)
  have "0 < n" using 2 utf8_chunk_pos [of "map byte_of (c # cs)"] by (metis fst_conv)
  then show ?case by simp
qed simp

text \<open>Well-formed UTF-8: no broken sequence.\<close>

function utf8_text :: "string \<Rightarrow> bool" where
  "utf8_text [] = True"
| "utf8_text (c # cs) =
     (let (n, fine) = utf8_chunk (map byte_of (c # cs)) in fine \<and> utf8_text (drop n (c # cs)))"
  by pat_completeness auto
termination
proof (relation "measure length", goal_cases)
  case (2 c cs x n fine)
  have "0 < n" using 2 utf8_chunk_pos [of "map byte_of (c # cs)"] by (metis fst_conv)
  then show ?case by simp
qed simp

definition urldecode :: "string \<Rightarrow> string option" where
  "urldecode s = map_option utf8_lossy (urldecode_bytes s)"

text \<open>\<open>find_map\<close> over the pairs; \<open>None\<close> is a panic, \<open>Some None\<close> no such key.\<close>

fun find_pair :: "string \<Rightarrow> string list \<Rightarrow> string option option" where
  "find_pair key [] = Some None"
| "find_pair key (p # ps) =
     (case split_once ''='' p of
        None \<Rightarrow> find_pair key ps
      | Some (k, v) \<Rightarrow>
          (case urldecode k of
             None \<Rightarrow> None
           | Some k' \<Rightarrow>
               if k' = key then (case urldecode v of None \<Rightarrow> None | Some v' \<Rightarrow> Some (Some v'))
               else find_pair key ps))"

definition form_value :: "string \<Rightarrow> string \<Rightarrow> string option option" where
  "form_value body key = find_pair key (split_char (CHR ''&'') body)"

section \<open>The endpoints\<close>

record admin_config =
  ad_enabled :: bool
  ad_insecure :: bool
  ad_password :: string
  ad_secret :: string
  ad_web_path :: string

datatype admin_response = AdminToken string | AdminStatus nat | AdminPanic

definition admin_auth :: "jwt \<Rightarrow> admin_config \<Rightarrow> string option \<Rightarrow> string \<Rightarrow> admin_response" where
  "admin_auth J cfg query body =
     (if \<not> ad_enabled cfg then AdminStatus 404
      else if ad_insecure cfg then AdminToken ''insecure''
      else if ad_password cfg = [] \<or> ad_secret cfg = [] then AdminStatus 400
      else
        (case form_value body ''password'' of
           None \<Rightarrow> AdminPanic
         | Some first \<Rightarrow>
             (case (case first of Some p \<Rightarrow> Some (Some p)
                    | None \<Rightarrow> (case query of None \<Rightarrow> Some None | Some q \<Rightarrow> form_value q ''password'')) of
                None \<Rightarrow> AdminPanic
              | Some found \<Rightarrow>
                  if (case found of None \<Rightarrow> [] | Some p \<Rightarrow> p) \<noteq> ad_password cfg then AdminStatus 400
                  else (case gen_admin_token J (ad_secret cfg) of
                          Inr t \<Rightarrow> AdminToken t | Inl e \<Rightarrow> AdminStatus 500))))"

text \<open>\<open>HeaderValue::to_str\<close>: visible ASCII and tabs only.\<close>

definition header_str :: "string \<Rightarrow> string option" where
  "header_str h =
     (if list_all (\<lambda>c. byte_of c = 9 \<or> 32 \<le> byte_of c \<and> byte_of c < 127) h then Some h else None)"

definition eq_ignore_case :: "string \<Rightarrow> string \<Rightarrow> bool" where
  "eq_ignore_case a b = (map ascii_lower a = map ascii_lower b)"

text \<open>The guard of \<open>POST /admin/api\<close>: the status it answers with, or \<open>None\<close> to go on.\<close>

definition admin_api_guard :: "jwt \<Rightarrow> admin_config \<Rightarrow> string option \<Rightarrow> nat option" where
  "admin_api_guard J admin header =
     (if \<not> ad_enabled admin then Some 404
      else if ad_insecure admin then None
      else if ad_secret admin = [] then Some 404
      else
        (let authed =
           (case Option.bind (Option.bind header header_str) (split_once '' '') of
              None \<Rightarrow> False
            | Some (scheme, val) \<Rightarrow>
                eq_ignore_case scheme ''token'' \<and> verify_admin_token J (ad_secret admin) val)
         in if authed then None else Some 401))"

record api_auth =
  aa_key :: string
  aa_insecure :: bool

text \<open>\<open>split_whitespace\<close> on a header, whose only white space is the blank and the tab.\<close>

fun split_blank :: "string \<Rightarrow> string list" where
  "split_blank [] = []"
| "split_blank (c # cs) =
     (if c = CHR '' '' \<or> byte_of c = 9 then split_blank cs
      else (case cs of
              [] \<Rightarrow> [[c]]
            | d # ds \<Rightarrow>
                if d = CHR '' '' \<or> byte_of d = 9 then [c] # split_blank cs
                else (case split_blank cs of [] \<Rightarrow> [[c]] | w # ws \<Rightarrow> (c # w) # ws)))"

definition authorized :: "api_auth \<Rightarrow> string option \<Rightarrow> string option \<Rightarrow> bool" where
  "authorized auth header query =
     (aa_key auth \<noteq> [] \<and>
      ((case Option.bind header header_str of
          None \<Rightarrow> False
        | Some s \<Rightarrow>
            (case split_blank s of
               [scheme, key] \<Rightarrow> eq_ignore_case scheme ''apikey'' \<and> key = aa_key auth
             | _ \<Rightarrow> False)) \<or>
       (case query of
          None \<Rightarrow> False
        | Some q \<Rightarrow>
            list_ex (\<lambda>p. case split_once ''='' p of
                           None \<Rightarrow> False
                         | Some (k, v) \<Rightarrow> k = ''api_key'' \<and> v = aa_key auth)
              (split_char (CHR ''&'') q))))"

definition api_guard :: "api_auth \<Rightarrow> string option \<Rightarrow> string option \<Rightarrow> nat option" where
  "api_guard auth header query =
     (if \<not> aa_insecure auth \<and> \<not> authorized auth header query then Some 401 else None)"

section \<open>Lemmas\<close>

lemma utf8_lossy_text: "utf8_text s \<Longrightarrow> utf8_lossy s = s"
proof (induction s rule: utf8_text.induct)
  case (2 c cs)
  obtain n fine where c: "utf8_chunk (map byte_of (c # cs)) = (n, fine)"
    by (cases "utf8_chunk (map byte_of (c # cs))")
  with 2 have "fine" "utf8_lossy (drop n (c # cs)) = drop n (c # cs)" by auto
  with c show ?case by simp
qed simp

lemma urldecode_plain:
  "CHR ''+'' \<notin> set s \<Longrightarrow> CHR ''%'' \<notin> set s \<Longrightarrow> urldecode_bytes s = Some s"
  by (induction s rule: urldecode_bytes.induct) auto


lemma urldecode_ascii:
  assumes "list_all (\<lambda>c. byte_of c < 128) s"
  shows "urldecode_bytes s \<noteq> None"
  using assms
proof (induction s rule: urldecode_bytes.induct)
  case (2 c cs)
  have cont: "\<not> is_cont (hd xs)" if "list_all (\<lambda>c. byte_of c < 128) xs" "xs \<noteq> []" for xs
    using that by (cases xs) (auto simp: is_cont_def)
  show ?case
  proof (cases "c = CHR ''%''")
    case False
    then show ?thesis using 2 by simp
  next
    case True
    show ?thesis
    proof (cases "\<exists>a b rest. cs = a # b # rest")
      case True
      then obtain a b rest where cs: "cs = a # b # rest" by blast
      then have "\<not> is_cont a" "rest = [] \<or> \<not> is_cont (hd rest)"
        using "2.prems" cont [of rest] by (auto simp: is_cont_def)
      then show ?thesis using 2 \<open>c = _\<close> cs by (auto split: option.split)
    next
      case False
      then show ?thesis using 2 \<open>c = _\<close> by (auto split: list.split)
    qed
  qed
qed simp

text \<open>The three bytes of the euro sign.\<close>

definition euro :: string where
  "euro = [CHR 0xE2, CHR 0x82, CHR 0xAC]"

lemma urldecode_panics: "urldecode_bytes (s @ CHR ''%'' # CHR ''a'' # euro) = None"
proof (induction "length s" arbitrary: s rule: less_induct)
  case less
  let ?X = "CHR ''%'' # CHR ''a'' # euro"
  have base: "urldecode_bytes ?X = None" by code_simp
  show ?case
  proof (cases s)
    case Nil
    then show ?thesis using base by simp
  next
    case (Cons c cs)
    have ih: "urldecode_bytes (cs @ ?X) = None" using less Cons by simp
    show ?thesis
    proof (cases "c = CHR ''%''")
      case False
      then show ?thesis using Cons ih by simp
    next
      case True
      consider "cs = []" | a where "cs = [a]" | a b rest where "cs = a # b # rest"
        by (metis list.exhaust)
      then show ?thesis
      proof cases
        case 1
        have "from_str_radix16 CHR ''%'' CHR ''a'' = None" by code_simp
        with 1 True Cons base show ?thesis by simp
      next
        case (2 a)
        have "radix16_digit CHR ''%'' = None" by code_simp
        then have "from_str_radix16 a CHR ''%'' = None"
          by (simp add: from_str_radix16_def split: option.split)
        with 2 True Cons ih show ?thesis by simp
      next
        case (3 a b rest)
        have "urldecode_bytes (rest @ ?X) = None" using less Cons 3 by simp
        with 3 True Cons ih show ?thesis by (simp split: option.split)
      qed
    qed
  qed
qed

section \<open>Properties\<close>



end
