(* ===== verification/Api.thy ===== *)
theory Api
  imports Node Admin
begin

text \<open>
  The server API (\<open>crates/centrifugo-server/src/api.rs\<close>): JSON and protobuf commands are decoded,
  checked and run on the node, one after the other, and answered in one body. The JSON and
  protobuf libraries are the fields of the records \<open>api_json\<close> and \<open>api_pb\<close>. A handler returns
  \<open>None\<close> only if its loop never ended.
\<close>

section \<open>JSON commands\<close>

record api_command =
  ac_id :: u32
  ac_method :: string
  ac_params :: "bytes option"

record api_error =
  ae_code :: u32
  ae_message :: string

record api_reply =
  ar_id :: u32
  ar_error :: "api_error option"
  ar_result :: "bytes option"

record publish_req =
  jp_channel :: string
  jp_data :: "bytes option"

record broadcast_req =
  jb_channels :: "string list"
  jb_data :: "bytes option"

record channel_req =
  jc_channel :: string

record unsubscribe_req =
  ju_user :: string
  ju_channel :: string

record disconnect_req =
  jd_user :: string

record rpc_req =
  jr_method :: string

record api_publication =
  apb_uid :: string
  apb_data :: "bytes option"
  apb_info :: "client_info option"

text \<open>The result structs; \<open>NodeResult\<close> has the fields of \<open>node_info\<close>.\<close>

datatype api_result =
  PresenceResult "(string, client_info) hmap"
| PresenceStatsResult u32 u32
| HistoryResult "api_publication list"
| ChannelsResult "string list"
| InfoResult "node_info list"

text \<open>\<open>serde_json\<close> on these types: the stream of commands, the typed params, and the encoders.\<close>

record api_json =
  aj_commands :: "bytes \<Rightarrow> api_command option list"
  aj_publish :: "bytes \<Rightarrow> publish_req option"
  aj_broadcast :: "bytes \<Rightarrow> broadcast_req option"
  aj_channel :: "bytes \<Rightarrow> channel_req option"
  aj_unsubscribe :: "bytes \<Rightarrow> unsubscribe_req option"
  aj_disconnect :: "bytes \<Rightarrow> disconnect_req option"
  aj_rpc :: "bytes \<Rightarrow> rpc_req option"
  aj_result :: "api_result \<Rightarrow> bytes option"
  aj_raw :: "bytes \<Rightarrow> bytes option"
  aj_reply :: "api_reply \<Rightarrow> bytes option"

definition parse_req :: "'a \<Rightarrow> (bytes \<Rightarrow> 'a option) \<Rightarrow> bytes option \<Rightarrow> 'a option" where
  "parse_req dflt dec params = (case params of None \<Rightarrow> Some dflt | Some r \<Rightarrow> dec r)"

text \<open>The bytes of the text \<open>null\<close>.\<close>

definition null_text :: bytes where "null_text = [110, 117, 108, 108]"

definition api_ok :: "api_json \<Rightarrow> u32 \<Rightarrow> api_result \<Rightarrow> api_reply" where
  "api_ok J i v =
     \<lparr>ar_id = i, ar_error = None,
      ar_result = aj_raw J (case aj_result J v of Some s \<Rightarrow> s | None \<Rightarrow> null_text)\<rparr>"

definition api_void :: "u32 \<Rightarrow> api_reply" where
  "api_void i = \<lparr>ar_id = i, ar_error = None, ar_result = None\<rparr>"

definition api_fail :: "u32 \<Rightarrow> u32 \<Rightarrow> string \<Rightarrow> api_reply" where
  "api_fail i code message =
     \<lparr>ar_id = i, ar_error = Some \<lparr>ae_code = code, ae_message = message\<rparr>, ar_result = None\<rparr>"

definition channel_caps :: "'e node \<Rightarrow> u32 \<Rightarrow> string \<Rightarrow> api_reply + bool \<times> bool" where
  "channel_caps n i channel =
     (if channel = [] then Inl (api_fail i 107 ''bad request'')
      else
        (case node_channel_options n channel of
           Some o1 \<Rightarrow> Inr (co_presence o1, co_history_enabled o1)
         | None \<Rightarrow> Inl (api_fail i 102 ''namespace not found'')))"

text \<open>One definition per arm of \<open>dispatch\<close>.\<close>

type_synonym 'e api_arm = "world \<Rightarrow> api_json \<Rightarrow> u32 \<Rightarrow> bytes option \<Rightarrow> 'e node \<Rightarrow> api_reply \<times> 'e node"

definition dispatch_publish :: "'e api_arm" where
  "dispatch_publish w J i params n =
     (case parse_req \<lparr>jp_channel = '''', jp_data = None\<rparr> (aj_publish J) params of
        None \<Rightarrow> (api_fail i 107 ''bad request'', n)
      | Some r \<Rightarrow>
          (case jp_data r of
             None \<Rightarrow> (api_fail i 107 ''bad request'', n)
           | Some data \<Rightarrow>
               (case channel_caps n i (jp_channel r) of
                  Inl e \<Rightarrow> (e, n)
                | Inr _ \<Rightarrow> (api_void i, node_publish w (jp_channel r) data None n))))"

fun caps_error :: "'e node \<Rightarrow> u32 \<Rightarrow> string list \<Rightarrow> api_reply option" where
  "caps_error n i [] = None"
| "caps_error n i (ch # chs) = (case channel_caps n i ch of Inl e \<Rightarrow> Some e | Inr _ \<Rightarrow> caps_error n i chs)"

definition publish_each :: "world \<Rightarrow> bytes \<Rightarrow> string list \<Rightarrow> 'e node \<Rightarrow> 'e node" where
  "publish_each w data chs n = fold (\<lambda>ch. node_publish w ch data None) chs n"

definition dispatch_broadcast :: "'e api_arm" where
  "dispatch_broadcast w J i params n =
     (case parse_req \<lparr>jb_channels = [], jb_data = None\<rparr> (aj_broadcast J) params of
        None \<Rightarrow> (api_fail i 107 ''bad request'', n)
      | Some r \<Rightarrow>
          if jb_channels r = [] then (api_fail i 107 ''bad request'', n)
          else
            (case jb_data r of
               None \<Rightarrow> (api_fail i 107 ''bad request'', n)
             | Some data \<Rightarrow>
                 (case caps_error n i (jb_channels r) of
                    Some e \<Rightarrow> (e, n)
                  | None \<Rightarrow> (api_void i, publish_each w data (jb_channels r) n))))"

definition dispatch_unsubscribe :: "'e api_arm" where
  "dispatch_unsubscribe w J i params n =
     (case parse_req \<lparr>ju_user = '''', ju_channel = ''''\<rparr> (aj_unsubscribe J) params of
        None \<Rightarrow> (api_fail i 107 ''bad request'', n)
      | Some r \<Rightarrow>
          if ju_user r = [] then (api_fail i 107 ''bad request'', n)
          else
            (case (if ju_channel r \<noteq> [] then channel_caps n i (ju_channel r) else Inr (True, True)) of
               Inl e \<Rightarrow> (e, n)
             | Inr _ \<Rightarrow> (api_void i, unsubscribe_user w (ju_user r) (ju_channel r) n)))"

definition dispatch_disconnect :: "'e api_arm" where
  "dispatch_disconnect w J i params n =
     (case parse_req \<lparr>jd_user = ''''\<rparr> (aj_disconnect J) params of
        None \<Rightarrow> (api_fail i 107 ''bad request'', n)
      | Some r \<Rightarrow>
          if jd_user r = [] then (api_fail i 107 ''bad request'', n)
          else (api_void i, disconnect_user w (jd_user r) 3012 ''force disconnect'' n))"

definition dispatch_presence :: "'e api_arm" where
  "dispatch_presence w J i params n =
     (case parse_req \<lparr>jc_channel = ''''\<rparr> (aj_channel J) params of
        None \<Rightarrow> (api_fail i 107 ''bad request'', n)
      | Some r \<Rightarrow>
          (case channel_caps n i (jc_channel r) of
             Inl e \<Rightarrow> (e, n)
           | Inr (presence, _) \<Rightarrow>
               if \<not> presence then (api_fail i 108 ''not available'', n)
               else (let (p, n1) = node_presence w (jc_channel r) n in (api_ok J i (PresenceResult p), n1))))"

definition dispatch_presence_stats :: "'e api_arm" where
  "dispatch_presence_stats w J i params n =
     (case parse_req \<lparr>jc_channel = ''''\<rparr> (aj_channel J) params of
        None \<Rightarrow> (api_fail i 107 ''bad request'', n)
      | Some r \<Rightarrow>
          (case channel_caps n i (jc_channel r) of
             Inl e \<Rightarrow> (e, n)
           | Inr (presence, _) \<Rightarrow>
               if \<not> presence then (api_fail i 108 ''not available'', n)
               else
                 (let ((num_clients, num_users), n1) = node_presence_stats w (jc_channel r) n
                  in (api_ok J i (PresenceStatsResult num_clients num_users), n1))))"

definition api_publication_of :: "publication \<Rightarrow> api_publication" where
  "api_publication_of p = \<lparr>apb_uid = pub_uid p, apb_data = pub_data p, apb_info = pub_info p\<rparr>"

definition dispatch_history :: "'e api_arm" where
  "dispatch_history w J i params n =
     (case parse_req \<lparr>jc_channel = ''''\<rparr> (aj_channel J) params of
        None \<Rightarrow> (api_fail i 107 ''bad request'', n)
      | Some r \<Rightarrow>
          (case channel_caps n i (jc_channel r) of
             Inl e \<Rightarrow> (e, n)
           | Inr (_, history) \<Rightarrow>
               if \<not> history then (api_fail i 108 ''not available'', n)
               else
                 (let ((pubs, pos), n1) = node_history w (jc_channel r) n
                  in (api_ok J i (HistoryResult (map api_publication_of pubs)), n1))))"

definition dispatch_history_remove :: "'e api_arm" where
  "dispatch_history_remove w J i params n =
     (case parse_req \<lparr>jc_channel = ''''\<rparr> (aj_channel J) params of
        None \<Rightarrow> (api_fail i 107 ''bad request'', n)
      | Some r \<Rightarrow>
          (case channel_caps n i (jc_channel r) of
             Inl e \<Rightarrow> (e, n)
           | Inr (_, history) \<Rightarrow>
               if \<not> history then (api_fail i 108 ''not available'', n)
               else (api_void i, node_remove_history w (jc_channel r) n)))"

definition dispatch_rpc :: "'e api_arm" where
  "dispatch_rpc w J i params n =
     (case parse_req \<lparr>jr_method = ''''\<rparr> (aj_rpc J) params of
        None \<Rightarrow> (api_fail i 107 ''bad request'', n)
      | Some r \<Rightarrow>
          if jr_method r = [] then (api_fail i 107 ''bad request'', n)
          else (api_fail i 104 ''method not found'', n))"

definition dispatch :: "world \<Rightarrow> api_json \<Rightarrow> api_command \<Rightarrow> 'e node \<Rightarrow> api_reply \<times> 'e node" where
  "dispatch w J cmd n =
     (let i = ac_id cmd; params = ac_params cmd; m = ac_method cmd in
      if m = ''publish'' then dispatch_publish w J i params n
      else if m = ''broadcast'' then dispatch_broadcast w J i params n
      else if m = ''unsubscribe'' then dispatch_unsubscribe w J i params n
      else if m = ''disconnect'' then dispatch_disconnect w J i params n
      else if m = ''presence'' then dispatch_presence w J i params n
      else if m = ''presence_stats'' then dispatch_presence_stats w J i params n
      else if m = ''history'' then dispatch_history w J i params n
      else if m = ''history_remove'' then dispatch_history_remove w J i params n
      else if m = ''channels'' then (api_ok J i (ChannelsResult (hub_channels (nd_hub n))), n)
      else if m = ''info'' then (api_ok J i (InfoResult (info_nodes w n)), n)
      else if m = ''rpc'' then dispatch_rpc w J i params n
      else (api_fail i 104 ''method not found'', n))"

section \<open>Protobuf commands\<close>

text \<open>
  The messages of \<open>api.proto\<close>; the helpers of \<open>grpc.rs\<close> that both protobuf interfaces use. The
  client info has the fields of the client protocol's.
\<close>

record pb_api_error =
  pae_code :: u32
  pae_message :: string

record pb_api_publication =
  pap_uid :: string
  pap_data :: bytes
  pap_info :: "pb_client_info option"

record pb_api_command =
  pac_id :: u32
  pac_method :: int
  pac_params :: bytes

record pb_api_reply =
  par_id :: u32
  par_error :: "pb_api_error option"
  par_result :: bytes

record pb_api_publish =
  paq_channel :: string
  paq_data :: bytes

record pb_api_broadcast =
  pab_channels :: "string list"
  pab_data :: bytes

record pb_api_unsubscribe =
  pau_channel :: string
  pau_user :: string

record pb_api_disconnect =
  pad_user :: string

record pb_api_channel =
  pach_channel :: string

record pb_api_rpc =
  pax_method :: string
  pax_params :: bytes

datatype pb_api_result =
  PbPresence "(string, pb_client_info) hmap"
| PbPresenceStats u32 u32
| PbHistory "pb_api_publication list"
| PbChannels "string list"
| PbInfo "node_info list"

datatype api_method =
  AmPublish | AmBroadcast | AmUnsubscribe | AmDisconnect | AmPresence | AmPresenceStats | AmHistory
| AmHistoryRemove | AmChannels | AmInfo | AmRpc

definition api_methods :: "api_method list" where
  "api_methods = [AmPublish, AmBroadcast, AmUnsubscribe, AmDisconnect, AmPresence, AmPresenceStats,
     AmHistory, AmHistoryRemove, AmChannels, AmInfo, AmRpc]"

text \<open>\<open>MethodType::try_from\<close> of the generated enumeration.\<close>

definition api_method_from_i32 :: "int \<Rightarrow> api_method option" where
  "api_method_from_i32 k = (if 0 \<le> k \<and> k < 11 then Some (api_methods ! nat k) else None)"

text \<open>
  \<open>prost\<close> on these messages. \<open>aw_next\<close> is \<open>decode_length_delimited\<close>: a command and what follows it.
\<close>

record api_pb =
  aw_next :: "bytes \<Rightarrow> (pb_api_command \<times> bytes) option"
  aw_publish :: "bytes \<Rightarrow> pb_api_publish option"
  aw_broadcast :: "bytes \<Rightarrow> pb_api_broadcast option"
  aw_unsubscribe :: "bytes \<Rightarrow> pb_api_unsubscribe option"
  aw_disconnect :: "bytes \<Rightarrow> pb_api_disconnect option"
  aw_channel :: "bytes \<Rightarrow> pb_api_channel option"
  aw_rpc :: "bytes \<Rightarrow> pb_api_rpc option"
  aw_result :: "pb_api_result \<Rightarrow> bytes"
  aw_reply :: "pb_api_reply \<Rightarrow> bytes option"

definition to_pb_client_info :: "client_info \<Rightarrow> pb_client_info" where
  "to_pb_client_info ci =
     \<lparr>pbci_user = ci_user ci, pbci_client = ci_client ci,
      pbci_conn_info = raw_to_vec (ci_conn_info ci), pbci_chan_info = raw_to_vec (ci_chan_info ci)\<rparr>"

definition to_pb_publication :: "publication \<Rightarrow> pb_api_publication" where
  "to_pb_publication p =
     \<lparr>pap_uid = pub_uid p, pap_data = raw_to_vec (pub_data p),
      pap_info = map_option to_pb_client_info (pub_info p)\<rparr>"

definition api_err :: "u32 \<Rightarrow> string \<Rightarrow> pb_api_error" where
  "api_err code message = \<lparr>pae_code = code, pae_message = message\<rparr>"

definition pb_channel_caps :: "'e node \<Rightarrow> string \<Rightarrow> pb_api_error + bool \<times> bool" where
  "pb_channel_caps n channel =
     (if channel = [] then Inl (api_err 107 ''bad request'')
      else
        (case node_channel_options n channel of
           Some o1 \<Rightarrow> Inr (co_presence o1, co_history_enabled o1)
         | None \<Rightarrow> Inl (api_err 102 ''namespace not found'')))"

text \<open>\<open>find_map(|ch| channel_caps(node, ch).err())\<close>.\<close>

fun pb_caps_error :: "'e node \<Rightarrow> string list \<Rightarrow> pb_api_error option" where
  "pb_caps_error n [] = None"
| "pb_caps_error n (ch # chs) = (case pb_channel_caps n ch of Inl e \<Rightarrow> Some e | Inr _ \<Rightarrow> pb_caps_error n chs)"

definition mk_pb_reply :: "u32 \<Rightarrow> pb_api_error option \<Rightarrow> bytes \<Rightarrow> pb_api_reply" where
  "mk_pb_reply i e result = \<lparr>par_id = i, par_error = e, par_result = result\<rparr>"

definition pb_refuse :: "u32 \<Rightarrow> u32 \<Rightarrow> string \<Rightarrow> pb_api_reply" where
  "pb_refuse i code message = mk_pb_reply i (Some (api_err code message)) []"

type_synonym 'e pb_arm = "world \<Rightarrow> api_pb \<Rightarrow> u32 \<Rightarrow> bytes \<Rightarrow> 'e node \<Rightarrow> pb_api_reply \<times> 'e node"

definition pb_publish_arm :: "'e pb_arm" where
  "pb_publish_arm w P i params n =
     (case aw_publish P params of
        None \<Rightarrow> (pb_refuse i 107 ''bad request'', n)
      | Some req \<Rightarrow>
          if paq_data req = [] then (pb_refuse i 107 ''bad request'', n)
          else
            (case pb_channel_caps n (paq_channel req) of
               Inl e \<Rightarrow> (mk_pb_reply i (Some e) [], n)
             | Inr _ \<Rightarrow> (mk_pb_reply i None [], node_publish w (paq_channel req) (paq_data req) None n)))"

definition pb_broadcast_arm :: "'e pb_arm" where
  "pb_broadcast_arm w P i params n =
     (case aw_broadcast P params of
        None \<Rightarrow> (pb_refuse i 107 ''bad request'', n)
      | Some req \<Rightarrow>
          if pab_channels req = [] \<or> pab_data req = [] then (pb_refuse i 107 ''bad request'', n)
          else
            (case pb_caps_error n (pab_channels req) of
               Some e \<Rightarrow> (mk_pb_reply i (Some e) [], n)
             | None \<Rightarrow> (mk_pb_reply i None [], publish_each w (pab_data req) (pab_channels req) n)))"

definition pb_unsubscribe_arm :: "'e pb_arm" where
  "pb_unsubscribe_arm w P i params n =
     (case aw_unsubscribe P params of
        None \<Rightarrow> (pb_refuse i 107 ''bad request'', n)
      | Some req \<Rightarrow>
          if pau_user req = [] then (pb_refuse i 107 ''bad request'', n)
          else
            (case (if pau_channel req \<noteq> [] then pb_channel_caps n (pau_channel req) else Inr (True, True)) of
               Inl e \<Rightarrow> (mk_pb_reply i (Some e) [], n)
             | Inr _ \<Rightarrow> (mk_pb_reply i None [], unsubscribe_user w (pau_user req) (pau_channel req) n)))"

definition pb_disconnect_arm :: "'e pb_arm" where
  "pb_disconnect_arm w P i params n =
     (case aw_disconnect P params of
        None \<Rightarrow> (pb_refuse i 107 ''bad request'', n)
      | Some req \<Rightarrow>
          if pad_user req = [] then (pb_refuse i 107 ''bad request'', n)
          else (mk_pb_reply i None [], disconnect_user w (pad_user req) 3012 ''force disconnect'' n))"

definition pb_presence_arm :: "'e pb_arm" where
  "pb_presence_arm w P i params n =
     (case aw_channel P params of
        None \<Rightarrow> (pb_refuse i 107 ''bad request'', n)
      | Some req \<Rightarrow>
          (case pb_channel_caps n (pach_channel req) of
             Inl e \<Rightarrow> (mk_pb_reply i (Some e) [], n)
           | Inr (p, _) \<Rightarrow>
               if \<not> p then (pb_refuse i 108 ''not available'', n)
               else
                 (let (m, n1) = node_presence w (pach_channel req) n
                  in (mk_pb_reply i None (aw_result P (PbPresence (map (\<lambda>(k, v). (k, to_pb_client_info v)) m))), n1))))"

definition pb_presence_stats_arm :: "'e pb_arm" where
  "pb_presence_stats_arm w P i params n =
     (case aw_channel P params of
        None \<Rightarrow> (pb_refuse i 107 ''bad request'', n)
      | Some req \<Rightarrow>
          (case pb_channel_caps n (pach_channel req) of
             Inl e \<Rightarrow> (mk_pb_reply i (Some e) [], n)
           | Inr (p, _) \<Rightarrow>
               if \<not> p then (pb_refuse i 108 ''not available'', n)
               else
                 (let ((num_clients, num_users), n1) = node_presence_stats w (pach_channel req) n
                  in (mk_pb_reply i None (aw_result P (PbPresenceStats num_clients num_users)), n1))))"

definition pb_history_arm :: "'e pb_arm" where
  "pb_history_arm w P i params n =
     (case aw_channel P params of
        None \<Rightarrow> (pb_refuse i 107 ''bad request'', n)
      | Some req \<Rightarrow>
          (case pb_channel_caps n (pach_channel req) of
             Inl e \<Rightarrow> (mk_pb_reply i (Some e) [], n)
           | Inr (_, h) \<Rightarrow>
               if \<not> h then (pb_refuse i 108 ''not available'', n)
               else
                 (let ((pubs, pos), n1) = node_history w (pach_channel req) n
                  in (mk_pb_reply i None (aw_result P (PbHistory (map to_pb_publication pubs))), n1))))"

definition pb_history_remove_arm :: "'e pb_arm" where
  "pb_history_remove_arm w P i params n =
     (case aw_channel P params of
        None \<Rightarrow> (pb_refuse i 107 ''bad request'', n)
      | Some req \<Rightarrow>
          (case pb_channel_caps n (pach_channel req) of
             Inl e \<Rightarrow> (mk_pb_reply i (Some e) [], n)
           | Inr (_, h) \<Rightarrow>
               if \<not> h then (pb_refuse i 108 ''not available'', n)
               else (mk_pb_reply i None [], node_remove_history w (pach_channel req) n)))"

definition pb_rpc_arm :: "'e pb_arm" where
  "pb_rpc_arm w P i params n =
     (case aw_rpc P params of
        None \<Rightarrow> (pb_refuse i 107 ''bad request'', n)
      | Some req \<Rightarrow>
          if pax_method req = [] then (pb_refuse i 107 ''bad request'', n)
          else (pb_refuse i 104 ''method not found'', n))"

definition dispatch_pb :: "world \<Rightarrow> api_pb \<Rightarrow> pb_api_command \<Rightarrow> 'e node \<Rightarrow> pb_api_reply \<times> 'e node" where
  "dispatch_pb w P cmd n =
     (let i = pac_id cmd; params = pac_params cmd in
      case api_method_from_i32 (pac_method cmd) of
        None \<Rightarrow> (pb_refuse i 104 ''method not found'', n)
      | Some m \<Rightarrow>
          (case m of
             AmPublish \<Rightarrow> pb_publish_arm w P i params n
           | AmBroadcast \<Rightarrow> pb_broadcast_arm w P i params n
           | AmUnsubscribe \<Rightarrow> pb_unsubscribe_arm w P i params n
           | AmDisconnect \<Rightarrow> pb_disconnect_arm w P i params n
           | AmPresence \<Rightarrow> pb_presence_arm w P i params n
           | AmPresenceStats \<Rightarrow> pb_presence_stats_arm w P i params n
           | AmHistory \<Rightarrow> pb_history_arm w P i params n
           | AmHistoryRemove \<Rightarrow> pb_history_remove_arm w P i params n
           | AmChannels \<Rightarrow> (mk_pb_reply i None (aw_result P (PbChannels (hub_channels (nd_hub n)))), n)
           | AmInfo \<Rightarrow> (mk_pb_reply i None (aw_result P (PbInfo (info_nodes w n))), n)
           | AmRpc \<Rightarrow> pb_rpc_arm w P i params n))"

section \<open>Requests and responses\<close>

datatype api_response = ApiStatus nat | ApiBody string bytes

text \<open>The characters of Unicode's \<open>White_Space\<close> in UTF-8: of one, two and three bytes.\<close>

definition white1 :: "u8 \<Rightarrow> bool" where
  "white1 a \<longleftrightarrow> 9 \<le> a \<and> a \<le> 13 \<or> a = 32"

definition white2 :: "u8 \<Rightarrow> u8 \<Rightarrow> bool" where
  "white2 a b \<longleftrightarrow> a = 0xC2 \<and> (b = 0x85 \<or> b = 0xA0)"

definition white3 :: "u8 \<Rightarrow> u8 \<Rightarrow> u8 \<Rightarrow> bool" where
  "white3 a b c \<longleftrightarrow>
     a = 0xE1 \<and> b = 0x9A \<and> c = 0x80 \<or>
     a = 0xE2 \<and> b = 0x80 \<and> (0x80 \<le> c \<and> c \<le> 0x8A \<or> c = 0xA8 \<or> c = 0xA9 \<or> c = 0xAF) \<or>
     a = 0xE2 \<and> b = 0x81 \<and> c = 0x9F \<or>
     a = 0xE3 \<and> b = 0x80 \<and> c = 0x80"

text \<open>\<open>body.trim().is_empty()\<close>.\<close>

fun blank_text :: "bytes \<Rightarrow> bool" where
  "blank_text [] = True"
| "blank_text (a # bs) =
     (if white1 a then blank_text bs
      else
        (case bs of
           [] \<Rightarrow> False
         | b # cs \<Rightarrow>
             if white2 a b then blank_text cs
             else (case cs of [] \<Rightarrow> False | c # ds \<Rightarrow> white3 a b c \<and> blank_text ds)))"

fun command_loop ::
    "world \<Rightarrow> api_json \<Rightarrow> string \<Rightarrow> api_command option list \<Rightarrow> bytes \<Rightarrow> 'e node \<Rightarrow> api_response \<times> 'e node"
  where
  "command_loop w J ct [] buf n = (ApiBody ct buf, n)"
| "command_loop w J ct (None # cmds) buf n = (ApiStatus 400, n)"
| "command_loop w J ct (Some cmd # cmds) buf n =
     (let (rep, n1) = dispatch w J cmd n;
          text = (case aj_reply J rep of Some b \<Rightarrow> b | None \<Rightarrow> [123, 125])
      in command_loop w J ct cmds (buf @ text @ [10]) n1)"

definition run_commands ::
    "world \<Rightarrow> api_json \<Rightarrow> bytes \<Rightarrow> string \<Rightarrow> 'e node \<Rightarrow> api_response \<times> 'e node" where
  "run_commands w J body req_ct n =
     (if blank_text body then (ApiStatus 400, n) else command_loop w J req_ct (aj_commands J body) [] n)"

partial_function (option) pb_loop ::
    "world \<Rightarrow> api_pb \<Rightarrow> string \<Rightarrow> bytes \<Rightarrow> bytes \<Rightarrow> 'e node \<Rightarrow> (api_response \<times> 'e node) option" where
  "pb_loop w P ct buf out n =
     (if buf = [] then Some (ApiBody ct out, n)
      else
        (case aw_next P buf of
           None \<Rightarrow> Some (ApiStatus 400, n)
         | Some (cmd, rest) \<Rightarrow>
             (case dispatch_pb w P cmd n of
                (rep, n1) \<Rightarrow>
                  (case aw_reply P rep of
                     None \<Rightarrow> Some (ApiStatus 500, n1)
                   | Some b \<Rightarrow> pb_loop w P ct rest (out @ b) n1))))"

definition run_protobuf ::
    "world \<Rightarrow> api_pb \<Rightarrow> bytes \<Rightarrow> string \<Rightarrow> 'e node \<Rightarrow> (api_response \<times> 'e node) option" where
  "run_protobuf w P body req_ct n =
     (if body = [] then Some (ApiStatus 400, n) else pb_loop w P req_ct body [] n)"

definition body_text :: "bytes \<Rightarrow> string" where
  "body_text body = map (\<lambda>b. char_of (unat b)) body"

definition run_api ::
    "world \<Rightarrow> api_json \<Rightarrow> api_pb \<Rightarrow> string option \<Rightarrow> bytes \<Rightarrow> 'e node \<Rightarrow> (api_response \<times> 'e node) option"
  where
  "run_api w J P content_type body n =
     (let ct = (case Option.bind content_type header_str of Some s \<Rightarrow> s | None \<Rightarrow> '''') in
      if starts_with ''application/octet-stream'' ct then run_protobuf w P body ct n
      else if utf8_text (body_text body) then Some (run_commands w J body ct n)
      else Some (ApiStatus 400, n))"

definition api_handler ::
    "world \<Rightarrow> api_json \<Rightarrow> api_pb \<Rightarrow> api_auth \<Rightarrow> string option \<Rightarrow> string option \<Rightarrow> string option \<Rightarrow> bytes
       \<Rightarrow> 'e node \<Rightarrow> (api_response \<times> 'e node) option" where
  "api_handler w J P auth header query content_type body n =
     (case api_guard auth header query of
        Some status \<Rightarrow> Some (ApiStatus status, n)
      | None \<Rightarrow> run_api w J P content_type body n)"

definition admin_api_handler ::
    "world \<Rightarrow> api_json \<Rightarrow> api_pb \<Rightarrow> admin_config \<Rightarrow> string option \<Rightarrow> string option \<Rightarrow> bytes
       \<Rightarrow> 'e node \<Rightarrow> (api_response \<times> 'e node) option" where
  "admin_api_handler w J P admin header content_type body n =
     (case admin_api_guard (wd_jwt w) admin header of
        Some status \<Rightarrow> Some (ApiStatus status, n)
      | None \<Rightarrow> run_api w J P content_type body n)"

end
