(* ===== verification/Grpc.thy ===== *)
theory Grpc
  imports Api
begin

text \<open>
  The gRPC API (\<open>crates/centrifugo-server/src/grpc.rs\<close>): the service \<open>api.Centrifugo\<close> on the node,
  one definition per remote procedure, and the interceptor that checks the API key. A response has
  an error and a result; the transport is not modelled.
\<close>

section \<open>The service\<close>

record grpc_response =
  gr_error :: "pb_api_error option"
  gr_result :: "pb_api_result option"

definition grpc_answer :: "pb_api_error option \<Rightarrow> pb_api_result option \<Rightarrow> grpc_response" where
  "grpc_answer e r = \<lparr>gr_error = e, gr_result = r\<rparr>"

definition grpc_refuse :: "u32 \<Rightarrow> string \<Rightarrow> grpc_response" where
  "grpc_refuse code message = grpc_answer (Some (api_err code message)) None"

definition grpc_publish :: "world \<Rightarrow> pb_api_publish \<Rightarrow> 'e node \<Rightarrow> grpc_response \<times> 'e node" where
  "grpc_publish w req n =
     (if paq_data req = [] then (grpc_refuse 107 ''bad request'', n)
      else
        (case pb_channel_caps n (paq_channel req) of
           Inl e \<Rightarrow> (grpc_answer (Some e) None, n)
         | Inr _ \<Rightarrow> (grpc_answer None None, node_publish w (paq_channel req) (paq_data req) None n)))"

definition grpc_broadcast :: "world \<Rightarrow> pb_api_broadcast \<Rightarrow> 'e node \<Rightarrow> grpc_response \<times> 'e node" where
  "grpc_broadcast w req n =
     (let e = (if pab_channels req = [] \<or> pab_data req = [] then Some (api_err 107 ''bad request'')
               else pb_caps_error n (pab_channels req));
          n1 = (if e = None then publish_each w (pab_data req) (pab_channels req) n else n)
      in (grpc_answer e None, n1))"

definition grpc_unsubscribe :: "world \<Rightarrow> pb_api_unsubscribe \<Rightarrow> 'e node \<Rightarrow> grpc_response \<times> 'e node" where
  "grpc_unsubscribe w req n =
     (let e = (if pau_user req = [] then Some (api_err 107 ''bad request'')
               else if pau_channel req \<noteq> []
               then (case pb_channel_caps n (pau_channel req) of Inl e \<Rightarrow> Some e | Inr _ \<Rightarrow> None)
               else None);
          n1 = (if e = None then unsubscribe_user w (pau_user req) (pau_channel req) n else n)
      in (grpc_answer e None, n1))"

definition grpc_disconnect :: "world \<Rightarrow> pb_api_disconnect \<Rightarrow> 'e node \<Rightarrow> grpc_response \<times> 'e node" where
  "grpc_disconnect w req n =
     (let e = (if pad_user req = [] then Some (api_err 107 ''bad request'') else None);
          n1 = (if e = None then disconnect_user w (pad_user req) 3012 ''force disconnect'' n else n)
      in (grpc_answer e None, n1))"

definition grpc_presence :: "world \<Rightarrow> pb_api_channel \<Rightarrow> 'e node \<Rightarrow> grpc_response \<times> 'e node" where
  "grpc_presence w req n =
     (case pb_channel_caps n (pach_channel req) of
        Inl e \<Rightarrow> (grpc_answer (Some e) None, n)
      | Inr (presence, _) \<Rightarrow>
          if \<not> presence then (grpc_refuse 108 ''not available'', n)
          else
            (let (m, n1) = node_presence w (pach_channel req) n
             in (grpc_answer None (Some (PbPresence (map (\<lambda>(k, v). (k, to_pb_client_info v)) m))), n1)))"

definition grpc_presence_stats :: "world \<Rightarrow> pb_api_channel \<Rightarrow> 'e node \<Rightarrow> grpc_response \<times> 'e node" where
  "grpc_presence_stats w req n =
     (case pb_channel_caps n (pach_channel req) of
        Inl e \<Rightarrow> (grpc_answer (Some e) None, n)
      | Inr (presence, _) \<Rightarrow>
          if \<not> presence then (grpc_refuse 108 ''not available'', n)
          else
            (let ((num_clients, num_users), n1) = node_presence_stats w (pach_channel req) n
             in (grpc_answer None (Some (PbPresenceStats num_clients num_users)), n1)))"

definition grpc_history :: "world \<Rightarrow> pb_api_channel \<Rightarrow> 'e node \<Rightarrow> grpc_response \<times> 'e node" where
  "grpc_history w req n =
     (case pb_channel_caps n (pach_channel req) of
        Inl e \<Rightarrow> (grpc_answer (Some e) None, n)
      | Inr (_, history) \<Rightarrow>
          if \<not> history then (grpc_refuse 108 ''not available'', n)
          else
            (let ((pubs, pos), n1) = node_history w (pach_channel req) n
             in (grpc_answer None (Some (PbHistory (map to_pb_publication pubs))), n1)))"

definition grpc_history_remove :: "world \<Rightarrow> pb_api_channel \<Rightarrow> 'e node \<Rightarrow> grpc_response \<times> 'e node" where
  "grpc_history_remove w req n =
     (case pb_channel_caps n (pach_channel req) of
        Inl e \<Rightarrow> (grpc_answer (Some e) None, n)
      | Inr (_, history) \<Rightarrow>
          if \<not> history then (grpc_refuse 108 ''not available'', n)
          else (grpc_answer None None, node_remove_history w (pach_channel req) n))"

definition grpc_channels :: "'e node \<Rightarrow> grpc_response" where
  "grpc_channels n = grpc_answer None (Some (PbChannels (hub_channels (nd_hub n))))"

definition grpc_info :: "world \<Rightarrow> 'e node \<Rightarrow> grpc_response" where
  "grpc_info w n = grpc_answer None (Some (PbInfo (info_nodes w n)))"

definition grpc_rpc :: "pb_api_rpc \<Rightarrow> grpc_response" where
  "grpc_rpc req =
     (let (code, message) =
            (if pax_method req = [] then (107, ''bad request'') else (104, ''method not found''))
      in grpc_refuse code message)"

section \<open>The interceptor\<close>

definition check_apikey :: "string \<Rightarrow> string \<Rightarrow> bool" where
  "check_apikey header key = (header = ''apikey '' @ key)"

text \<open>Whether a call with this \<open>authorization\<close> metadata is let through.\<close>

definition grpc_guard :: "string \<Rightarrow> string option \<Rightarrow> bool" where
  "grpc_guard api_key meta =
     (if api_key = [] then True
      else
        (case Option.bind meta header_str of
           None \<Rightarrow> False
         | Some h \<Rightarrow> check_apikey h api_key))"

end
