(* ===== verification/Api_Contract.thy ===== *)
theory Api_Contract
  imports Grpc Fanout
begin

text \<open>
  What the server API promises, apart from its wire formats: a request is checked first and has no
  effect when it is refused. The three interfaces (JSON, protobuf over HTTP, gRPC) are instances of
  the locale \<open>api_front\<close>: each decodes to this one call and renders its answer.
\<close>

section \<open>The call\<close>

type_synonym api_fault = "u32 \<times> string"

datatype api_request =
  RqPublish string "bytes option"
| RqBroadcast "string list" "bytes option"
| RqUnsubscribe string string
| RqDisconnect string
| RqPresence string
| RqPresenceStats string
| RqHistory string
| RqHistoryRemove string
| RqChannels
| RqInfo
| RqRpc string

datatype api_answer =
  AnVoid
| AnPresence "(string, client_info) hmap"
| AnStats u32 u32
| AnHistory "publication list"
| AnChannels "string list"
| AnInfo "node_info list"

definition bad_request :: api_fault where "bad_request = (107, ''bad request'')"
definition no_namespace :: api_fault where "no_namespace = (102, ''namespace not found'')"
definition not_available :: api_fault where "not_available = (108, ''not available'')"
definition no_method :: api_fault where "no_method = (104, ''method not found'')"

definition channel_fault :: "'e node \<Rightarrow> string \<Rightarrow> api_fault option" where
  "channel_fault n ch =
     (if ch = [] then Some bad_request
      else if node_channel_options n ch = None then Some no_namespace else None)"

text \<open>A channel whose options must satisfy \<open>need\<close>.\<close>

definition needs_option :: "(channel_options \<Rightarrow> bool) \<Rightarrow> 'e node \<Rightarrow> string \<Rightarrow> api_fault option" where
  "needs_option need n ch =
     (case channel_fault n ch of
        Some e \<Rightarrow> Some e
      | None \<Rightarrow> if need (the (node_channel_options n ch)) then None else Some not_available)"

fun api_check :: "'e node \<Rightarrow> api_request \<Rightarrow> api_fault option" where
  "api_check n (RqPublish ch data) = (if data = None then Some bad_request else channel_fault n ch)"
| "api_check n (RqBroadcast chs data) =
     (if chs = [] \<or> data = None then Some bad_request
      else find (\<lambda>e. True) (List.map_filter (channel_fault n) chs))"
| "api_check n (RqUnsubscribe user ch) =
     (if user = [] then Some bad_request else if ch = [] then None else channel_fault n ch)"
| "api_check n (RqDisconnect user) = (if user = [] then Some bad_request else None)"
| "api_check n (RqPresence ch) = needs_option co_presence n ch"
| "api_check n (RqPresenceStats ch) = needs_option co_presence n ch"
| "api_check n (RqHistory ch) = needs_option co_history_enabled n ch"
| "api_check n (RqHistoryRemove ch) = needs_option co_history_enabled n ch"
| "api_check n RqChannels = None"
| "api_check n RqInfo = None"
| "api_check n (RqRpc m) = Some (if m = [] then bad_request else no_method)"

fun api_effect :: "world \<Rightarrow> api_request \<Rightarrow> 'e node \<Rightarrow> api_answer \<times> 'e node" where
  "api_effect w (RqPublish ch data) n = (AnVoid, node_publish w ch (the data) None n)"
| "api_effect w (RqBroadcast chs data) n = (AnVoid, fold (\<lambda>ch. node_publish w ch (the data) None) chs n)"
| "api_effect w (RqUnsubscribe user ch) n = (AnVoid, unsubscribe_user w user ch n)"
| "api_effect w (RqDisconnect user) n = (AnVoid, disconnect_user w user 3012 ''force disconnect'' n)"
| "api_effect w (RqPresence ch) n = (let (m, n1) = node_presence w ch n in (AnPresence m, n1))"
| "api_effect w (RqPresenceStats ch) n = (let ((c, u), n1) = node_presence_stats w ch n in (AnStats c u, n1))"
| "api_effect w (RqHistory ch) n = (let ((pubs, pos), n1) = node_history w ch n in (AnHistory pubs, n1))"
| "api_effect w (RqHistoryRemove ch) n = (AnVoid, node_remove_history w ch n)"
| "api_effect w RqChannels n = (AnChannels (hub_channels (nd_hub n)), n)"
| "api_effect w RqInfo n = (AnInfo (info_nodes w n), n)"
| "api_effect w (RqRpc m) n = (AnVoid, n)"

definition api_call :: "world \<Rightarrow> api_request \<Rightarrow> 'e node \<Rightarrow> (api_fault + api_answer) \<times> 'e node" where
  "api_call w rq n =
     (case api_check n rq of
        Some e \<Rightarrow> (Inl e, n)
      | None \<Rightarrow> (let (a, n1) = api_effect w rq n in (Inr a, n1)))"

definition api_faults :: "api_fault set" where
  "api_faults = {bad_request, no_namespace, not_available, no_method}"

lemma channel_fault_known: "channel_fault n ch = Some e \<Longrightarrow> e \<in> api_faults"
  by (auto simp: channel_fault_def api_faults_def split: if_splits)

lemma needs_option_known: "needs_option need n ch = Some e \<Longrightarrow> e \<in> api_faults"
  by (auto simp: needs_option_def api_faults_def dest: channel_fault_known split: option.splits if_splits)

lemma map_filter_in: "x \<in> set (List.map_filter f xs) \<Longrightarrow> \<exists>y. f y = Some x"
  by (induction xs) (auto simp: map_filter_simps split: option.splits)

lemma api_check_known: "api_check n rq = Some e \<Longrightarrow> e \<in> api_faults"
proof (cases rq)
  case (RqBroadcast chs data)
  assume "api_check n rq = Some e"
  then have "e = bad_request \<or> e \<in> set (List.map_filter (channel_fault n) chs)"
    by (auto simp: RqBroadcast find_Some_iff split: if_splits)
  then show ?thesis by (auto simp: api_faults_def dest!: map_filter_in channel_fault_known)
qed (auto simp: api_faults_def dest: channel_fault_known needs_option_known split: if_splits)

lemma api_effect_shrinks: "node_shrinks w n (snd (api_effect w rq n))"
proof (cases rq)
  case (RqBroadcast chs data)
  have "node_shrinks w n (fold (\<lambda>ch. node_publish w ch (the data) None) chs n)"
  proof (induction chs arbitrary: n)
    case (Cons ch chs)
    have "node_shrinks w n (node_publish w ch (the data) None n)" by (rule node_ops_shrink)
    from node_shrinks_trans [OF this Cons.IH] show ?case by simp
  qed simp
  then show ?thesis by (simp add: RqBroadcast)
qed (simp_all add: node_ops_shrink split_def Let_def)

section \<open>The interfaces\<close>

text \<open>What an interface makes of a decoded request, given how it renders an outcome.\<close>

definition front_outcome ::
    "world \<Rightarrow> (api_fault + api_answer \<Rightarrow> 'r) \<Rightarrow> api_fault + api_request \<Rightarrow> 'e node \<Rightarrow> 'r \<times> 'e node" where
  "front_outcome w rend q n =
     (case q of
        Inl e \<Rightarrow> (rend (Inl e), n)
      | Inr rq \<Rightarrow> (let (a, n1) = api_call w rq n in (rend a, n1)))"

locale api_front =
  fixes w :: world
    and request :: "'c \<Rightarrow> api_fault + api_request"
    and render :: "'c \<Rightarrow> api_fault + api_answer \<Rightarrow> 'r"
    and serve :: "'c \<Rightarrow> 'e node \<Rightarrow> 'r \<times> 'e node"
  assumes serve_refines: "serve c n = front_outcome w (render c) (request c) n"
    and request_fault: "request c = Inl e \<Longrightarrow> e \<in> api_faults"
begin

lemma refused_or_done:
  "(\<exists>e \<in> api_faults. serve c n = (render c (Inl e), n)) \<or>
   (\<exists>rq a n1. request c = Inr rq \<and> api_check n rq = None \<and> api_effect w rq n = (a, n1) \<and>
      serve c n = (render c (Inr a), n1))"
proof (cases "request c")
  case (Inl e)
  then have "serve c n = (render c (Inl e), n)" by (simp add: serve_refines front_outcome_def)
  then show ?thesis using request_fault [OF Inl] by blast
next
  case (Inr rq)
  show ?thesis
  proof (cases "api_check n rq")
    case None
    with Inr show ?thesis
      by (cases "api_effect w rq n") (simp add: serve_refines front_outcome_def api_call_def)
  next
    case (Some e)
    with Inr have "serve c n = (render c (Inl e), n)"
      by (simp add: serve_refines front_outcome_def api_call_def)
    then show ?thesis using api_check_known [OF Some] by blast
  qed
qed

lemma serve_shrinks: "node_shrinks w n (snd (serve c n))"
  using refused_or_done [of c n] api_effect_shrinks [of w n] by (metis node_shrinks_refl snd_conv)

end

subsection \<open>JSON\<close>

definition decoded :: "('a \<Rightarrow> api_request) \<Rightarrow> 'a option \<Rightarrow> api_fault + api_request" where
  "decoded f x = (case x of None \<Rightarrow> Inl bad_request | Some r \<Rightarrow> Inr (f r))"

lemma decoded_fault: "decoded f x = Inl e \<Longrightarrow> e \<in> api_faults"
  by (auto simp: decoded_def api_faults_def split: option.splits)

lemma no_method_fault [simp]: "no_method \<in> api_faults"
  by (simp add: api_faults_def)

definition json_request :: "api_json \<Rightarrow> api_command \<Rightarrow> api_fault + api_request" where
  "json_request J cmd =
     (let m = ac_method cmd; p = ac_params cmd;
          channel = (\<lambda>f. decoded (f \<circ> jc_channel) (parse_req \<lparr>jc_channel = ''''\<rparr> (aj_channel J) p))
      in
      if m = ''publish'' then
        decoded (\<lambda>r. RqPublish (jp_channel r) (jp_data r))
          (parse_req \<lparr>jp_channel = '''', jp_data = None\<rparr> (aj_publish J) p)
      else if m = ''broadcast'' then
        decoded (\<lambda>r. RqBroadcast (jb_channels r) (jb_data r))
          (parse_req \<lparr>jb_channels = [], jb_data = None\<rparr> (aj_broadcast J) p)
      else if m = ''unsubscribe'' then
        decoded (\<lambda>r. RqUnsubscribe (ju_user r) (ju_channel r))
          (parse_req \<lparr>ju_user = '''', ju_channel = ''''\<rparr> (aj_unsubscribe J) p)
      else if m = ''disconnect'' then
        decoded (RqDisconnect \<circ> jd_user) (parse_req \<lparr>jd_user = ''''\<rparr> (aj_disconnect J) p)
      else if m = ''presence'' then channel RqPresence
      else if m = ''presence_stats'' then channel RqPresenceStats
      else if m = ''history'' then channel RqHistory
      else if m = ''history_remove'' then channel RqHistoryRemove
      else if m = ''channels'' then Inr RqChannels
      else if m = ''info'' then Inr RqInfo
      else if m = ''rpc'' then decoded (RqRpc \<circ> jr_method) (parse_req \<lparr>jr_method = ''''\<rparr> (aj_rpc J) p)
      else Inl no_method)"

definition json_render :: "api_json \<Rightarrow> api_command \<Rightarrow> api_fault + api_answer \<Rightarrow> api_reply" where
  "json_render J cmd a =
     (let i = ac_id cmd in
      case a of
        Inl (code, message) \<Rightarrow> api_fail i code message
      | Inr AnVoid \<Rightarrow> api_void i
      | Inr (AnPresence m) \<Rightarrow> api_ok J i (PresenceResult m)
      | Inr (AnStats c u) \<Rightarrow> api_ok J i (PresenceStatsResult c u)
      | Inr (AnHistory pubs) \<Rightarrow> api_ok J i (HistoryResult (map api_publication_of pubs))
      | Inr (AnChannels chs) \<Rightarrow> api_ok J i (ChannelsResult chs)
      | Inr (AnInfo nodes) \<Rightarrow> api_ok J i (InfoResult nodes))"

named_theorems fault_defs
lemmas [fault_defs] = bad_request_def no_namespace_def not_available_def no_method_def

lemma channel_caps_fault:
  "channel_caps n i ch =
     (case channel_fault n ch of
        Some (code, message) \<Rightarrow> Inl (api_fail i code message)
      | None \<Rightarrow> Inr (co_presence (the (node_channel_options n ch)),
                  co_history_enabled (the (node_channel_options n ch))))"
  by (simp add: channel_caps_def channel_fault_def fault_defs split: option.split)

lemma find_first: "find (\<lambda>e. True) xs = (case xs of [] \<Rightarrow> None | x # _ \<Rightarrow> Some x)"
  by (cases xs) simp_all

lemma caps_error_find:
  "caps_error n i chs =
     map_option (\<lambda>(code, message). api_fail i code message)
       (find (\<lambda>e. True) (List.map_filter (channel_fault n) chs))"
  by (induction chs) (auto simp: channel_caps_fault map_filter_simps split: option.split)

lemmas json_defs = decoded_def front_outcome_def api_call_def json_render_def channel_caps_fault
  needs_option_def caps_error_find publish_each_def fault_defs

lemma json_publish:
  "dispatch_publish w J (ac_id cmd) p n = front_outcome w (json_render J cmd)
     (decoded (\<lambda>r. RqPublish (jp_channel r) (jp_data r)) (parse_req \<lparr>jp_channel = '''', jp_data = None\<rparr> (aj_publish J) p)) n"
  by (auto simp: dispatch_publish_def json_defs split: option.split)

lemma json_broadcast:
  "dispatch_broadcast w J (ac_id cmd) p n = front_outcome w (json_render J cmd)
     (decoded (\<lambda>r. RqBroadcast (jb_channels r) (jb_data r)) (parse_req \<lparr>jb_channels = [], jb_data = None\<rparr> (aj_broadcast J) p)) n"
  by (auto simp: dispatch_broadcast_def json_defs split: option.split)

lemma json_unsubscribe:
  "dispatch_unsubscribe w J (ac_id cmd) p n = front_outcome w (json_render J cmd)
     (decoded (\<lambda>r. RqUnsubscribe (ju_user r) (ju_channel r)) (parse_req \<lparr>ju_user = '''', ju_channel = ''''\<rparr> (aj_unsubscribe J) p)) n"
  by (auto simp: dispatch_unsubscribe_def json_defs split: option.split)

lemma json_disconnect:
  "dispatch_disconnect w J (ac_id cmd) p n = front_outcome w (json_render J cmd)
     (decoded (RqDisconnect \<circ> jd_user) (parse_req \<lparr>jd_user = ''''\<rparr> (aj_disconnect J) p)) n"
  by (auto simp: dispatch_disconnect_def json_defs split: option.split)

lemma json_presence:
  "dispatch_presence w J (ac_id cmd) p n = front_outcome w (json_render J cmd)
     (decoded (RqPresence \<circ> jc_channel) (parse_req \<lparr>jc_channel = ''''\<rparr> (aj_channel J) p)) n"
  by (auto simp: dispatch_presence_def json_defs split: option.split prod.split)

lemma json_presence_stats:
  "dispatch_presence_stats w J (ac_id cmd) p n = front_outcome w (json_render J cmd)
     (decoded (RqPresenceStats \<circ> jc_channel) (parse_req \<lparr>jc_channel = ''''\<rparr> (aj_channel J) p)) n"
  by (auto simp: dispatch_presence_stats_def json_defs split: option.split prod.split)

lemma json_history:
  "dispatch_history w J (ac_id cmd) p n = front_outcome w (json_render J cmd)
     (decoded (RqHistory \<circ> jc_channel) (parse_req \<lparr>jc_channel = ''''\<rparr> (aj_channel J) p)) n"
  by (auto simp: dispatch_history_def json_defs split: option.split prod.split)

lemma json_history_remove:
  "dispatch_history_remove w J (ac_id cmd) p n = front_outcome w (json_render J cmd)
     (decoded (RqHistoryRemove \<circ> jc_channel) (parse_req \<lparr>jc_channel = ''''\<rparr> (aj_channel J) p)) n"
  by (auto simp: dispatch_history_remove_def json_defs split: option.split prod.split)

lemma json_rpc:
  "dispatch_rpc w J (ac_id cmd) p n = front_outcome w (json_render J cmd)
     (decoded (RqRpc \<circ> jr_method) (parse_req \<lparr>jr_method = ''''\<rparr> (aj_rpc J) p)) n"
  by (auto simp: dispatch_rpc_def json_defs split: option.split)

lemma json_plain:
  "(api_ok J (ac_id cmd) (ChannelsResult (hub_channels (nd_hub n))), n) =
     front_outcome w (json_render J cmd) (Inr RqChannels) n"
  "(api_ok J (ac_id cmd) (InfoResult (info_nodes w n)), n) = front_outcome w (json_render J cmd) (Inr RqInfo) n"
  "(api_fail (ac_id cmd) 104 ''method not found'', n) = front_outcome w (json_render J cmd) (Inl no_method) n"
  by (simp_all add: json_defs)

interpretation json_api: api_front w "json_request J" "json_render J" "dispatch w J" for w J
proof
  fix c :: api_command and n :: "'e node"
  show "dispatch w J c n = front_outcome w (json_render J c) (json_request J c) n"
    unfolding dispatch_def json_request_def Let_def json_publish json_broadcast json_unsubscribe
      json_disconnect json_presence json_presence_stats json_history json_history_remove json_rpc
      json_plain [where J = J and w = w] if_distrib [of "\<lambda>q. front_outcome w (json_render J c) q n"]
    by (rule refl)
next
  show "e \<in> api_faults" if "json_request J c = Inl e" for c e
    using that unfolding json_request_def by (auto simp: Let_def dest: decoded_fault split: if_splits)
qed

subsection \<open>Protobuf\<close>

definition pb_request :: "api_pb \<Rightarrow> pb_api_command \<Rightarrow> api_fault + api_request" where
  "pb_request P cmd =
     (let p = pac_params cmd; channel = (\<lambda>f. decoded (f \<circ> pach_channel) (aw_channel P p)) in
      case api_method_from_i32 (pac_method cmd) of
        None \<Rightarrow> Inl no_method
      | Some m \<Rightarrow>
          (case m of
             AmPublish \<Rightarrow> decoded (\<lambda>r. RqPublish (paq_channel r) (vec_to_raw (paq_data r))) (aw_publish P p)
           | AmBroadcast \<Rightarrow> decoded (\<lambda>r. RqBroadcast (pab_channels r) (vec_to_raw (pab_data r))) (aw_broadcast P p)
           | AmUnsubscribe \<Rightarrow> decoded (\<lambda>r. RqUnsubscribe (pau_user r) (pau_channel r)) (aw_unsubscribe P p)
           | AmDisconnect \<Rightarrow> decoded (RqDisconnect \<circ> pad_user) (aw_disconnect P p)
           | AmPresence \<Rightarrow> channel RqPresence
           | AmPresenceStats \<Rightarrow> channel RqPresenceStats
           | AmHistory \<Rightarrow> channel RqHistory
           | AmHistoryRemove \<Rightarrow> channel RqHistoryRemove
           | AmChannels \<Rightarrow> Inr RqChannels
           | AmInfo \<Rightarrow> Inr RqInfo
           | AmRpc \<Rightarrow> decoded (RqRpc \<circ> pax_method) (aw_rpc P p)))"

definition pb_answer :: "api_answer \<Rightarrow> pb_api_result option" where
  "pb_answer a =
     (case a of
        AnVoid \<Rightarrow> None
      | AnPresence m \<Rightarrow> Some (PbPresence (map (\<lambda>(k, v). (k, to_pb_client_info v)) m))
      | AnStats c u \<Rightarrow> Some (PbPresenceStats c u)
      | AnHistory pubs \<Rightarrow> Some (PbHistory (map to_pb_publication pubs))
      | AnChannels chs \<Rightarrow> Some (PbChannels chs)
      | AnInfo nodes \<Rightarrow> Some (PbInfo nodes))"

definition pb_render :: "api_pb \<Rightarrow> pb_api_command \<Rightarrow> api_fault + api_answer \<Rightarrow> pb_api_reply" where
  "pb_render P cmd a =
     (case a of
        Inl (code, message) \<Rightarrow> pb_refuse (pac_id cmd) code message
      | Inr ans \<Rightarrow>
          mk_pb_reply (pac_id cmd) None (case pb_answer ans of None \<Rightarrow> [] | Some r \<Rightarrow> aw_result P r))"

definition pb_fault :: "api_fault \<Rightarrow> pb_api_error" where
  "pb_fault e = api_err (fst e) (snd e)"

lemma pb_channel_caps_fault:
  "pb_channel_caps n ch =
     (case channel_fault n ch of
        Some e \<Rightarrow> Inl (pb_fault e)
      | None \<Rightarrow> Inr (co_presence (the (node_channel_options n ch)),
                  co_history_enabled (the (node_channel_options n ch))))"
  by (simp add: pb_channel_caps_def channel_fault_def fault_defs pb_fault_def split: option.split)

lemma pb_caps_error_find:
  "pb_caps_error n chs = map_option pb_fault (find (\<lambda>e. True) (List.map_filter (channel_fault n) chs))"
  by (induction chs) (auto simp: pb_channel_caps_fault map_filter_simps split: option.split)

lemma vec_to_raw_iff: "vec_to_raw v = None \<longleftrightarrow> v = []" "v \<noteq> [] \<Longrightarrow> the (vec_to_raw v) = v"
  by (auto simp: vec_to_raw_def)

lemmas pb_defs = decoded_def front_outcome_def api_call_def pb_render_def pb_answer_def
  pb_channel_caps_fault pb_caps_error_find needs_option_def publish_each_def fault_defs pb_fault_def
  pb_refuse_def vec_to_raw_iff

lemma pb_publish_ok:
  "pb_publish_arm w P (pac_id cmd) p n = front_outcome w (pb_render P cmd)
     (decoded (\<lambda>r. RqPublish (paq_channel r) (vec_to_raw (paq_data r))) (aw_publish P p)) n"
  by (auto simp: pb_publish_arm_def pb_defs split: option.split)

lemma pb_broadcast:
  "pb_broadcast_arm w P (pac_id cmd) p n = front_outcome w (pb_render P cmd)
     (decoded (\<lambda>r. RqBroadcast (pab_channels r) (vec_to_raw (pab_data r))) (aw_broadcast P p)) n"
  by (auto simp: pb_broadcast_arm_def pb_defs split: option.split)

lemma pb_unsubscribe:
  "pb_unsubscribe_arm w P (pac_id cmd) p n = front_outcome w (pb_render P cmd)
     (decoded (\<lambda>r. RqUnsubscribe (pau_user r) (pau_channel r)) (aw_unsubscribe P p)) n"
  by (auto simp: pb_unsubscribe_arm_def pb_defs split: option.split)

lemma pb_disconnect:
  "pb_disconnect_arm w P (pac_id cmd) p n = front_outcome w (pb_render P cmd)
     (decoded (RqDisconnect \<circ> pad_user) (aw_disconnect P p)) n"
  by (auto simp: pb_disconnect_arm_def pb_defs split: option.split)

lemma pb_presence:
  "pb_presence_arm w P (pac_id cmd) p n = front_outcome w (pb_render P cmd)
     (decoded (RqPresence \<circ> pach_channel) (aw_channel P p)) n"
  by (auto simp: pb_presence_arm_def pb_defs split: option.split prod.split)

lemma pb_presence_stats:
  "pb_presence_stats_arm w P (pac_id cmd) p n = front_outcome w (pb_render P cmd)
     (decoded (RqPresenceStats \<circ> pach_channel) (aw_channel P p)) n"
  by (auto simp: pb_presence_stats_arm_def pb_defs split: option.split prod.split)

lemma pb_history:
  "pb_history_arm w P (pac_id cmd) p n = front_outcome w (pb_render P cmd)
     (decoded (RqHistory \<circ> pach_channel) (aw_channel P p)) n"
  by (auto simp: pb_history_arm_def pb_defs split: option.split prod.split)

lemma pb_history_remove:
  "pb_history_remove_arm w P (pac_id cmd) p n = front_outcome w (pb_render P cmd)
     (decoded (RqHistoryRemove \<circ> pach_channel) (aw_channel P p)) n"
  by (auto simp: pb_history_remove_arm_def pb_defs split: option.split prod.split)

lemma pb_rpc:
  "pb_rpc_arm w P (pac_id cmd) p n = front_outcome w (pb_render P cmd)
     (decoded (RqRpc \<circ> pax_method) (aw_rpc P p)) n"
  by (auto simp: pb_rpc_arm_def pb_defs split: option.split)

lemmas pb_arms = pb_publish_ok pb_broadcast pb_unsubscribe pb_disconnect pb_presence pb_presence_stats
  pb_history pb_history_remove pb_rpc

lemma pb_plain:
  "(mk_pb_reply (pac_id cmd) None (aw_result P (PbChannels (hub_channels (nd_hub n)))), n) =
     front_outcome w (pb_render P cmd) (Inr RqChannels) n"
  "(mk_pb_reply (pac_id cmd) None (aw_result P (PbInfo (info_nodes w n))), n) =
     front_outcome w (pb_render P cmd) (Inr RqInfo) n"
  "(pb_refuse (pac_id cmd) 104 ''method not found'', n) = front_outcome w (pb_render P cmd) (Inl no_method) n"
  by (simp_all add: pb_defs)

interpretation pb_api: api_front w "pb_request P" "pb_render P" "dispatch_pb w P" for w P
proof
  fix c :: pb_api_command and n :: "'e node"
  show "dispatch_pb w P c n = front_outcome w (pb_render P c) (pb_request P c) n"
  proof (cases "api_method_from_i32 (pac_method c)")
    case None
    then show ?thesis by (simp add: dispatch_pb_def pb_request_def pb_plain(3) [where w = w and P = P])
  next
    case (Some m)
    then show ?thesis
      by (cases m) (simp_all add: dispatch_pb_def pb_request_def pb_arms pb_plain [where w = w and P = P])
  qed
next
  show "e \<in> api_faults" if "pb_request P c = Inl e" for c e
    using that unfolding pb_request_def
    by (auto simp: Let_def dest: decoded_fault split: option.splits api_method.splits)
qed

subsection \<open>gRPC\<close>

text \<open>A call of one of the service's procedures, and the procedure it reaches.\<close>

datatype grpc_call =
  CallPublish pb_api_publish
| CallBroadcast pb_api_broadcast
| CallUnsubscribe pb_api_unsubscribe
| CallDisconnect pb_api_disconnect
| CallPresence pb_api_channel
| CallPresenceStats pb_api_channel
| CallHistory pb_api_channel
| CallHistoryRemove pb_api_channel
| CallChannels
| CallInfo
| CallRpc pb_api_rpc

fun grpc_serve :: "world \<Rightarrow> grpc_call \<Rightarrow> 'e node \<Rightarrow> grpc_response \<times> 'e node" where
  "grpc_serve w (CallPublish req) n = grpc_publish w req n"
| "grpc_serve w (CallBroadcast req) n = grpc_broadcast w req n"
| "grpc_serve w (CallUnsubscribe req) n = grpc_unsubscribe w req n"
| "grpc_serve w (CallDisconnect req) n = grpc_disconnect w req n"
| "grpc_serve w (CallPresence req) n = grpc_presence w req n"
| "grpc_serve w (CallPresenceStats req) n = grpc_presence_stats w req n"
| "grpc_serve w (CallHistory req) n = grpc_history w req n"
| "grpc_serve w (CallHistoryRemove req) n = grpc_history_remove w req n"
| "grpc_serve w CallChannels n = (grpc_channels n, n)"
| "grpc_serve w CallInfo n = (grpc_info w n, n)"
| "grpc_serve w (CallRpc req) n = (grpc_rpc req, n)"

fun grpc_request :: "grpc_call \<Rightarrow> api_fault + api_request" where
  "grpc_request (CallPublish r) = Inr (RqPublish (paq_channel r) (vec_to_raw (paq_data r)))"
| "grpc_request (CallBroadcast r) = Inr (RqBroadcast (pab_channels r) (vec_to_raw (pab_data r)))"
| "grpc_request (CallUnsubscribe r) = Inr (RqUnsubscribe (pau_user r) (pau_channel r))"
| "grpc_request (CallDisconnect r) = Inr (RqDisconnect (pad_user r))"
| "grpc_request (CallPresence r) = Inr (RqPresence (pach_channel r))"
| "grpc_request (CallPresenceStats r) = Inr (RqPresenceStats (pach_channel r))"
| "grpc_request (CallHistory r) = Inr (RqHistory (pach_channel r))"
| "grpc_request (CallHistoryRemove r) = Inr (RqHistoryRemove (pach_channel r))"
| "grpc_request CallChannels = Inr RqChannels"
| "grpc_request CallInfo = Inr RqInfo"
| "grpc_request (CallRpc r) = Inr (RqRpc (pax_method r))"

definition grpc_render :: "grpc_call \<Rightarrow> api_fault + api_answer \<Rightarrow> grpc_response" where
  "grpc_render q a =
     (case a of
        Inl (code, message) \<Rightarrow> grpc_refuse code message
      | Inr ans \<Rightarrow> grpc_answer None (pb_answer ans))"

lemmas grpc_defs = front_outcome_def api_call_def grpc_render_def pb_answer_def pb_channel_caps_fault
  pb_caps_error_find needs_option_def publish_each_def fault_defs pb_fault_def grpc_refuse_def
  vec_to_raw_iff

interpretation grpc_api: api_front w grpc_request grpc_render "grpc_serve w" for w
proof
  fix c :: grpc_call and n :: "'e node"
  show "grpc_serve w c n = front_outcome w (grpc_render c) (grpc_request c) n"
  proof (cases c)
    case (CallPublish r)
    then show ?thesis by (auto simp: grpc_publish_def grpc_defs split: option.split)
  next
    case (CallBroadcast r)
    then show ?thesis by (auto simp: grpc_broadcast_def grpc_defs Let_def split: option.split)
  next
    case (CallUnsubscribe r)
    then show ?thesis by (auto simp: grpc_unsubscribe_def grpc_defs Let_def split: option.split)
  next
    case (CallDisconnect r)
    then show ?thesis by (auto simp: grpc_disconnect_def grpc_defs Let_def)
  next
    case (CallPresence r)
    then show ?thesis by (auto simp: grpc_presence_def grpc_defs split: option.split prod.split)
  next
    case (CallPresenceStats r)
    then show ?thesis by (auto simp: grpc_presence_stats_def grpc_defs split: option.split prod.split)
  next
    case (CallHistory r)
    then show ?thesis by (auto simp: grpc_history_def grpc_defs split: option.split prod.split)
  next
    case (CallHistoryRemove r)
    then show ?thesis by (auto simp: grpc_history_remove_def grpc_defs split: option.split prod.split)
  next
    case CallChannels
    then show ?thesis by (simp add: grpc_channels_def grpc_defs)
  next
    case CallInfo
    then show ?thesis by (simp add: grpc_info_def grpc_defs)
  next
    case (CallRpc r)
    then show ?thesis by (simp add: grpc_rpc_def grpc_defs Let_def)
  qed
next
  show "e \<in> api_faults" if "grpc_request c = Inl e" for c e
    using that by (cases c) simp_all
qed

section \<open>Rendered outcomes\<close>

lemma json_rendered:
  "ar_error (json_render J cmd (Inl e)) = Some \<lparr>ae_code = fst e, ae_message = snd e\<rparr>"
  "ar_error (json_render J cmd (Inr a)) = None"
  by (cases e; simp add: json_render_def api_fail_def)
     (cases a; simp add: json_render_def api_void_def api_ok_def)

lemma pb_rendered:
  "par_error (pb_render P cmd (Inl e)) = Some \<lparr>pae_code = fst e, pae_message = snd e\<rparr>"
  "par_error (pb_render P cmd (Inr a)) = None"
  by (cases e; simp add: pb_render_def pb_refuse_def mk_pb_reply_def api_err_def)
     (simp add: pb_render_def mk_pb_reply_def)

lemma grpc_rendered:
  "gr_error (grpc_render q (Inl e)) = Some \<lparr>pae_code = fst e, pae_message = snd e\<rparr>"
  "gr_error (grpc_render q (Inr a)) = None"
  by (cases e; simp add: grpc_render_def grpc_refuse_def grpc_answer_def api_err_def)
     (simp add: grpc_render_def grpc_answer_def)

section \<open>Batches\<close>

text \<open>The commands of a body, one after the other, with the line each is answered with.\<close>

fun serve_each :: "world \<Rightarrow> api_json \<Rightarrow> api_command list \<Rightarrow> 'e node \<Rightarrow> api_reply list \<times> 'e node" where
  "serve_each w J [] n = ([], n)"
| "serve_each w J (cmd # cmds) n =
     (let (r, n1) = dispatch w J cmd n; (rs, n2) = serve_each w J cmds n1 in (r # rs, n2))"

definition reply_line :: "api_json \<Rightarrow> api_reply \<Rightarrow> bytes" where
  "reply_line J r = (case aj_reply J r of Some b \<Rightarrow> b | None \<Rightarrow> [123, 125]) @ [10]"

lemma command_loop_each:
  "command_loop w J ct (map Some cmds @ later) buf n =
     (let (rs, n1) = serve_each w J cmds n
      in command_loop w J ct later (buf @ concat (map (reply_line J) rs)) n1)"
  by (induction cmds arbitrary: buf n) (simp_all add: reply_line_def split_def Let_def)

lemma command_loop_shrinks: "node_shrinks w n (snd (command_loop w J ct cmds buf n))"
proof (induction cmds arbitrary: buf n)
  case (Cons c cmds)
  show ?case
  proof (cases c)
    case (Some cmd)
    obtain rep n1 where d: "dispatch w J cmd n = (rep, n1)" by (cases "dispatch w J cmd n")
    have "node_shrinks w n n1" using json_api.serve_shrinks [of w n J cmd] d by simp
    from node_shrinks_trans [OF this Cons.IH] d Some show ?thesis by (simp add: Let_def)
  qed simp
qed simp

text \<open>A decoder of delimited messages takes at least one byte.\<close>

definition consumes :: "api_pb \<Rightarrow> bool" where
  "consumes P \<longleftrightarrow> (\<forall>buf cmd rest. aw_next P buf = Some (cmd, rest) \<longrightarrow> length rest < length buf)"

lemma pb_loop_returns:
  assumes "consumes P"
  shows "\<exists>resp n'. pb_loop w P ct buf out n = Some (resp, n') \<and> node_shrinks w n n'"
proof (induction "length buf" arbitrary: buf out n rule: less_induct)
  case less
  show ?case
  proof (cases "buf = []")
    case True
    then show ?thesis by (subst pb_loop.simps) simp
  next
    case False
    show ?thesis
    proof (cases "aw_next P buf")
      case None
      then show ?thesis using False by (subst pb_loop.simps) simp
    next
      case (Some r)
      then obtain cmd rest where nx: "aw_next P buf = Some (cmd, rest)" by (cases r) simp
      obtain rep n1 where d: "dispatch_pb w P cmd n = (rep, n1)" by (cases "dispatch_pb w P cmd n")
      have 1: "node_shrinks w n n1" using pb_api.serve_shrinks [of w n P cmd] d by simp
      show ?thesis
      proof (cases "aw_reply P rep")
        case None
        then show ?thesis using False nx d 1 by (subst pb_loop.simps) simp
      next
        case (Some b)
        have "length rest < length buf" using assms nx by (auto simp: consumes_def)
        from less [OF this, of "out @ b" n1] obtain resp n2 where
          "pb_loop w P ct rest (out @ b) n1 = Some (resp, n2)" "node_shrinks w n1 n2" by blast
        then show ?thesis
          using False nx d Some node_shrinks_trans [OF 1] by (subst pb_loop.simps) simp
      qed
    qed
  qed
qed

lemma run_api_returns:
  assumes "consumes P"
  shows "\<exists>resp n'. run_api w J P content_type body n = Some (resp, n') \<and> node_shrinks w n n'"
proof -
  have "\<exists>resp n'. run_protobuf w P body ct n = Some (resp, n') \<and> node_shrinks w n n'" for ct
    using pb_loop_returns [OF assms, of w ct body "[]" n] by (simp add: run_protobuf_def)
  moreover have "node_shrinks w n (snd (run_commands w J body ct n))" for ct
    by (simp add: run_commands_def command_loop_shrinks)
  ultimately show ?thesis
    by (simp add: run_api_def Let_def) (metis prod.collapse)
qed

section \<open>Words of a header\<close>

lemma split_blank_append:
  assumes "p \<noteq> []" "list_all (\<lambda>c. 32 < byte_of c \<and> byte_of c < 127) p"
  shows "split_blank (p @ CHR '' '' # rest) = p # split_blank rest"
  using assms
proof (induction p)
  case (Cons c cs)
  have c: "c \<noteq> CHR '' ''" "byte_of c \<noteq> 9" using Cons.prems(2) by (auto simp: byte_of_def)
  show ?case
  proof (cases cs)
    case Nil
    then show ?thesis using c by simp
  next
    case (Cons d ds)
    then have d: "d \<noteq> CHR '' ''" "byte_of d \<noteq> 9"
      using \<open>list_all _ (c # cs)\<close> by (auto simp: byte_of_def)
    have "split_blank (cs @ CHR '' '' # rest) = cs # split_blank rest"
      using Cons \<open>list_all _ (c # cs)\<close> by (intro Cons.IH) auto
    then show ?thesis using c d Cons by simp
  qed
qed simp

lemma split_blank_word:
  assumes "p \<noteq> []" "list_all (\<lambda>c. 32 < byte_of c \<and> byte_of c < 127) p"
  shows "split_blank p = [p]"
  using assms
proof (induction p)
  case (Cons c cs)
  have c: "c \<noteq> CHR '' ''" "byte_of c \<noteq> 9" using Cons.prems(2) by (auto simp: byte_of_def)
  show ?case
  proof (cases cs)
    case Nil
    then show ?thesis using c by simp
  next
    case (Cons d ds)
    then have d: "d \<noteq> CHR '' ''" "byte_of d \<noteq> 9"
      using \<open>list_all _ (c # cs)\<close> by (auto simp: byte_of_def)
    have "split_blank cs = [cs]"
      using Cons \<open>list_all _ (c # cs)\<close> by (intro Cons.IH) auto
    then show ?thesis using c d Cons by simp
  qed
qed simp

section \<open>Properties\<close>

text \<open>
  C15: The three interfaces of the server API are one: commands in JSON, in protobuf and over gRPC
  that decode to the same request check the same things in the same order, have the same effect on
  the node, and answer with renderings of the same outcome.\<close>

theorem api_interfaces_agree:
  assumes "json_request J cmd = Inr rq" "pb_request P pcmd = Inr rq" "grpc_request q = Inr rq"
  shows "\<exists>a n'. api_call w rq n = (a, n') \<and>
    dispatch w J cmd n = (json_render J cmd a, n') \<and>
    dispatch_pb w P pcmd n = (pb_render P pcmd a, n') \<and>
    grpc_serve w q n = (grpc_render q a, n')"
proof -
  obtain a n' where "api_call w rq n = (a, n')" by (cases "api_call w rq n")
  then show ?thesis
    using json_api.serve_refines [of w J cmd n] pb_api.serve_refines [of w P pcmd n] grpc_api.serve_refines [of w q n] assms
    by (simp add: front_outcome_def)
qed


text \<open>Samples: one publish command, in each of the three formats.\<close>

definition sample_api_json :: api_json where
  "sample_api_json =
     \<lparr>aj_commands = (\<lambda>b. [Some \<lparr>ac_id = 1, ac_method = ''publish'', ac_params = Some b\<rparr>, None]),
      aj_publish = (\<lambda>b. Some \<lparr>jp_channel = ''news'', jp_data = Some [49]\<rparr>),
      aj_broadcast = (\<lambda>b. None), aj_channel = (\<lambda>b. None), aj_unsubscribe = (\<lambda>b. None),
      aj_disconnect = (\<lambda>b. None), aj_rpc = (\<lambda>b. None), aj_result = (\<lambda>r. None),
      aj_raw = (\<lambda>b. Some b), aj_reply = (\<lambda>r. Some [123, 125])\<rparr>"

definition sample_api_pb :: api_pb where
  "sample_api_pb =
     \<lparr>aw_next = (\<lambda>b. if b = [] then None else Some (\<lparr>pac_id = 1, pac_method = 0, pac_params = []\<rparr>, [])),
      aw_publish = (\<lambda>b. Some \<lparr>paq_channel = ''news'', paq_data = [49]\<rparr>),
      aw_broadcast = (\<lambda>b. None), aw_unsubscribe = (\<lambda>b. None), aw_disconnect = (\<lambda>b. None),
      aw_channel = (\<lambda>b. None), aw_rpc = (\<lambda>b. None), aw_result = (\<lambda>r. []),
      aw_reply = (\<lambda>r. Some [0])\<rparr>"

theorem api_interfaces_agree_witness:
  "snd (dispatch sample_world sample_api_json \<lparr>ac_id = 1, ac_method = ''publish'', ac_params = Some []\<rparr> sample_node) =
   snd (grpc_serve sample_world (CallPublish \<lparr>paq_channel = ''news'', paq_data = [49]\<rparr>) sample_node)"
proof -
  let ?rq = "RqPublish ''news'' (Some [49])"
  have "json_request sample_api_json \<lparr>ac_id = 1, ac_method = ''publish'', ac_params = Some []\<rparr> = Inr ?rq"
    "pb_request sample_api_pb \<lparr>pac_id = 1, pac_method = 0, pac_params = []\<rparr> = Inr ?rq"
    "grpc_request (CallPublish \<lparr>paq_channel = ''news'', paq_data = [49]\<rparr>) = Inr ?rq"
    by (simp_all add: json_request_def pb_request_def decoded_def parse_req_def sample_api_json_def
        sample_api_pb_def api_method_from_i32_def api_methods_def vec_to_raw_def)
  from api_interfaces_agree [OF this, of sample_world sample_node] show ?thesis by auto
qed




text \<open>
  A JSON body is worked off command by command. When all of it parses, the answer has one line
  for each command, in order, under the content type of the request. When something in it does not
  parse, the answer is 400 without a line, although the commands before it have been carried out.\<close>

theorem api_batch:
  assumes "\<not> blank_text body" "aj_commands J body = map Some cmds @ later" "later = [] \<or> hd later = None"
  shows "run_commands w J body ct n =
    (let (rs, n1) = serve_each w J cmds n
     in (if later = [] then ApiBody ct (concat (map (reply_line J) rs)) else ApiStatus 400, n1)) \<and>
    length (fst (serve_each w J cmds n)) = length cmds"
proof
  obtain rs n1 where e: "serve_each w J cmds n = (rs, n1)" by (cases "serve_each w J cmds n")
  have "run_commands w J body ct n = command_loop w J ct later (concat (map (reply_line J) rs)) n1"
    using assms(1,2) e by (simp add: run_commands_def command_loop_each)
  then show "run_commands w J body ct n =
    (let (rs, n1) = serve_each w J cmds n
     in (if later = [] then ApiBody ct (concat (map (reply_line J) rs)) else ApiStatus 400, n1))"
    using assms(3) e by (cases later) auto
  show "length (fst (serve_each w J cmds n)) = length cmds"
    by (induction cmds arbitrary: n) (simp_all add: split_def Let_def)
qed

theorem api_batch_witness:
  "fst (run_commands sample_world sample_api_json [65] '''' sample_node) = ApiStatus 400 \<and>
   snd (run_commands sample_world sample_api_json [65] '''' sample_node) =
     node_publish sample_world ''news'' [49] None sample_node"
proof -
  let ?cmd = "\<lparr>ac_id = 1, ac_method = ''publish'', ac_params = Some [65]\<rparr> :: api_command"
  have b: "\<not> blank_text [65]" by (simp add: white1_def)
  have s: "aj_commands sample_api_json [65] = map Some [?cmd] @ [None]" by (simp add: sample_api_json_def)
  have "node_channel_options sample_node ''news'' = Some channel_options_default"
    by (simp add: node_channel_options_def ns_channel_options_def namespaces_default_def strip_prefix_def)
  then have "dispatch sample_world sample_api_json ?cmd sample_node =
      (api_void 1, node_publish sample_world ''news'' [49] None sample_node)"
    by (simp add: dispatch_def dispatch_publish_def parse_req_def channel_caps_def sample_api_json_def)
  then show ?thesis using api_batch [OF b s, of sample_world "''''" sample_node] by simp
qed

text \<open>
  For a key without blanks, what the gRPC interceptor accepts the HTTP header check accepts
  too, but the interceptor compares the scheme's letters, unlike the HTTP check and unlike the
  comment on \<open>check_apikey\<close>; and an empty key opens gRPC to everyone while it closes HTTP.\<close>

theorem grpc_key_is_exact:
  assumes "key \<noteq> []" "list_all (\<lambda>c. 32 < byte_of c \<and> byte_of c < 127) key"
  shows "(grpc_guard key (Some h) \<longrightarrow> authorized \<lparr>aa_key = key, aa_insecure = False\<rparr> (Some h) None) \<and>
    authorized \<lparr>aa_key = key, aa_insecure = False\<rparr> (Some (''Apikey '' @ key)) None \<and>
    \<not> grpc_guard key (Some (''Apikey '' @ key)) \<and>
    grpc_guard [] meta \<and> \<not> authorized \<lparr>aa_key = [], aa_insecure = False\<rparr> meta query"
proof -
  have k: "split_blank key = [key]" using assms by (rule split_blank_word)
  have s: "split_blank (p @ '' '' @ key) = [p, key]"
    if "p \<noteq> []" "list_all (\<lambda>c. 32 < byte_of c \<and> byte_of c < 127) p" for p
    using split_blank_append [OF that, of key] k by simp
  have h: "header_str (p @ '' '' @ key) = Some (p @ '' '' @ key)"
    if "list_all (\<lambda>c. 32 < byte_of c \<and> byte_of c < 127) p" for p
    using that assms(2) by (auto simp: header_str_def list_all_iff byte_of_def)
  have a: "list_all (\<lambda>c. 32 < byte_of c \<and> byte_of c < 127) ''apikey''"
    "list_all (\<lambda>c. 32 < byte_of c \<and> byte_of c < 127) ''Apikey''" by (simp_all add: byte_of_def)
  have 1: "authorized \<lparr>aa_key = key, aa_insecure = False\<rparr> (Some (''apikey '' @ key)) None"
    using s [of "''apikey''"] h [of "''apikey''"] a assms(1) by (simp add: authorized_def eq_ignore_case_def)
  have "eq_ignore_case ''Apikey'' ''apikey''" by code_simp
  then have 2: "authorized \<lparr>aa_key = key, aa_insecure = False\<rparr> (Some (''Apikey '' @ key)) None"
    using s [of "''Apikey''"] h [of "''Apikey''"] a assms(1) by (simp add: authorized_def)
  have 3: "\<not> grpc_guard key (Some (''Apikey '' @ key))"
    using h [of "''Apikey''"] a assms(1) by (simp add: grpc_guard_def check_apikey_def)
  have 4: "h = ''apikey '' @ key" if "grpc_guard key (Some h)"
    using that assms(1) by (auto simp: grpc_guard_def check_apikey_def header_str_def split: if_splits)
  show ?thesis using 1 2 3 4 by (auto simp: grpc_guard_def authorized_def)
qed

theorem grpc_key_is_exact_witness:
  "authorized \<lparr>aa_key = ''secret'', aa_insecure = False\<rparr> (Some ''Apikey secret'') None \<and>
   \<not> grpc_guard ''secret'' (Some ''Apikey secret'')"
  using grpc_key_is_exact [of "''secret''"] by (simp add: byte_of_def)

end
