(* ===== verification/Redis.thy ===== *)
theory Redis
  imports Api
begin

text \<open>
  The Redis engine (\<open>crates/centrifugo-redis/src/lib.rs\<close>): the messages between nodes, the Lua scripts
  for history and presence, and the methods of the \<open>Engine\<close> trait. The Redis server is a parameter:
  its commands are the fields of the record \<open>redis\<close>, over a server state of any type. A command may
  fail with an error (a key of the wrong kind), which ends a script and keeps what the script has
  done; a call over the connection may also fail as a whole, before or after the server ran it.
\<close>

section \<open>The server\<close>

type_synonym ('r, 'a) script = "'r \<Rightarrow> 'a option \<times> 'r"

definition sret :: "'a \<Rightarrow> ('r, 'a) script" where
  "sret x = (\<lambda>r. (Some x, r))"

definition sbind :: "('r, 'a) script \<Rightarrow> ('a \<Rightarrow> ('r, 'b) script) \<Rightarrow> ('r, 'b) script" where
  "sbind m f = (\<lambda>r. case m r of (Some x, r1) \<Rightarrow> f x r1 | (None, r1) \<Rightarrow> (None, r1))"

text \<open>The connection: the call is served, never arrives, or its answer is lost.\<close>

datatype redis_link = Up | Unreachable | ReplyLost

text \<open>
  The commands the engine uses, with the arguments it passes: \<open>HINCRBY\<close> by one, \<open>LTRIM\<close> from zero to
  the given index, \<open>LRANGE\<close> of the whole list, scores from zero. \<open>rd_number\<close> is the text of a Lua number.
\<close>

record 'r redis =
  rd_link :: "world \<Rightarrow> 'r \<Rightarrow> redis_link"
  rd_number :: "int \<Rightarrow> bytes"
  rd_time :: "world \<Rightarrow> ('r, bytes) script"
  rd_exists :: "world \<Rightarrow> string \<Rightarrow> ('r, bool) script"
  rd_del :: "world \<Rightarrow> string \<Rightarrow> ('r, unit) script"
  rd_expire :: "world \<Rightarrow> string \<Rightarrow> u64 \<Rightarrow> ('r, unit) script"
  rd_hget :: "world \<Rightarrow> string \<Rightarrow> bytes \<Rightarrow> ('r, bytes option) script"
  rd_hset :: "world \<Rightarrow> string \<Rightarrow> bytes \<Rightarrow> bytes \<Rightarrow> ('r, unit) script"
  rd_hincr :: "world \<Rightarrow> string \<Rightarrow> bytes \<Rightarrow> ('r, int) script"
  rd_hdel :: "world \<Rightarrow> string \<Rightarrow> bytes \<Rightarrow> ('r, unit) script"
  rd_hgetall :: "world \<Rightarrow> string \<Rightarrow> ('r, bytes list) script"
  rd_lpush :: "world \<Rightarrow> string \<Rightarrow> bytes \<Rightarrow> ('r, unit) script"
  rd_ltrim :: "world \<Rightarrow> string \<Rightarrow> nat \<Rightarrow> ('r, unit) script"
  rd_lrange :: "world \<Rightarrow> string \<Rightarrow> ('r, bytes list) script"
  rd_zadd :: "world \<Rightarrow> string \<Rightarrow> u64 \<Rightarrow> bytes \<Rightarrow> ('r, unit) script"
  rd_zrem :: "world \<Rightarrow> string \<Rightarrow> bytes \<Rightarrow> ('r, unit) script"
  rd_zrange :: "world \<Rightarrow> string \<Rightarrow> u64 \<Rightarrow> ('r, bytes list) script"
  rd_zremrange :: "world \<Rightarrow> string \<Rightarrow> u64 \<Rightarrow> ('r, unit) script"
  rd_publish :: "world \<Rightarrow> string \<Rightarrow> bytes \<Rightarrow> ('r, unit) script"

section \<open>Messages\<close>

record control_command =
  cc_uid :: string
  cc_method :: int
  cc_params :: bytes

record control_node =
  cn_uid :: string
  cn_name :: string
  cn_version :: string
  cn_num_clients :: u32
  cn_num_users :: u32
  cn_num_channels :: u32
  cn_uptime :: u32

record control_unsubscribe =
  cu_channel :: string
  cu_user :: string

record control_disconnect =
  cd_user :: string
  cd_whitelist :: "string list"
  cd_code :: u32
  cd_reason :: string
  cd_reconnect :: bool

text \<open>\<open>prost\<close> on the messages the engine sends and stores.\<close>

record redis_pb =
  rp_pub_enc :: "pb_publication \<Rightarrow> bytes"
  rp_pub_dec :: "bytes \<Rightarrow> pb_publication option"
  rp_info_enc :: "pb_client_info \<Rightarrow> bytes"
  rp_info_dec :: "bytes \<Rightarrow> pb_client_info option"
  rp_cmd_enc :: "control_command \<Rightarrow> bytes"
  rp_cmd_dec :: "bytes \<Rightarrow> control_command option"
  rp_node_enc :: "control_node \<Rightarrow> bytes"
  rp_node_dec :: "bytes \<Rightarrow> control_node option"
  rp_unsub_enc :: "control_unsubscribe \<Rightarrow> bytes"
  rp_unsub_dec :: "bytes \<Rightarrow> control_unsubscribe option"
  rp_disc_enc :: "control_disconnect \<Rightarrow> bytes"
  rp_disc_dec :: "bytes \<Rightarrow> control_disconnect option"

definition to_pb_info :: "client_info \<Rightarrow> pb_client_info" where
  "to_pb_info ci =
     \<lparr>pbci_user = ci_user ci, pbci_client = ci_client ci,
      pbci_conn_info = (case ci_conn_info ci of Some r \<Rightarrow> r | None \<Rightarrow> []),
      pbci_chan_info = (case ci_chan_info ci of Some r \<Rightarrow> r | None \<Rightarrow> [])\<rparr>"

definition from_pb_info :: "pb_client_info \<Rightarrow> client_info" where
  "from_pb_info pi =
     (let opt = (\<lambda>b. if b = [] then None else Some b) in
      \<lparr>ci_user = pbci_user pi, ci_client = pbci_client pi,
       ci_conn_info = opt (pbci_conn_info pi), ci_chan_info = opt (pbci_chan_info pi)\<rparr>)"

text \<open>The two underscores around a marker, and the markers of joins and leaves.\<close>

definition mark :: bytes where "mark = [95, 95]"
definition join_mark :: bytes where "join_mark = [106]"
definition leave_mark :: bytes where "leave_mark = [108]"

text \<open>\<open>str::parse::<u64>\<close>: an optional plus, at least one digit, no overflow.\<close>

fun digits_u64 :: "nat \<Rightarrow> bytes \<Rightarrow> nat option" where
  "digits_u64 acc [] = Some acc"
| "digits_u64 acc (b # bs) =
     (if 48 \<le> b \<and> b \<le> 57 then
        (let acc1 = acc * 10 + unat (b - 48) in if acc1 < 2 ^ 64 then digits_u64 acc1 bs else None)
      else None)"

definition parse_u64 :: "bytes \<Rightarrow> u64 option" where
  "parse_u64 bs =
     (let ds = (case bs of [] \<Rightarrow> [] | b # rest \<Rightarrow> if b = 43 then rest else bs)
      in if ds = [] then None else map_option of_nat (digits_u64 0 ds))"

definition extract_push :: "bytes \<Rightarrow> nat \<times> u64 \<times> bytes" where
  "extract_push data =
     (case Option.bind (strip_prefix mark data) (split_once mark) of
        None \<Rightarrow> (0, 0, data)
      | Some (marker, body) \<Rightarrow>
          if marker = join_mark then (1, 0, body)
          else if marker = leave_mark then (2, 0, body)
          else (0, (case parse_u64 marker of Some off \<Rightarrow> off | None \<Rightarrow> 0), body))"

record redis_config =
  rcf_uid :: string
  rcf_prefix :: string
  rcf_meta_ttl :: u64

definition prefix_or_default :: "string \<Rightarrow> string" where
  "prefix_or_default prefix = (if prefix = [] then ''centrifugo'' else prefix)"

definition client_key :: "redis_config \<Rightarrow> string \<Rightarrow> string" where
  "client_key C channel = rcf_prefix C @ ''.client.'' @ channel"

definition meta_key :: "redis_config \<Rightarrow> string \<Rightarrow> string" where
  "meta_key C channel = rcf_prefix C @ ''.list.meta.'' @ channel"

definition list_key :: "redis_config \<Rightarrow> string \<Rightarrow> string" where
  "list_key C channel = rcf_prefix C @ ''.list.'' @ channel"

definition presence_data_key :: "redis_config \<Rightarrow> string \<Rightarrow> string" where
  "presence_data_key C channel = rcf_prefix C @ ''.presence.data.'' @ channel"

definition presence_set_key :: "redis_config \<Rightarrow> string \<Rightarrow> string" where
  "presence_set_key C channel = rcf_prefix C @ ''.presence.expire.'' @ channel"

definition control_topic :: "redis_config \<Rightarrow> string" where
  "control_topic C = rcf_prefix C @ ''.control''"

definition encode_control :: "redis_pb \<Rightarrow> string \<Rightarrow> control_message \<Rightarrow> bytes" where
  "encode_control Q node_uid msg =
     (let (meth, params) =
        (case msg of
           CmUnsubscribe user channel \<Rightarrow> (1, rp_unsub_enc Q \<lparr>cu_channel = channel, cu_user = user\<rparr>)
         | CmDisconnect user code reason reconnect whitelist \<Rightarrow>
             (2, rp_disc_enc Q
                   \<lparr>cd_user = user, cd_whitelist = whitelist, cd_code = code, cd_reason = reason,
                    cd_reconnect = reconnect\<rparr>)
         | CmNode n \<Rightarrow>
             (0, rp_node_enc Q
                   \<lparr>cn_uid = ni_uid n, cn_name = ni_name n, cn_version = ni_version n,
                    cn_num_clients = ni_num_clients n, cn_num_users = ni_num_users n,
                    cn_num_channels = ni_num_channels n, cn_uptime = ni_uptime n\<rparr>))
      in rp_cmd_enc Q \<lparr>cc_uid = node_uid, cc_method = meth, cc_params = params\<rparr>)"

definition decode_control :: "redis_pb \<Rightarrow> bytes \<Rightarrow> string \<Rightarrow> control_message option" where
  "decode_control Q b self_uid =
     (case rp_cmd_dec Q b of
        None \<Rightarrow> None
      | Some cmd \<Rightarrow>
          if cc_uid cmd = self_uid then None
          else if cc_method cmd = 1 then
            map_option (\<lambda>u. CmUnsubscribe (cu_user u) (cu_channel u)) (rp_unsub_dec Q (cc_params cmd))
          else if cc_method cmd = 2 then
            map_option
              (\<lambda>d. CmDisconnect (cd_user d) (cd_code d) (cd_reason d) (cd_reconnect d) (cd_whitelist d))
              (rp_disc_dec Q (cc_params cmd))
          else if cc_method cmd = 0 then
            map_option
              (\<lambda>n. CmNode \<lparr>ni_uid = cn_uid n, ni_name = cn_name n, ni_version = cn_version n,
                 ni_num_clients = cn_num_clients n, ni_num_users = cn_num_users n,
                 ni_num_channels = cn_num_channels n, ni_uptime = cn_uptime n, ni_metrics = None\<rparr>)
              (rp_node_dec Q (cc_params cmd))
          else None)"

text \<open>A stored or received publication, with the offset of its frame.\<close>

definition read_publication :: "u64 \<Rightarrow> pb_publication \<Rightarrow> publication" where
  "read_publication off p =
     publication_default\<lparr>pub_data := Some (pbpub_data p), pub_info := map_option from_pb_info (pbpub_info p),
       pub_offset := off\<rparr>"

text \<open>What a message of the bus is routed as, if it is routed.\<close>

definition dispatch_message :: "redis_pb \<Rightarrow> redis_config \<Rightarrow> string \<Rightarrow> bytes \<Rightarrow> node_message option" where
  "dispatch_message Q C topic payload =
     (if topic = control_topic C then map_option NmControl (decode_control Q payload (rcf_uid C))
      else
        (case strip_prefix (rcf_prefix C @ ''.client.'') topic of
           None \<Rightarrow> None
         | Some channel \<Rightarrow>
             (let (kind, offset, body) = extract_push payload in
              if kind = 1 then map_option (\<lambda>ci. NmJoin channel (from_pb_info ci)) (rp_info_dec Q body)
              else if kind = 2 then map_option (\<lambda>ci. NmLeave channel (from_pb_info ci)) (rp_info_dec Q body)
              else map_option (\<lambda>p. NmPublication channel (read_publication offset p)) (rp_pub_dec Q body))))"

definition redis_incoming ::
    "world \<Rightarrow> redis_pb \<Rightarrow> redis_config \<Rightarrow> string \<Rightarrow> bytes \<Rightarrow> 'e node \<Rightarrow> 'e node" where
  "redis_incoming w Q C topic payload n =
     (case dispatch_message Q C topic payload of None \<Rightarrow> n | Some msg \<Rightarrow> route_message w msg n)"

section \<open>The scripts\<close>

definition epoch_field :: bytes where "epoch_field = [101]"
definition offset_field :: bytes where "offset_field = [115]"

text \<open>What both history scripts begin with: the epoch, created from the server's clock.\<close>

definition lua_epoch :: "'r redis \<Rightarrow> world \<Rightarrow> string \<Rightarrow> ('r, bytes) script" where
  "lua_epoch R w meta =
     sbind (rd_exists R w meta) (\<lambda>ex.
     sbind (if ex then rd_hget R w meta epoch_field else sret None) (\<lambda>epoch.
       case epoch of
         Some e \<Rightarrow> sret e
       | None \<Rightarrow>
           sbind (rd_time R w) (\<lambda>e.
           sbind (rd_hset R w meta epoch_field e) (\<lambda>_. sret e))))"

definition lua_unless :: "bool \<Rightarrow> ('r, unit) script \<Rightarrow> ('r, unit) script" where
  "lua_unless b m = (if b then sret () else m)"

text \<open>The payload stored and published by the script.\<close>

definition history_payload :: "'r redis \<Rightarrow> int \<Rightarrow> bytes \<Rightarrow> bytes" where
  "history_payload R offset message = mark @ rd_number R offset @ mark @ message"

definition add_history ::
    "'r redis \<Rightarrow> world \<Rightarrow> string \<Rightarrow> string \<Rightarrow> bytes \<Rightarrow> nat \<Rightarrow> u64 \<Rightarrow> string \<Rightarrow> u64 \<Rightarrow> ('r, int \<times> bytes) script"
  where
  "add_history R w lst meta message bound list_ttl topic meta_ttl =
     sbind (lua_epoch R w meta) (\<lambda>epoch.
     sbind (rd_hincr R w meta offset_field) (\<lambda>offset.
     sbind (lua_unless (meta_ttl = 0) (rd_expire R w meta meta_ttl)) (\<lambda>_.
     (let payload = history_payload R offset message in
      sbind (rd_lpush R w lst payload) (\<lambda>_.
      sbind (rd_ltrim R w lst bound) (\<lambda>_.
      sbind (rd_expire R w lst list_ttl) (\<lambda>_.
      sbind (lua_unless (topic = []) (rd_publish R w topic payload)) (\<lambda>_.
      sret (offset, epoch)))))))))"

definition history_script ::
    "'r redis \<Rightarrow> world \<Rightarrow> string \<Rightarrow> string \<Rightarrow> u64 \<Rightarrow> ('r, bytes option \<times> bytes \<times> bytes list) script" where
  "history_script R w lst meta meta_ttl =
     sbind (rd_hget R w meta offset_field) (\<lambda>offset.
     sbind (lua_epoch R w meta) (\<lambda>epoch.
     sbind (lua_unless (meta_ttl = 0) (rd_expire R w meta meta_ttl)) (\<lambda>_.
     sbind (rd_lrange R w lst) (\<lambda>pubs.
     sret (offset, epoch, pubs)))))"

definition presence_add_script ::
    "'r redis \<Rightarrow> world \<Rightarrow> string \<Rightarrow> string \<Rightarrow> u64 \<Rightarrow> u64 \<Rightarrow> bytes \<Rightarrow> bytes \<Rightarrow> ('r, unit) script" where
  "presence_add_script R w zkey dkey ttl expire_at client info =
     sbind (rd_zadd R w zkey expire_at client) (\<lambda>_.
     sbind (rd_hset R w dkey client info) (\<lambda>_.
     sbind (rd_expire R w zkey ttl) (\<lambda>_.
     rd_expire R w dkey ttl)))"

definition presence_rem_script ::
    "'r redis \<Rightarrow> world \<Rightarrow> string \<Rightarrow> string \<Rightarrow> bytes \<Rightarrow> ('r, unit) script" where
  "presence_rem_script R w zkey dkey client =
     sbind (rd_hdel R w dkey client) (\<lambda>_. rd_zrem R w zkey client)"

fun hdel_each :: "'r redis \<Rightarrow> world \<Rightarrow> string \<Rightarrow> bytes list \<Rightarrow> ('r, unit) script" where
  "hdel_each R w dkey [] = sret ()"
| "hdel_each R w dkey (c # cs) = sbind (rd_hdel R w dkey c) (\<lambda>_. hdel_each R w dkey cs)"

definition presence_read_script ::
    "'r redis \<Rightarrow> world \<Rightarrow> string \<Rightarrow> string \<Rightarrow> u64 \<Rightarrow> ('r, bytes list) script" where
  "presence_read_script R w zkey dkey now =
     sbind (rd_zrange R w zkey now) (\<lambda>expired.
     sbind (lua_unless (expired = [])
              (sbind (hdel_each R w dkey expired) (\<lambda>_. rd_zremrange R w zkey now))) (\<lambda>_.
     rd_hgetall R w dkey))"

section \<open>The engine\<close>

text \<open>One call over the connection.\<close>

definition invoke :: "'r redis \<Rightarrow> world \<Rightarrow> ('r, 'a) script \<Rightarrow> ('r, 'a) script" where
  "invoke R w s = (\<lambda>r.
     case rd_link R w r of
       Up \<Rightarrow> s r
     | Unreachable \<Rightarrow> (None, r)
     | ReplyLost \<Rightarrow> (None, snd (s r)))"

text \<open>A method of the trait as a script: nothing is routed at once, the bus brings it back.\<close>

definition method_of :: "('r, 'a) script \<Rightarrow> ('r, 'a) engine_call" where
  "method_of s = (\<lambda>r. let (x, r1) = s r in (x, [], r1))"

definition text_bytes :: "string \<Rightarrow> bytes" where
  "text_bytes s = map (\<lambda>c. of_nat (byte_of c)) s"

definition bytes_text :: "bytes \<Rightarrow> string option" where
  "bytes_text b = (let s = map (\<lambda>x. char_of (unat x)) b in if utf8_text s then Some s else None)"

definition publish_frame :: "'r redis \<Rightarrow> world \<Rightarrow> redis_config \<Rightarrow> string \<Rightarrow> bytes \<Rightarrow> ('r, unit) script" where
  "publish_frame R w C channel payload = invoke R w (rd_publish R w (client_key C channel) payload)"

text \<open>The answer of the script as the types the code asks for; \<open>None\<close> is a conversion error.\<close>

definition history_answer ::
    "bytes option \<times> bytes \<times> bytes list \<Rightarrow> (u64 option \<times> string \<times> bytes list) option" where
  "history_answer a =
     (let (offset, epoch, pubs) = a in
      case (case offset of None \<Rightarrow> Some None | Some b \<Rightarrow> map_option Some (parse_u64 b)) of
        None \<Rightarrow> None
      | Some off \<Rightarrow> map_option (\<lambda>ep. (off, ep, pubs)) (bytes_text epoch))"

definition stored_publication :: "redis_pb \<Rightarrow> bytes \<Rightarrow> publication option" where
  "stored_publication Q raw =
     (let (kind, off, body) = extract_push raw in map_option (read_publication off) (rp_pub_dec Q body))"

text \<open>The end of \<open>read_history\<close> and the body of \<open>history_since\<close>, on the converted answer.\<close>

definition read_answer ::
    "redis_pb \<Rightarrow> u64 option \<times> string \<times> bytes list \<Rightarrow> publication list \<times> stream_position" where
  "read_answer Q a =
     (let (offset, epoch, pubs) = a in
      (sort_key pub_offset (List.map_filter (stored_publication Q) pubs),
       \<lparr>sp_offset = (case offset of Some x \<Rightarrow> x | None \<Rightarrow> 0), sp_epoch = epoch\<rparr>))"

definition result_since ::
    "publication list \<times> stream_position \<Rightarrow> u64 \<Rightarrow> string \<Rightarrow> publication list \<times> stream_position" where
  "result_since res offset epoch =
     (let (all, tp) = res in
      if sp_offset tp = offset \<and> sp_epoch tp = epoch then ([], tp)
      else (filter (\<lambda>p. pub_offset p > offset) all, tp))"

definition read_history ::
    "'r redis \<Rightarrow> redis_pb \<Rightarrow> redis_config \<Rightarrow> world \<Rightarrow> string \<Rightarrow> ('r, publication list \<times> stream_position) script"
  where
  "read_history R Q C w channel =
     sbind (invoke R w (history_script R w (list_key C channel) (meta_key C channel) (rcf_meta_ttl C)))
       (\<lambda>a r. (map_option (read_answer Q) (history_answer a), r))"

definition live_message :: "bytes \<Rightarrow> client_info option \<Rightarrow> pb_publication" where
  "live_message data info =
     \<lparr>pbpub_seq = 0, pbpub_gen = 0, pbpub_uid = '''', pbpub_data = data,
      pbpub_info = map_option to_pb_info info, pbpub_offset = 0\<rparr>"

definition live_payload :: "redis_pb \<Rightarrow> bytes \<Rightarrow> client_info option \<Rightarrow> bytes" where
  "live_payload Q data info = rp_pub_enc Q (live_message data info)"

definition redis_publish ::
    "'r redis \<Rightarrow> redis_pb \<Rightarrow> redis_config \<Rightarrow> world \<Rightarrow> string \<Rightarrow> bytes \<Rightarrow> client_info option \<Rightarrow> publish_options
       \<Rightarrow> ('r, unit) script" where
  "redis_publish R Q C w channel data info opts =
     (let payload = live_payload Q data info in
      if po_history_enabled opts then
        sbind (invoke R w
                 (add_history R w (list_key C channel) (meta_key C channel) payload
                    (po_history_size opts - 1) (po_history_lifetime opts) (client_key C channel) (rcf_meta_ttl C)))
          (\<lambda>_. sret ())
      else publish_frame R w C channel payload)"

definition redis_publish_control ::
    "'r redis \<Rightarrow> redis_pb \<Rightarrow> redis_config \<Rightarrow> world \<Rightarrow> control_message \<Rightarrow> ('r, unit) script" where
  "redis_publish_control R Q C w msg =
     invoke R w (rd_publish R w (control_topic C) (encode_control Q (rcf_uid C) msg))"

definition redis_publish_join ::
    "'r redis \<Rightarrow> redis_pb \<Rightarrow> redis_config \<Rightarrow> world \<Rightarrow> string \<Rightarrow> client_info \<Rightarrow> ('r, unit) script" where
  "redis_publish_join R Q C w channel info =
     publish_frame R w C channel (mark @ join_mark @ mark @ rp_info_enc Q (to_pb_info info))"

definition redis_publish_leave ::
    "'r redis \<Rightarrow> redis_pb \<Rightarrow> redis_config \<Rightarrow> world \<Rightarrow> string \<Rightarrow> client_info \<Rightarrow> ('r, unit) script" where
  "redis_publish_leave R Q C w channel info =
     publish_frame R w C channel (mark @ leave_mark @ mark @ rp_info_enc Q (to_pb_info info))"

definition redis_history_since ::
    "'r redis \<Rightarrow> redis_pb \<Rightarrow> redis_config \<Rightarrow> world \<Rightarrow> string \<Rightarrow> u64 \<Rightarrow> string
       \<Rightarrow> ('r, publication list \<times> stream_position) script" where
  "redis_history_since R Q C w channel offset epoch =
     sbind (read_history R Q C w channel) (\<lambda>res. sret (result_since res offset epoch))"

definition redis_remove_history :: "'r redis \<Rightarrow> redis_config \<Rightarrow> world \<Rightarrow> string \<Rightarrow> ('r, unit) script" where
  "redis_remove_history R C w channel = invoke R w (rd_del R w (list_key C channel))"

definition now_secs :: "world \<Rightarrow> u64" where
  "now_secs w = of_nat (nat (wd_now w))"

definition redis_add_presence ::
    "'r redis \<Rightarrow> redis_pb \<Rightarrow> redis_config \<Rightarrow> world \<Rightarrow> string \<Rightarrow> string \<Rightarrow> client_info \<Rightarrow> u64 \<Rightarrow> ('r, unit) script" where
  "redis_add_presence R Q C w channel client_id info ttl_ms =
     (let ttl = ttl_ms div 1000 in
      invoke R w
        (presence_add_script R w (presence_set_key C channel) (presence_data_key C channel) ttl
           (now_secs w + ttl) (text_bytes client_id) (rp_info_enc Q (to_pb_info info))))"

definition redis_remove_presence ::
    "'r redis \<Rightarrow> redis_config \<Rightarrow> world \<Rightarrow> string \<Rightarrow> string \<Rightarrow> ('r, unit) script" where
  "redis_remove_presence R C w channel client_id =
     invoke R w
       (presence_rem_script R w (presence_set_key C channel) (presence_data_key C channel) (text_bytes client_id))"

text \<open>The loop over the flat answer, which skips what does not decode.\<close>

fun presence_pairs :: "redis_pb \<Rightarrow> bytes list \<Rightarrow> (string, client_info) hmap \<Rightarrow> (string, client_info) hmap" where
  "presence_pairs Q (k # v # flat) out =
     presence_pairs Q flat
       (case (bytes_text k, rp_info_dec Q v) of
          (Some client, Some ci) \<Rightarrow> hm_insert client (from_pb_info ci) out
        | _ \<Rightarrow> out)"
| "presence_pairs Q flat out = out"

definition redis_presence ::
    "'r redis \<Rightarrow> redis_pb \<Rightarrow> redis_config \<Rightarrow> world \<Rightarrow> string \<Rightarrow> ('r, (string, client_info) hmap) script" where
  "redis_presence R Q C w channel =
     sbind (invoke R w
              (presence_read_script R w (presence_set_key C channel) (presence_data_key C channel) (now_secs w)))
       (\<lambda>flat. sret (presence_pairs Q flat []))"

definition redis_presence_stats ::
    "'r redis \<Rightarrow> redis_pb \<Rightarrow> redis_config \<Rightarrow> world \<Rightarrow> string \<Rightarrow> ('r, u32 \<times> u32) script" where
  "redis_presence_stats R Q C w channel =
     sbind (redis_presence R Q C w channel) (\<lambda>p.
       sret (of_nat (length p), of_nat (length (remdups (map (\<lambda>(k, ci). ci_user ci) p)))))"

definition redis_engine_ops :: "'r redis \<Rightarrow> redis_pb \<Rightarrow> redis_config \<Rightarrow> 'r engine_ops" where
  "redis_engine_ops R Q C =
     \<lparr>eo_publish = (\<lambda>w ch data info opts. method_of (redis_publish R Q C w ch data info opts)),
      eo_publish_control = (\<lambda>w msg. method_of (redis_publish_control R Q C w msg)),
      eo_publish_join = (\<lambda>w ch info. method_of (redis_publish_join R Q C w ch info)),
      eo_publish_leave = (\<lambda>w ch info. method_of (redis_publish_leave R Q C w ch info)),
      eo_subscribe = (\<lambda>w ch. method_of (sret ())),
      eo_unsubscribe = (\<lambda>w ch. method_of (sret ())),
      eo_history = (\<lambda>w ch. method_of (read_history R Q C w ch)),
      eo_history_since = (\<lambda>w ch off ep. method_of (redis_history_since R Q C w ch off ep)),
      eo_remove_history = (\<lambda>w ch. method_of (redis_remove_history R C w ch)),
      eo_add_presence = (\<lambda>w ch i info ttl. method_of (redis_add_presence R Q C w ch i info ttl)),
      eo_remove_presence = (\<lambda>w ch i. method_of (redis_remove_presence R C w ch i)),
      eo_presence = (\<lambda>w ch. method_of (redis_presence R Q C w ch)),
      eo_presence_stats = (\<lambda>w ch. method_of (redis_presence_stats R Q C w ch))\<rparr>"

section \<open>Addresses\<close>

text \<open>Whether a URL names a password or a database, which then wins over the configuration.\<close>

definition url_rest :: "string \<Rightarrow> string" where
  "url_rest url = (case split_once ''://'' url of Some (scheme, rest) \<Rightarrow> rest | None \<Rightarrow> url)"

definition url_specifies_password :: "string \<Rightarrow> bool" where
  "url_specifies_password url =
     (let authority = takeWhile (\<lambda>c. c \<noteq> CHR ''/'') (url_rest url) in
      case rsplit_once_char (CHR ''@'') authority of
        Some (userinfo, hostport) \<Rightarrow> CHR '':'' \<in> set userinfo
      | None \<Rightarrow> False)"

definition url_specifies_db :: "string \<Rightarrow> bool" where
  "url_specifies_db url =
     (let path = takeWhile (\<lambda>c. c \<noteq> CHR ''?'' \<and> c \<noteq> CHR ''#'') (url_rest url) in
      case split_once ''/'' path of Some (authority, db) \<Rightarrow> db \<noteq> [] | None \<Rightarrow> False)"

text \<open>
  \<open>connect\<close>: the password and database in force, given what the URL parser (a library) found in the
  address.
\<close>

definition effective_password :: "string \<Rightarrow> string option \<Rightarrow> string option \<Rightarrow> string option" where
  "effective_password addr parsed configured =
     (if \<not> (split_once ''://'' addr \<noteq> None \<and> url_specifies_password addr)
      then (case configured of Some p \<Rightarrow> if p \<noteq> [] then Some p else parsed | None \<Rightarrow> parsed)
      else parsed)"

definition effective_db :: "string \<Rightarrow> int \<Rightarrow> int \<Rightarrow> int" where
  "effective_db addr parsed configured =
     (if \<not> (split_once ''://'' addr \<noteq> None \<and> url_specifies_db addr) \<and> configured \<noteq> 0
      then configured else parsed)"

text \<open>\<open>str::trim\<close>: characters of the Unicode property White_Space, from the front and from the back.\<close>

fun trim_start :: "bytes \<Rightarrow> bytes" where
  "trim_start [] = []"
| "trim_start (a # bs) =
     (if white1 a then trim_start bs
      else
        (case bs of
           [] \<Rightarrow> a # bs
         | b # cs \<Rightarrow>
             if white2 a b then trim_start cs
             else (case cs of [] \<Rightarrow> a # bs | c # ds \<Rightarrow> if white3 a b c then trim_start ds else a # bs)))"

fun trim_last :: "bytes \<Rightarrow> bytes" where
  "trim_last [] = []"
| "trim_last (c # bs) =
     (if white1 c then trim_last bs
      else
        (case bs of
           [] \<Rightarrow> c # bs
         | b # as \<Rightarrow>
             if white2 b c then trim_last as
             else (case as of [] \<Rightarrow> c # bs | a # ds \<Rightarrow> if white3 a b c then trim_last ds else c # bs)))"

definition trim_text :: "string \<Rightarrow> string" where
  "trim_text s = map (\<lambda>b. char_of (unat b)) (rev (trim_last (rev (trim_start (text_bytes s)))))"

text \<open>The addresses of \<open>connect_sentinel\<close>, or why it gives up.\<close>

datatype sentinel_error = MalformedSentinel string | NoSentinels

fun sentinel_entries :: "string list \<Rightarrow> sentinel_error + string list" where
  "sentinel_entries [] = Inr []"
| "sentinel_entries (s # ss) =
     (if split_once ''://'' s \<noteq> None then map_sum id (Cons s) (sentinel_entries ss)
      else
        (case rsplit_once_char (CHR '':'') s of
           Some (h, p) \<Rightarrow>
             if h = [] \<or> p = [] then Inl (MalformedSentinel s)
             else map_sum id (Cons (''redis://'' @ s)) (sentinel_entries ss)
         | None \<Rightarrow> Inl (MalformedSentinel s)))"

definition sentinel_addrs :: "string \<Rightarrow> sentinel_error + string list" where
  "sentinel_addrs sentinels =
     (case sentinel_entries (filter (\<lambda>s. s \<noteq> []) (map trim_text (split_char (CHR '','') sentinels))) of
        Inl e \<Rightarrow> Inl e
      | Inr addrs \<Rightarrow> if addrs = [] then Inl NoSentinels else Inr addrs)"

text \<open>
  One turn of the watchdog after the subscription ended: the master is resolved, the command
  connection replaced, the subscription renewed; each may fail by itself.
\<close>

record ('m, 'p) redis_watch =
  rw_mgr :: 'm
  rw_pubsub :: "'p option"

definition watchdog_turn ::
    "'c option \<Rightarrow> ('c \<Rightarrow> 'm option) \<Rightarrow> ('c \<Rightarrow> 'p option) \<Rightarrow> ('m, 'p) redis_watch \<Rightarrow> ('m, 'p) redis_watch" where
  "watchdog_turn resolved manager subscribe_to rw =
     (case resolved of
        None \<Rightarrow> rw\<lparr>rw_pubsub := None\<rparr>
      | Some client \<Rightarrow>
          rw\<lparr>rw_mgr := (case manager client of Some m \<Rightarrow> m | None \<Rightarrow> rw_mgr rw),
             rw_pubsub := subscribe_to client\<rparr>)"

end

