(* ===== verification/Redis_Server.thy ===== *)
theory Redis_Server
  imports Redis
begin

text \<open>
  The behaviour of a Redis server that the Redis engine relies on, as Redis documents its commands.
  A server \<open>R\<close> with states of any type is \<open>documented\<close> when an abstraction of its states to keys
  (a value and a deadline) and to the published messages explains every command. The theorems of
  \<open>Redis_Contract\<close> hold of every such server. \<open>list_server\<close> is one, built from association lists,
  for the witnesses.
\<close>

section \<open>Keys\<close>

datatype ('h, 'z) redis_value = RHash 'h | RList "bytes list" | RZset 'z

record ('h, 'z) keyspace =
  ks_keys :: "string \<Rightarrow> (('h, 'z) redis_value \<times> int option) option"
  ks_bus :: "(string \<times> bytes) list"

text \<open>The keys that exist at a time: a key whose deadline has come does not.\<close>

definition expired :: "world \<Rightarrow> int option \<Rightarrow> bool" where
  "expired w dl = (case dl of None \<Rightarrow> False | Some t \<Rightarrow> t \<le> wd_now w)"

definition purge :: "world \<Rightarrow> ('h, 'z) keyspace \<Rightarrow> ('h, 'z) keyspace" where
  "purge w st =
     st\<lparr>ks_keys := (\<lambda>k. case ks_keys st k of None \<Rightarrow> None | Some (v, dl) \<Rightarrow> if expired w dl then None else Some (v, dl))\<rparr>"

definition value_at :: "string \<Rightarrow> ('h, 'z) keyspace \<Rightarrow> ('h, 'z) redis_value option" where
  "value_at k st = map_option fst (ks_keys st k)"

text \<open>A write keeps the deadline of a key that exists.\<close>

definition store_at :: "string \<Rightarrow> ('h, 'z) redis_value \<Rightarrow> ('h, 'z) keyspace \<Rightarrow> ('h, 'z) keyspace" where
  "store_at k v st =
     st\<lparr>ks_keys := (ks_keys st)(k \<mapsto> (v, case ks_keys st k of Some (u, t) \<Rightarrow> t | None \<Rightarrow> None))\<rparr>"

definition drop_key :: "string \<Rightarrow> ('h, 'z) keyspace \<Rightarrow> ('h, 'z) keyspace" where
  "drop_key k st = st\<lparr>ks_keys := (ks_keys st)(k := None)\<rparr>"

text \<open>Hashes and sorted sets as dictionaries over members.\<close>

record ('d, 'v) dict =
  dc_empty :: 'd
  dc_null :: "'d \<Rightarrow> bool"
  dc_get :: "'d \<Rightarrow> bytes \<Rightarrow> 'v option"
  dc_put :: "bytes \<Rightarrow> 'v \<Rightarrow> 'd \<Rightarrow> 'd"
  dc_del :: "bytes \<Rightarrow> 'd \<Rightarrow> 'd"
  dc_keep :: "('v \<Rightarrow> bool) \<Rightarrow> 'd \<Rightarrow> 'd"

definition map_dict :: "(bytes \<Rightarrow> 'v option, 'v) dict" where
  "map_dict =
     \<lparr>dc_empty = Map.empty, dc_null = (\<lambda>m. m = Map.empty), dc_get = (\<lambda>m k. m k),
      dc_put = (\<lambda>k v m. m(k \<mapsto> v)), dc_del = (\<lambda>k m. m(k := None)),
      dc_keep = (\<lambda>P m k. case m k of None \<Rightarrow> None | Some v \<Rightarrow> if P v then Some v else None)\<rparr>"

definition list_dict :: "((bytes \<times> 'v) list, 'v) dict" where
  "list_dict =
     \<lparr>dc_empty = [], dc_null = (\<lambda>m. m = []), dc_get = map_of, dc_put = AList.update, dc_del = AList.delete,
      dc_keep = (\<lambda>P m. filter (\<lambda>(k, v). P v) (AList.clearjunk m))\<rparr>"

text \<open>A key of another kind is an error.\<close>

definition as_hash :: "('h, bytes) dict \<Rightarrow> ('h, 'z) redis_value option \<Rightarrow> 'h option" where
  "as_hash H v = (case v of None \<Rightarrow> Some (dc_empty H) | Some (RHash h) \<Rightarrow> Some h | _ \<Rightarrow> None)"

definition as_list :: "('h, 'z) redis_value option \<Rightarrow> bytes list option" where
  "as_list v = (case v of None \<Rightarrow> Some [] | Some (RList xs) \<Rightarrow> Some xs | _ \<Rightarrow> None)"

definition as_zset :: "('z, u64) dict \<Rightarrow> ('h, 'z) redis_value option \<Rightarrow> 'z option" where
  "as_zset Z v = (case v of None \<Rightarrow> Some (dc_empty Z) | Some (RZset z) \<Rightarrow> Some z | _ \<Rightarrow> None)"

section \<open>Numbers\<close>

fun dec_text :: "nat \<Rightarrow> bytes" where
  "dec_text n = (if n < 10 then [of_nat (48 + n)] else dec_text (n div 10) @ [of_nat (48 + n mod 10)])"

declare dec_text.simps [simp del]

definition int_text :: "int \<Rightarrow> bytes" where
  "int_text n = (if n < 0 then 45 # dec_text (nat (- n)) else dec_text (nat n))"

text \<open>The integers a hash field may hold: 64 bits, written without leading zeros.\<close>

definition text_int :: "bytes \<Rightarrow> int option" where
  "text_int b =
     (case (case b of
              [] \<Rightarrow> None
            | c # ds \<Rightarrow> if c = 45 then map_option (\<lambda>n. - int n) (digits_u64 0 ds) else map_option int (digits_u64 0 b)) of
        None \<Rightarrow> None
      | Some n \<Rightarrow> if - (2 ^ 63) \<le> n \<and> n < 2 ^ 63 \<and> int_text n = b then Some n else None)"

section \<open>Commands\<close>

text \<open>On the keys that exist at the time of the command.\<close>

type_synonym ('h, 'z, 'a) command = "(('h, 'z) keyspace, 'a) script"

definition srv_exists :: "string \<Rightarrow> ('h, 'z, bool) command" where
  "srv_exists k = (\<lambda>st. (Some (value_at k st \<noteq> None), st))"

definition srv_del :: "string \<Rightarrow> ('h, 'z, unit) command" where
  "srv_del k = (\<lambda>st. (Some (), drop_key k st))"

text \<open>A deadline in milliseconds that does not fit is refused; a lifetime of zero deletes.\<close>

definition lifetime_fits :: "world \<Rightarrow> u64 \<Rightarrow> bool" where
  "lifetime_fits w ttl \<longleftrightarrow> (wd_now w + uint ttl) * 1000 < 2 ^ 63"

definition srv_expire :: "world \<Rightarrow> string \<Rightarrow> u64 \<Rightarrow> ('h, 'z, unit) command" where
  "srv_expire w k ttl = (\<lambda>st.
     if \<not> lifetime_fits w ttl then (None, st)
     else
       (case ks_keys st k of
          None \<Rightarrow> (Some (), st)
        | Some (v, t) \<Rightarrow>
            if ttl = 0 then (Some (), drop_key k st)
            else (Some (), st\<lparr>ks_keys := (ks_keys st)(k \<mapsto> (v, Some (wd_now w + uint ttl)))\<rparr>)))"

definition on_hash :: "('h, bytes) dict \<Rightarrow> string \<Rightarrow> ('h \<Rightarrow> ('h, 'z, 'a) command) \<Rightarrow> ('h, 'z, 'a) command" where
  "on_hash H k f = (\<lambda>st. case as_hash H (value_at k st) of None \<Rightarrow> (None, st) | Some h \<Rightarrow> f h st)"

definition on_list :: "string \<Rightarrow> (bytes list \<Rightarrow> ('h, 'z, 'a) command) \<Rightarrow> ('h, 'z, 'a) command" where
  "on_list k f = (\<lambda>st. case as_list (value_at k st) of None \<Rightarrow> (None, st) | Some xs \<Rightarrow> f xs st)"

definition on_zset :: "('z, u64) dict \<Rightarrow> string \<Rightarrow> ('z \<Rightarrow> ('h, 'z, 'a) command) \<Rightarrow> ('h, 'z, 'a) command" where
  "on_zset Z k f = (\<lambda>st. case as_zset Z (value_at k st) of None \<Rightarrow> (None, st) | Some z \<Rightarrow> f z st)"

definition srv_hget :: "('h, bytes) dict \<Rightarrow> string \<Rightarrow> bytes \<Rightarrow> ('h, 'z, bytes option) command" where
  "srv_hget H k f = on_hash H k (\<lambda>h. sret (dc_get H h f))"

definition srv_hset :: "('h, bytes) dict \<Rightarrow> string \<Rightarrow> bytes \<Rightarrow> bytes \<Rightarrow> ('h, 'z, unit) command" where
  "srv_hset H k f v = on_hash H k (\<lambda>h st. (Some (), store_at k (RHash (dc_put H f v h)) st))"

definition srv_hincr :: "('h, bytes) dict \<Rightarrow> string \<Rightarrow> bytes \<Rightarrow> ('h, 'z, int) command" where
  "srv_hincr H k f = on_hash H k (\<lambda>h st.
     case (case dc_get H h f of None \<Rightarrow> Some 0 | Some b \<Rightarrow> text_int b) of
       None \<Rightarrow> (None, st)
     | Some n \<Rightarrow>
         if n + 1 = 2 ^ 63 then (None, st)
         else (Some (n + 1), store_at k (RHash (dc_put H f (int_text (n + 1)) h)) st))"

text \<open>A hash or sorted set without members is no key.\<close>

definition shrink ::
    "('d \<Rightarrow> bool) \<Rightarrow> ('d \<Rightarrow> ('h, 'z) redis_value) \<Rightarrow> string \<Rightarrow> 'd \<Rightarrow> ('h, 'z, unit) command" where
  "shrink null mk k d = (\<lambda>st. (Some (), if null d then drop_key k st else store_at k (mk d) st))"

definition srv_hdel :: "('h, bytes) dict \<Rightarrow> string \<Rightarrow> bytes \<Rightarrow> ('h, 'z, unit) command" where
  "srv_hdel H k f = on_hash H k (\<lambda>h. shrink (dc_null H) RHash k (dc_del H f h))"

definition srv_lpush :: "string \<Rightarrow> bytes \<Rightarrow> ('h, 'z, unit) command" where
  "srv_lpush k x = on_list k (\<lambda>xs st. (Some (), store_at k (RList (x # xs)) st))"

definition srv_ltrim :: "string \<Rightarrow> nat \<Rightarrow> ('h, 'z, unit) command" where
  "srv_ltrim k n = on_list k (\<lambda>xs. shrink (\<lambda>ys. ys = []) RList k (take (Suc n) xs))"

definition srv_lrange :: "string \<Rightarrow> ('h, 'z, bytes list) command" where
  "srv_lrange k = on_list k sret"

definition srv_zadd :: "('z, u64) dict \<Rightarrow> string \<Rightarrow> u64 \<Rightarrow> bytes \<Rightarrow> ('h, 'z, unit) command" where
  "srv_zadd Z k s m = on_zset Z k (\<lambda>z st. (Some (), store_at k (RZset (dc_put Z m s z)) st))"

definition srv_zrem :: "('z, u64) dict \<Rightarrow> string \<Rightarrow> bytes \<Rightarrow> ('h, 'z, unit) command" where
  "srv_zrem Z k m = on_zset Z k (\<lambda>z. shrink (dc_null Z) RZset k (dc_del Z m z))"

definition srv_zremrange :: "('z, u64) dict \<Rightarrow> string \<Rightarrow> u64 \<Rightarrow> ('h, 'z, unit) command" where
  "srv_zremrange Z k s = on_zset Z k (\<lambda>z. shrink (dc_null Z) RZset k (dc_keep Z (\<lambda>x. \<not> x \<le> s) z))"

definition srv_publish :: "string \<Rightarrow> bytes \<Rightarrow> ('h, 'z, unit) command" where
  "srv_publish topic payload = (\<lambda>st. (Some (), st\<lparr>ks_bus := ks_bus st @ [(topic, payload)]\<rparr>))"

section \<open>Documented servers\<close>

type_synonym key_view = "(bytes \<Rightarrow> bytes option, bytes \<Rightarrow> u64 option) keyspace"

text \<open>A command answers and acts as \<open>d\<close> does on the view of the state at that time.\<close>

definition serves :: "('r \<Rightarrow> key_view) \<Rightarrow> ('r, 'a) script \<Rightarrow> (key_view, 'a) script \<Rightarrow> bool" where
  "serves V m d \<longleftrightarrow> (\<forall>r. fst (m r) = fst (d (V r)) \<and> V (snd (m r)) = snd (d (V r)))"

text \<open>
  \<open>view w r\<close> is the state \<open>r\<close> at the time of \<open>w\<close>. Lua writes a number with 14 digits; a score is a
  double. The order in which a hash or a range of equal scores is listed is not documented.
\<close>

definition documented :: "'r redis \<Rightarrow> (world \<Rightarrow> 'r \<Rightarrow> key_view) \<Rightarrow> bool" where
  "documented R view \<longleftrightarrow>
     (\<forall>w w' r. wd_now w \<le> wd_now w' \<longrightarrow> view w' r = purge w' (view w r)) \<and>
     (\<forall>n. 0 \<le> n \<and> n < 10 ^ 14 \<longrightarrow> rd_number R n = int_text n) \<and>
     (\<forall>w. serves (view w) (rd_time R w) (sret (int_text (wd_now w))) \<and>
        (\<forall>k. serves (view w) (rd_exists R w k) (srv_exists k) \<and>
             serves (view w) (rd_del R w k) (srv_del k) \<and>
             (\<forall>ttl. serves (view w) (rd_expire R w k ttl) (srv_expire w k ttl)) \<and>
             (\<forall>f. serves (view w) (rd_hget R w k f) (srv_hget map_dict k f) \<and>
                  (\<forall>v. serves (view w) (rd_hset R w k f v) (srv_hset map_dict k f v)) \<and>
                  serves (view w) (rd_hincr R w k f) (srv_hincr map_dict k f) \<and>
                  serves (view w) (rd_hdel R w k f) (srv_hdel map_dict k f)) \<and>
             (\<forall>x. serves (view w) (rd_lpush R w k x) (srv_lpush k x)) \<and>
             (\<forall>n. serves (view w) (rd_ltrim R w k n) (srv_ltrim k n)) \<and>
             serves (view w) (rd_lrange R w k) (srv_lrange k) \<and>
             (\<forall>s m. s < 2 ^ 53 \<longrightarrow> serves (view w) (rd_zadd R w k s m) (srv_zadd map_dict k s m)) \<and>
             (\<forall>m. serves (view w) (rd_zrem R w k m) (srv_zrem map_dict k m)) \<and>
             (\<forall>s. s < 2 ^ 53 \<longrightarrow> serves (view w) (rd_zremrange R w k s) (srv_zremrange map_dict k s)) \<and>
             (\<forall>x. serves (view w) (rd_publish R w k x) (srv_publish k x)) \<and>
             (\<forall>r. view w (snd (rd_hgetall R w k r)) = view w r \<and>
                (case as_hash map_dict (value_at k (view w r)) of
                   None \<Rightarrow> fst (rd_hgetall R w k r) = None
                 | Some h \<Rightarrow>
                     (\<exists>ps. fst (rd_hgetall R w k r) = Some (concat (map (\<lambda>(a, b). [a, b]) ps)) \<and>
                        hm_wf ps \<and> hm_get ps = h))) \<and>
             (\<forall>s r. s < 2 ^ 53 \<longrightarrow> view w (snd (rd_zrange R w k s r)) = view w r \<and>
                (case as_zset map_dict (value_at k (view w r)) of
                   None \<Rightarrow> fst (rd_zrange R w k s r) = None
                 | Some z \<Rightarrow>
                     (\<exists>ms. fst (rd_zrange R w k s r) = Some ms \<and> distinct ms \<and>
                        set ms = {m. \<exists>x. z m = Some x \<and> x \<le> s})))))"

section \<open>A server of association lists\<close>

type_synonym list_keys = "((bytes \<times> bytes) list, (bytes \<times> u64) list) keyspace"

text \<open>Each command first drops the keys whose deadline has come; a listing skips shadowed pairs.\<close>

definition listed :: "world \<Rightarrow> (list_keys, 'a) script \<Rightarrow> (list_keys, 'a) script" where
  "listed w m = (\<lambda>st. m (purge w st))"

definition list_server :: "(world \<Rightarrow> list_keys \<Rightarrow> redis_link) \<Rightarrow> list_keys redis" where
  "list_server link =
     \<lparr>rd_link = link, rd_number = int_text,
      rd_time = (\<lambda>w. listed w (sret (int_text (wd_now w)))),
      rd_exists = (\<lambda>w k. listed w (srv_exists k)),
      rd_del = (\<lambda>w k. listed w (srv_del k)),
      rd_expire = (\<lambda>w k ttl. listed w (srv_expire w k ttl)),
      rd_hget = (\<lambda>w k f. listed w (srv_hget list_dict k f)),
      rd_hset = (\<lambda>w k f v. listed w (srv_hset list_dict k f v)),
      rd_hincr = (\<lambda>w k f. listed w (srv_hincr list_dict k f)),
      rd_hdel = (\<lambda>w k f. listed w (srv_hdel list_dict k f)),
      rd_hgetall = (\<lambda>w k. listed w (on_hash list_dict k (\<lambda>h. sret (concat (map (\<lambda>(a, b). [a, b]) (AList.clearjunk h)))))),
      rd_lpush = (\<lambda>w k x. listed w (srv_lpush k x)),
      rd_ltrim = (\<lambda>w k n. listed w (srv_ltrim k n)),
      rd_lrange = (\<lambda>w k. listed w (srv_lrange k)),
      rd_zadd = (\<lambda>w k s m. listed w (srv_zadd list_dict k s m)),
      rd_zrem = (\<lambda>w k m. listed w (srv_zrem list_dict k m)),
      rd_zrange = (\<lambda>w k s. listed w (on_zset list_dict k (\<lambda>z. sret (map fst (filter (\<lambda>(m, x). x \<le> s) (AList.clearjunk z)))))),
      rd_zremrange = (\<lambda>w k s. listed w (srv_zremrange list_dict k s)),
      rd_publish = (\<lambda>w topic x. listed w (srv_publish topic x))\<rparr>"

text \<open>The association lists as maps.\<close>

fun map_value :: "((bytes \<times> bytes) list, (bytes \<times> u64) list) redis_value \<Rightarrow> (bytes \<Rightarrow> bytes option, bytes \<Rightarrow> u64 option) redis_value"
  where
  "map_value (RHash h) = RHash (map_of h)"
| "map_value (RList xs) = RList xs"
| "map_value (RZset z) = RZset (map_of z)"

definition map_keys :: "list_keys \<Rightarrow> key_view" where
  "map_keys st =
     \<lparr>ks_keys = (\<lambda>k. map_option (\<lambda>(v, dl). (map_value v, dl)) (ks_keys st k)), ks_bus = ks_bus st\<rparr>"

section \<open>The server of association lists is documented\<close>

definition unexpired :: "world \<Rightarrow> ('h, 'z) keyspace \<Rightarrow> bool" where
  "unexpired w st \<longleftrightarrow> (\<forall>k v dl. ks_keys st k = Some (v, dl) \<longrightarrow> \<not> expired w dl)"

lemma unexpired_purge: "unexpired w (purge w st)"
  by (auto simp: unexpired_def purge_def split: option.splits if_splits)

lemma purge_unexpired: "unexpired w st \<Longrightarrow> purge w st = st"
  unfolding unexpired_def purge_def
  by (intro keyspace.equality) (auto simp: fun_eq_iff split: option.splits)

text \<open>One command on existing keys.\<close>

definition simulates :: "world \<Rightarrow> (list_keys, 'a) script \<Rightarrow> (key_view, 'a) script \<Rightarrow> bool" where
  "simulates w m d \<longleftrightarrow>
     (\<forall>st. unexpired w st \<longrightarrow> fst (m st) = fst (d (map_keys st)) \<and> map_keys (snd (m st)) = snd (d (map_keys st)) \<and>
        unexpired w (snd (m st)))"

lemma simulates_serves:
  "simulates w m d \<Longrightarrow> serves (\<lambda>st. map_keys (purge w st)) (listed w m) d"
  using purge_unexpired unexpired_purge unfolding simulates_def serves_def listed_def by metis

lemma value_at_map_keys [simp]: "value_at k (map_keys st) = map_option map_value (value_at k st)"
  by (simp add: value_at_def map_keys_def option.map_comp comp_def split_def)

lemma store_map_keys: "map_keys (store_at k v st) = store_at k (map_value v) (map_keys st)"
  by (simp add: map_keys_def store_at_def fun_eq_iff split: option.split)

lemma drop_map_keys: "map_keys (drop_key k st) = drop_key k (map_keys st)"
  by (simp add: map_keys_def drop_key_def fun_eq_iff)

lemma unexpired_store: "unexpired w st \<Longrightarrow> unexpired w (store_at k v st)"
  by (auto simp: unexpired_def store_at_def expired_def split: option.splits if_splits)

lemma unexpired_drop: "unexpired w st \<Longrightarrow> unexpired w (drop_key k st)"
  by (auto simp: unexpired_def drop_key_def)

lemma simulates_sret: "simulates w (sret x) (sret x)"
  by (simp add: simulates_def sret_def)

lemma simulates_store: "map_value v = u \<Longrightarrow>
  simulates w (\<lambda>st. (Some x, store_at k v st)) (\<lambda>st. (Some x, store_at k u st))"
  by (auto simp: simulates_def store_map_keys unexpired_store)

lemma simulates_fail: "simulates w (\<lambda>st. (None, st)) (\<lambda>st. (None, st))"
  by (simp add: simulates_def)

lemma simulates_shrink:
  "null d = null' d' \<Longrightarrow> map_value (mk d) = mk' d' \<Longrightarrow> simulates w (shrink null mk k d) (shrink null' mk' k d')"
  by (auto simp: simulates_def shrink_def store_map_keys drop_map_keys unexpired_store unexpired_drop)

lemma as_hash_map: "as_hash map_dict (map_option map_value v) = map_option map_of (as_hash list_dict v)"
proof (cases v)
  case (Some x)
  then show ?thesis by (cases x) (simp_all add: as_hash_def)
qed (simp add: as_hash_def map_dict_def list_dict_def)

lemma as_list_map: "as_list (map_option map_value v) = as_list v"
proof (cases v)
  case (Some x)
  then show ?thesis by (cases x) (simp_all add: as_list_def)
qed (simp add: as_list_def)

lemma as_zset_map: "as_zset map_dict (map_option map_value v) = map_option map_of (as_zset list_dict v)"
proof (cases v)
  case (Some x)
  then show ?thesis by (cases x) (simp_all add: as_zset_def)
qed (simp add: as_zset_def map_dict_def list_dict_def)

lemma simulates_hash:
  "(\<And>h. simulates w (f h) (g (map_of h))) \<Longrightarrow> simulates w (on_hash list_dict k f) (on_hash map_dict k g)"
  unfolding simulates_def on_hash_def value_at_map_keys as_hash_map
  by (auto split: option.split)

lemma simulates_list:
  "(\<And>xs. simulates w (f xs) (g xs)) \<Longrightarrow> simulates w (on_list k f) (on_list k g)"
  unfolding simulates_def on_list_def value_at_map_keys as_list_map
  by (auto split: option.split)

lemma simulates_zset:
  "(\<And>z. simulates w (f z) (g (map_of z))) \<Longrightarrow> simulates w (on_zset list_dict k f) (on_zset map_dict k g)"
  unfolding simulates_def on_zset_def value_at_map_keys as_zset_map
  by (auto split: option.split)

lemma simulates_expire: "simulates w (srv_expire w k ttl) (srv_expire w k ttl)"
proof -
  have "0 < uint ttl" if "ttl \<noteq> 0"
    using that uint_ge_0 [of ttl] unsigned_eq_0_iff [of ttl] by (metis order_le_imp_less_or_eq)
  then show ?thesis
    by (auto simp: simulates_def srv_expire_def map_keys_def drop_key_def unexpired_def expired_def fun_eq_iff
        split: option.splits if_splits)
qed

lemma map_of_keep:
  "distinct (map fst h) \<Longrightarrow>
   map_of (filter (\<lambda>(k, v). P v) h) = (\<lambda>k. case map_of h k of None \<Rightarrow> None | Some v \<Rightarrow> if P v then Some v else None)"
  by (induction h) (auto simp: fun_eq_iff map_of_eq_None_iff image_iff split: option.splits)

lemma dict_maps:
  "dc_get map_dict (map_of h) f = dc_get list_dict h f"
  "map_of (dc_put list_dict f v h) = dc_put map_dict f v (map_of h)"
  "map_of (dc_del list_dict f h) = dc_del map_dict f (map_of h)"
  "map_of (dc_keep list_dict P h) = dc_keep map_dict P (map_of h)"
  "dc_null list_dict h = dc_null map_dict (map_of h)"
  by (simp_all add: map_dict_def list_dict_def update_conv' delete_conv' map_of_keep distinct_clearjunk
      map_of_clearjunk map_of_eq_empty_iff)

text \<open>The commands that are the same on both sides.\<close>

lemma simulates_commands:
  "simulates w (srv_exists k) (srv_exists k)" "simulates w (srv_del k) (srv_del k)"
  "simulates w (srv_hget list_dict k f) (srv_hget map_dict k f)"
  "simulates w (srv_hset list_dict k f v) (srv_hset map_dict k f v)"
  "simulates w (srv_hincr list_dict k f) (srv_hincr map_dict k f)"
  "simulates w (srv_hdel list_dict k f) (srv_hdel map_dict k f)"
  "simulates w (srv_lpush k v) (srv_lpush k v)" "simulates w (srv_ltrim k n) (srv_ltrim k n)"
  "simulates w (srv_lrange k) (srv_lrange k)"
  "simulates w (srv_zadd list_dict k s f) (srv_zadd map_dict k s f)"
  "simulates w (srv_zrem list_dict k f) (srv_zrem map_dict k f)"
  "simulates w (srv_zremrange list_dict k s) (srv_zremrange map_dict k s)"
  "simulates w (srv_publish k v) (srv_publish k v)"
proof -
  show "simulates w (srv_exists k) (srv_exists k)" "simulates w (srv_del k) (srv_del k)"
    "simulates w (srv_publish k v) (srv_publish k v)"
    by (simp_all add: simulates_def srv_exists_def srv_del_def srv_publish_def drop_map_keys unexpired_drop,
        simp_all add: unexpired_def map_keys_def)
  show "simulates w (srv_hincr list_dict k f) (srv_hincr map_dict k f)"
    unfolding srv_hincr_def
  proof (rule simulates_hash)
    fix h
    show "simulates w
        (\<lambda>st. case (case dc_get list_dict h f of None \<Rightarrow> Some 0 | Some b \<Rightarrow> text_int b) of
           None \<Rightarrow> (None, st)
         | Some n \<Rightarrow> if n + 1 = 2 ^ 63 then (None, st)
             else (Some (n + 1), store_at k (RHash (dc_put list_dict f (int_text (n + 1)) h)) st))
        (\<lambda>st. case (case dc_get map_dict (map_of h) f of None \<Rightarrow> Some 0 | Some b \<Rightarrow> text_int b) of
           None \<Rightarrow> (None, st)
         | Some n \<Rightarrow> if n + 1 = 2 ^ 63 then (None, st)
             else (Some (n + 1), store_at k (RHash (dc_put map_dict f (int_text (n + 1)) (map_of h))) st))"
    proof (cases "case dc_get list_dict h f of None \<Rightarrow> Some 0 | Some b \<Rightarrow> text_int b")
      case (Some n)
      then show ?thesis
        by (cases "n + 1 = 2 ^ 63") (simp_all add: simulates_fail simulates_store dict_maps)
    qed (simp add: simulates_fail dict_maps)
  qed
qed (auto simp: srv_hget_def srv_hset_def srv_hdel_def srv_lpush_def srv_ltrim_def srv_lrange_def srv_zadd_def
    srv_zrem_def srv_zremrange_def dict_maps
    intro!: simulates_hash simulates_list simulates_zset simulates_sret simulates_store simulates_shrink)

lemma purge_map_keys: "purge w (map_keys st) = map_keys (purge w st)"
  by (auto simp: purge_def map_keys_def fun_eq_iff split: option.splits)

lemma purge_later: "wd_now w \<le> wd_now w' \<Longrightarrow> purge w' (purge w st) = purge w' st"
  by (auto simp: purge_def expired_def fun_eq_iff split: option.splits)

lemma list_server_simps:
  "rd_number (list_server link) = int_text"
  "rd_time (list_server link) w = listed w (sret (int_text (wd_now w)))"
  "rd_exists (list_server link) w k = listed w (srv_exists k)"
  "rd_del (list_server link) w k = listed w (srv_del k)"
  "rd_expire (list_server link) w k ttl = listed w (srv_expire w k ttl)"
  "rd_hget (list_server link) w k f = listed w (srv_hget list_dict k f)"
  "rd_hset (list_server link) w k f v = listed w (srv_hset list_dict k f v)"
  "rd_hincr (list_server link) w k f = listed w (srv_hincr list_dict k f)"
  "rd_hdel (list_server link) w k f = listed w (srv_hdel list_dict k f)"
  "rd_lpush (list_server link) w k v = listed w (srv_lpush k v)"
  "rd_ltrim (list_server link) w k n = listed w (srv_ltrim k n)"
  "rd_lrange (list_server link) w k = listed w (srv_lrange k)"
  "rd_zadd (list_server link) w k s f = listed w (srv_zadd list_dict k s f)"
  "rd_zrem (list_server link) w k f = listed w (srv_zrem list_dict k f)"
  "rd_zremrange (list_server link) w k s = listed w (srv_zremrange list_dict k s)"
  "rd_publish (list_server link) w k v = listed w (srv_publish k v)"
  by (simp_all add: list_server_def)

lemma list_server_hgetall:
  "map_keys (purge w (snd (rd_hgetall (list_server link) w k r))) = map_keys (purge w r) \<and>
   (case as_hash map_dict (value_at k (map_keys (purge w r))) of
      None \<Rightarrow> fst (rd_hgetall (list_server link) w k r) = None
    | Some h \<Rightarrow> \<exists>ps. fst (rd_hgetall (list_server link) w k r) = Some (concat (map (\<lambda>(a, b). [a, b]) ps)) \<and>
        hm_wf ps \<and> hm_get ps = h)"
proof (cases "as_hash list_dict (value_at k (purge w r))")
  case (Some h)
  have "hm_wf (AList.clearjunk h)" "hm_get (AList.clearjunk h) = hm_get h"
    by (simp_all add: hm_wf_def distinct_clearjunk map_of_clearjunk)
  with Some show ?thesis
    by (auto simp: list_server_def listed_def as_hash_map on_hash_def sret_def purge_unexpired [OF unexpired_purge])
qed (simp add: list_server_def listed_def as_hash_map on_hash_def purge_unexpired [OF unexpired_purge])

lemma list_server_zrange:
  "map_keys (purge w (snd (rd_zrange (list_server link) w k s r))) = map_keys (purge w r) \<and>
   (case as_zset map_dict (value_at k (map_keys (purge w r))) of
      None \<Rightarrow> fst (rd_zrange (list_server link) w k s r) = None
    | Some z \<Rightarrow> \<exists>ms. fst (rd_zrange (list_server link) w k s r) = Some ms \<and> distinct ms \<and>
        set ms = {m. \<exists>x. z m = Some x \<and> x \<le> s})"
proof (cases "as_zset list_dict (value_at k (purge w r))")
  case (Some z)
  let ?ms = "map fst (filter (\<lambda>(m, x). x \<le> s) (AList.clearjunk z))"
  have wf: "hm_wf (AList.clearjunk z)" by (simp add: hm_wf_def distinct_clearjunk)
  then have 1: "distinct ?ms" by (simp add: hm_wf_def distinct_map_filter)
  have 2: "set ?ms = {m. \<exists>x. hm_get z m = Some x \<and> x \<le> s}"
    by (auto simp: hm_wf_in_set [OF wf] map_of_clearjunk image_iff)
  show ?thesis
    using Some 1 2
    by (auto simp: list_server_def listed_def as_zset_map on_zset_def sret_def purge_unexpired [OF unexpired_purge])
qed (simp add: list_server_def listed_def as_zset_map on_zset_def purge_unexpired [OF unexpired_purge])

lemmas served_commands = simulates_commands [THEN simulates_serves] simulates_expire [THEN simulates_serves]
  simulates_sret [THEN simulates_serves]

text \<open>The laws have an instance.\<close>

lemma list_server_documented: "documented (list_server link) (\<lambda>w st. map_keys (purge w st))"
  unfolding documented_def list_server_simps
  by (intro conjI allI impI served_commands)
    (simp_all only: purge_map_keys purge_later list_server_hgetall [THEN conjunct1] list_server_hgetall [THEN conjunct2]
      list_server_zrange [THEN conjunct1] list_server_zrange [THEN conjunct2])

end
