(* ===== verification/Redis_Contract.thy ===== *)
theory Redis_Contract
  imports Redis_Server Delivery "HOL-Library.Multiset"
begin

text \<open>
  What the Redis engine guarantees on every server that behaves as documented: messages of the bus
  mean the same on another node; the history of a channel stands for the log of its publications
  (an instance of \<open>stream_store\<close>), so that a recovery that says so is complete; the presence of a
  channel. And where it fails: colliding keys, a history that outlives its epoch, a presence
  lifetime below a second.
\<close>

section \<open>Numbers and texts\<close>

lemma digits_snoc:
  "digits_u64 a (bs @ [b]) =
     (case digits_u64 a bs of
        None \<Rightarrow> None
      | Some n \<Rightarrow> if 48 \<le> b \<and> b \<le> 57 then (let m = n * 10 + unat (b - 48) in if m < 2 ^ 64 then Some m else None) else None)"
  by (induction a bs rule: digits_u64.induct) (simp_all add: Let_def)

lemma small_nat: "(d :: nat) < 10 \<Longrightarrow> d = 0 \<or> d = 1 \<or> d = 2 \<or> d = 3 \<or> d = 4 \<or> d = 5 \<or> d = 6 \<or> d = 7 \<or> d = 8 \<or> d = 9"
  by arith

lemma digit_byte:
  assumes "d < 10"
  shows "48 \<le> (of_nat (48 + d) :: u8) \<and> (of_nat (48 + d) :: u8) \<le> 57 \<and> unat ((of_nat (48 + d) :: u8) - 48) = d"
  using small_nat [OF assms] by (elim disjE) simp_all

lemma dec_text_digits:
  "dec_text n \<noteq> [] \<and> (\<forall>b \<in> set (dec_text n). 48 \<le> b \<and> b \<le> 57)"
proof (induction n rule: dec_text.induct)
  case (1 n)
  then show ?case
    using digit_byte [of n] digit_byte [of "n mod 10"] by (subst dec_text.simps, subst (2) dec_text.simps) auto
qed

lemma digits_dec_text: "n < 2 ^ 64 \<Longrightarrow> digits_u64 0 (dec_text n) = Some n"
proof (induction n rule: dec_text.induct)
  case (1 n)
  show ?case
  proof (cases "n < 10")
    case True
    then show ?thesis using digit_byte [of n] by (simp add: dec_text.simps [of n] Let_def)
  next
    case False
    have "n div 10 < 2 ^ 64" using 1(2) by (simp add: less_mult_imp_div_less)
    with 1(1) [OF False] False 1(2) digit_byte [of "n mod 10"] show ?thesis
      by (simp add: dec_text.simps [of n] digits_snoc Let_def del: of_nat_add)
  qed
qed

lemma parse_dec_text: "n < 2 ^ 64 \<Longrightarrow> parse_u64 (dec_text n) = Some (of_nat n)"
  using dec_text_digits [of n] digits_dec_text [of n]
  by (cases "dec_text n") (auto simp: parse_u64_def)

lemma text_int_text:
  assumes "n < 2 ^ 63"
  shows "text_int (int_text (int n)) = Some (int n)"
proof (cases "dec_text n")
  case (Cons b bs)
  then have "b \<noteq> 45" using dec_text_digits [of n] by auto
  with Cons digits_dec_text [of n] assms show ?thesis by (simp add: text_int_def int_text_def)
qed (use dec_text_digits [of n] in simp)

lemma split_mark: "95 \<notin> set a \<Longrightarrow> split_once mark (a @ mark @ b) = Some (a, b)"
  by (induction a) (auto simp: mark_def strip_prefix_def)

lemma extract_marked:
  "95 \<notin> set a \<Longrightarrow> extract_push (mark @ a @ mark @ b) =
     (if a = join_mark then (1, 0, b) else if a = leave_mark then (2, 0, b)
      else (0, case parse_u64 a of Some off \<Rightarrow> off | None \<Rightarrow> 0, b))"
proof -
  assume a: "95 \<notin> set a"
  have "strip_prefix mark (mark @ a @ mark @ b) = Some (a @ mark @ b)" by (simp add: strip_prefix_Some)
  then show ?thesis using split_mark [OF a] by (simp add: extract_push_def)
qed

lemma extract_numbered:
  assumes "n < 2 ^ 63"
  shows "extract_push (mark @ int_text (int n) @ mark @ b) = (0, of_nat n, b)"
proof -
  have "95 \<notin> set (int_text (int n))" "int_text (int n) \<noteq> join_mark" "int_text (int n) \<noteq> leave_mark"
    using dec_text_digits [of n] by (auto simp: int_text_def join_mark_def leave_mark_def)
  with assms show ?thesis by (simp add: extract_marked int_text_def parse_dec_text)
qed

lemma char_byte: "char_of (unat (of_nat (byte_of c) :: u8)) = c"
proof -
  have "byte_of c < 256" by (simp add: byte_of_def)
  then have "unat (of_nat (byte_of c) :: u8) = byte_of c" by (simp add: unat_of_nat take_bit_nat_eq_self)
  then show ?thesis by (simp add: byte_of_def)
qed

lemma bytes_text_bytes: "utf8_text s \<Longrightarrow> bytes_text (text_bytes s) = Some s"
  by (simp add: bytes_text_def text_bytes_def comp_def char_byte)

lemma text_bytes_inj: "text_bytes s = text_bytes t \<longleftrightarrow> s = t"
proof
  assume "text_bytes s = text_bytes t"
  then have "map (\<lambda>b. char_of (unat b)) (text_bytes s) = map (\<lambda>b. char_of (unat b)) (text_bytes t)" by simp
  then show "s = t" by (simp add: text_bytes_def comp_def char_byte)
qed simp

section \<open>Running scripts\<close>

text \<open>A script one command at a time, and what the commands do to the values of keys.\<close>

lemma sbind_step:
  "sbind m f r = (case fst (m r) of None \<Rightarrow> (None, snd (m r)) | Some x \<Rightarrow> f x (snd (m r)))"
  by (simp add: sbind_def split_def split: option.split)

lemma value_at_simps [simp]:
  "value_at k (store_at k' v st) = (if k = k' then Some v else value_at k st)"
  "value_at k (drop_key k' st) = (if k = k' then None else value_at k st)"
  "value_at k (st\<lparr>ks_bus := b\<rparr>) = value_at k st"
  "ks_bus (store_at k' v st) = ks_bus st" "ks_bus (drop_key k' st) = ks_bus st"
  by (simp_all add: value_at_def store_at_def drop_key_def)

lemma srv_expire_values:
  assumes "lifetime_fits w ttl"
  shows "fst (srv_expire w k ttl st) = Some ()"
    "value_at j (snd (srv_expire w k ttl st)) = (if j = k \<and> ttl = 0 then None else value_at j st)"
    "ks_bus (snd (srv_expire w k ttl st)) = ks_bus st"
  using assms
  by (auto simp: srv_expire_def value_at_def drop_key_def split: option.splits)

lemma map_dict_simps [simp]:
  "dc_empty map_dict = Map.empty" "dc_null map_dict m \<longleftrightarrow> m = Map.empty" "dc_get map_dict m j = m j"
  "dc_put map_dict j v m = m(j \<mapsto> v)" "dc_del map_dict j m = m(j := None)"
  by (simp_all add: map_dict_def)

lemma documented_served:
  assumes "documented R view"
  shows "serves (view w) (rd_time R w) (sret (int_text (wd_now w)))"
    "serves (view w) (rd_exists R w k) (srv_exists k)" "serves (view w) (rd_del R w k) (srv_del k)"
    "serves (view w) (rd_expire R w k ttl) (srv_expire w k ttl)"
    "serves (view w) (rd_hget R w k f) (srv_hget map_dict k f)"
    "serves (view w) (rd_hset R w k f v) (srv_hset map_dict k f v)"
    "serves (view w) (rd_hincr R w k f) (srv_hincr map_dict k f)"
    "serves (view w) (rd_hdel R w k f) (srv_hdel map_dict k f)"
    "serves (view w) (rd_lpush R w k x) (srv_lpush k x)" "serves (view w) (rd_ltrim R w k n) (srv_ltrim k n)"
    "serves (view w) (rd_lrange R w k) (srv_lrange k)" "serves (view w) (rd_zrem R w k f) (srv_zrem map_dict k f)"
    "serves (view w) (rd_publish R w k x) (srv_publish k x)"
    "s < 2 ^ 53 \<Longrightarrow> serves (view w) (rd_zadd R w k s f) (srv_zadd map_dict k s f)"
    "s < 2 ^ 53 \<Longrightarrow> serves (view w) (rd_zremrange R w k s) (srv_zremrange map_dict k s)"
  using assms unfolding documented_def by blast+

lemma documented_steps:
  assumes "documented R view"
  shows
    "fst (rd_time R w r) = fst (sret (int_text (wd_now w)) (view w r))" "view w (snd (rd_time R w r)) = snd (sret (int_text (wd_now w)) (view w r))"
    "fst (rd_exists R w k r) = fst (srv_exists k (view w r))" "view w (snd (rd_exists R w k r)) = snd (srv_exists k (view w r))"
    "fst (rd_del R w k r) = fst (srv_del k (view w r))" "view w (snd (rd_del R w k r)) = snd (srv_del k (view w r))"
    "fst (rd_expire R w k ttl r) = fst (srv_expire w k ttl (view w r))" "view w (snd (rd_expire R w k ttl r)) = snd (srv_expire w k ttl (view w r))"
    "fst (rd_hget R w k f r) = fst (srv_hget map_dict k f (view w r))" "view w (snd (rd_hget R w k f r)) = snd (srv_hget map_dict k f (view w r))"
    "fst (rd_hset R w k f v r) = fst (srv_hset map_dict k f v (view w r))" "view w (snd (rd_hset R w k f v r)) = snd (srv_hset map_dict k f v (view w r))"
    "fst (rd_hincr R w k f r) = fst (srv_hincr map_dict k f (view w r))" "view w (snd (rd_hincr R w k f r)) = snd (srv_hincr map_dict k f (view w r))"
    "fst (rd_hdel R w k f r) = fst (srv_hdel map_dict k f (view w r))" "view w (snd (rd_hdel R w k f r)) = snd (srv_hdel map_dict k f (view w r))"
    "fst (rd_lpush R w k x r) = fst (srv_lpush k x (view w r))" "view w (snd (rd_lpush R w k x r)) = snd (srv_lpush k x (view w r))"
    "fst (rd_ltrim R w k n r) = fst (srv_ltrim k n (view w r))" "view w (snd (rd_ltrim R w k n r)) = snd (srv_ltrim k n (view w r))"
    "fst (rd_lrange R w k r) = fst (srv_lrange k (view w r))" "view w (snd (rd_lrange R w k r)) = snd (srv_lrange k (view w r))"
    "fst (rd_zrem R w k f r) = fst (srv_zrem map_dict k f (view w r))" "view w (snd (rd_zrem R w k f r)) = snd (srv_zrem map_dict k f (view w r))"
    "fst (rd_publish R w k x r) = fst (srv_publish k x (view w r))" "view w (snd (rd_publish R w k x r)) = snd (srv_publish k x (view w r))"
    "s < 2 ^ 53 \<Longrightarrow> fst (rd_zadd R w k s f r) = fst (srv_zadd map_dict k s f (view w r))"
    "s < 2 ^ 53 \<Longrightarrow> view w (snd (rd_zadd R w k s f r)) = snd (srv_zadd map_dict k s f (view w r))"
    "s < 2 ^ 53 \<Longrightarrow> fst (rd_zremrange R w k s r) = fst (srv_zremrange map_dict k s (view w r))"
    "s < 2 ^ 53 \<Longrightarrow> view w (snd (rd_zremrange R w k s r)) = snd (srv_zremrange map_dict k s (view w r))"
  by (simp_all add: documented_served [OF assms, unfolded serves_def])

section \<open>History scripts\<close>

text \<open>
  The meta key of a channel with \<open>n\<close> publications in the epoch \<open>ep\<close>; \<open>meta_ready\<close> also covers a
  channel without one, whose epoch will be the time of its first use.
\<close>

definition meta_holds :: "string \<Rightarrow> string \<Rightarrow> nat \<Rightarrow> key_view \<Rightarrow> bool" where
  "meta_holds k ep n st \<longleftrightarrow>
     (\<exists>h. value_at k st = Some (RHash h) \<and> h epoch_field = Some (text_bytes ep) \<and>
        h offset_field = (if n = 0 then None else Some (int_text (int n))))"

definition meta_ready :: "world \<Rightarrow> string \<Rightarrow> string \<Rightarrow> nat \<Rightarrow> key_view \<Rightarrow> bool" where
  "meta_ready w k ep n st \<longleftrightarrow>
     meta_holds k ep n st \<or> value_at k st = None \<and> n = 0 \<and> text_bytes ep = int_text (wd_now w)"

lemma fields_differ [simp]: "epoch_field \<noteq> offset_field" "offset_field \<noteq> epoch_field"
  by (simp_all add: epoch_field_def offset_field_def)

lemma lua_epoch_run:
  assumes D: "documented R view" and "meta_ready w m ep n (view w r)"
  shows "fst (lua_epoch R w m r) = Some (text_bytes ep)"
    "meta_holds m ep n (view w (snd (lua_epoch R w m r)))"
    "j \<noteq> m \<Longrightarrow> value_at j (view w (snd (lua_epoch R w m r))) = value_at j (view w r)"
    "ks_bus (view w (snd (lua_epoch R w m r))) = ks_bus (view w r)"
proof -
  note steps = documented_steps [OF D] sbind_step lua_epoch_def srv_exists_def srv_hget_def srv_hset_def
    on_hash_def as_hash_def sret_def
  have "fst (lua_epoch R w m r) = Some (text_bytes ep) \<and> meta_holds m ep n (view w (snd (lua_epoch R w m r))) \<and>
      (\<forall>j. j \<noteq> m \<longrightarrow> value_at j (view w (snd (lua_epoch R w m r))) = value_at j (view w r)) \<and>
      ks_bus (view w (snd (lua_epoch R w m r))) = ks_bus (view w r)"
    using assms(2) unfolding meta_ready_def
  proof
    assume "meta_holds m ep n (view w r)"
    then show ?thesis by (auto simp: meta_holds_def steps)
  next
    assume "value_at m (view w r) = None \<and> n = 0 \<and> text_bytes ep = int_text (wd_now w)"
    then show ?thesis by (auto simp: meta_holds_def steps)
  qed
  then show "fst (lua_epoch R w m r) = Some (text_bytes ep)"
    "meta_holds m ep n (view w (snd (lua_epoch R w m r)))"
    "j \<noteq> m \<Longrightarrow> value_at j (view w (snd (lua_epoch R w m r))) = value_at j (view w r)"
    "ks_bus (view w (snd (lua_epoch R w m r))) = ks_bus (view w r)"
    by simp_all
qed

lemma lua_unless_simps: "lua_unless True m = sret ()" "lua_unless False m = m"
  by (simp_all add: lua_unless_def)

text \<open>The optional lifetime of the meta key.\<close>

lemma meta_expire_run:
  assumes "documented R view" "lifetime_fits w ttl \<or> ttl = 0"
  shows "fst (lua_unless (ttl = 0) (rd_expire R w k ttl) r) = Some ()"
    "value_at j (view w (snd (lua_unless (ttl = 0) (rd_expire R w k ttl) r))) = value_at j (view w r)"
    "ks_bus (view w (snd (lua_unless (ttl = 0) (rd_expire R w k ttl) r))) = ks_bus (view w r)"
  using assms by (auto simp: lua_unless_def sret_def documented_steps srv_expire_values)

lemma meta_holds_value: "value_at k st' = value_at k st \<Longrightarrow> meta_holds k ep n st' = meta_holds k ep n st"
  by (simp add: meta_holds_def)

lemma history_script_run:
  assumes D: "documented R view" and M: "meta_ready w m ep n (view w r)"
    and l: "m \<noteq> l" "as_list (value_at l (view w r)) = Some fs" and T: "lifetime_fits w ttl \<or> ttl = 0"
  shows "fst (history_script R w l m ttl r) = Some (if n = 0 then None else Some (int_text (int n)), text_bytes ep, fs)"
    "meta_holds m ep n (view w (snd (history_script R w l m ttl r)))"
    "value_at l (view w (snd (history_script R w l m ttl r))) = value_at l (view w r)"
    "ks_bus (view w (snd (history_script R w l m ttl r))) = ks_bus (view w r)"
proof -
  let ?r1 = "snd (rd_hget R w m offset_field r)"
  let ?r2 = "snd (lua_epoch R w m ?r1)"
  let ?r3 = "snd (lua_unless (ttl = 0) (rd_expire R w m ttl) ?r2)"
  have v1: "view w ?r1 = view w r"
    by (simp add: documented_steps [OF D] srv_hget_def on_hash_def sret_def split: option.split)
  have f1: "fst (rd_hget R w m offset_field r) = Some (if n = 0 then None else Some (int_text (int n)))"
    using M by (auto simp: documented_steps [OF D] srv_hget_def on_hash_def as_hash_def sret_def meta_ready_def
        meta_holds_def)
  have M1: "meta_ready w m ep n (view w ?r1)" using M v1 by simp
  note e = lua_epoch_run [OF D M1] and x = meta_expire_run [OF D T]
  have l3: "value_at l (view w ?r3) = value_at l (view w r)" using e(3) [of l] l(1) v1 by (simp add: x)
  have m3: "meta_holds m ep n (view w ?r3)" using e(2) by (simp add: meta_holds_value [OF x(2)])
  have b3: "ks_bus (view w ?r3) = ks_bus (view w r)" by (simp add: x e v1)
  have v4: "fst (rd_lrange R w l ?r3) = Some fs" "view w (snd (rd_lrange R w l ?r3)) = view w ?r3"
    using l(2) l3 by (simp_all add: documented_steps [OF D] srv_lrange_def on_list_def sret_def)
  have run: "history_script R w l m ttl r =
      (Some (if n = 0 then None else Some (int_text (int n)), text_bytes ep, fs), snd (rd_lrange R w l ?r3))"
    by (simp add: history_script_def sbind_step f1 e(1) x(1) v4(1) sret_def)
  show "fst (history_script R w l m ttl r) = Some (if n = 0 then None else Some (int_text (int n)), text_bytes ep, fs)"
    "meta_holds m ep n (view w (snd (history_script R w l m ttl r)))"
    "value_at l (view w (snd (history_script R w l m ttl r))) = value_at l (view w r)"
    "ks_bus (view w (snd (history_script R w l m ttl r))) = ks_bus (view w r)"
    using l3 m3 b3 by (simp_all add: run v4(2))
qed

lemma hincr_run:
  assumes D: "documented R view" and M: "meta_holds m ep n (view w r)" and n: "n + 1 < 2 ^ 63"
  shows "fst (rd_hincr R w m offset_field r) = Some (int (n + 1))"
    "meta_holds m ep (n + 1) (view w (snd (rd_hincr R w m offset_field r)))"
    "j \<noteq> m \<Longrightarrow> value_at j (view w (snd (rd_hincr R w m offset_field r))) = value_at j (view w r)"
    "ks_bus (view w (snd (rd_hincr R w m offset_field r))) = ks_bus (view w r)"
  using M n text_int_text [of n]
  by (auto simp: documented_steps [OF D] srv_hincr_def on_hash_def as_hash_def meta_holds_def
      add.commute [of "int n" 1])

lemma add_history_run:
  fixes msg :: bytes and bound :: nat
  assumes D: "documented R view" and M: "meta_ready w m ep n (view w r)" and n: "n + 1 < 10 ^ 14"
    and l: "m \<noteq> l" "as_list (value_at l (view w r)) = Some fs"
    and T: "lifetime_fits w mttl \<or> mttl = 0" "lifetime_fits w lttl" "lttl \<noteq> 0" and t: "topic \<noteq> []"
  defines "out \<equiv> add_history R w l m msg bound lttl topic mttl r"
    and "f \<equiv> mark @ int_text (int (n + 1)) @ mark @ msg"
  shows "fst out = Some (int (n + 1), text_bytes ep)" "meta_holds m ep (n + 1) (view w (snd out))"
    "value_at l (view w (snd out)) = Some (RList (take (Suc bound) (f # fs)))"
    "ks_bus (view w (snd out)) = ks_bus (view w r) @ [(topic, f)]"
proof -
  let ?r1 = "snd (lua_epoch R w m r)"
  let ?r2 = "snd (rd_hincr R w m offset_field ?r1)"
  let ?r3 = "snd (lua_unless (mttl = 0) (rd_expire R w m mttl) ?r2)"
  let ?r4 = "snd (rd_lpush R w l f ?r3)"
  let ?r5 = "snd (rd_ltrim R w l bound ?r4)"
  let ?r6 = "snd (rd_expire R w l lttl ?r5)"
  note e = lua_epoch_run [OF D M] and x = meta_expire_run [OF D T(1)]
  have n63: "n + 1 < 2 ^ 63" using n by simp
  note h = hincr_run [OF D e(2) n63]
  have l3: "value_at l (view w ?r3) = value_at l (view w r)"
    using e(3) [of l] h(3) [of l] l(1) by (simp add: x)
  have m3: "meta_holds m ep (n + 1) (view w ?r3)" using h(2) by (simp add: meta_holds_value [OF x(2)])
  have b3: "ks_bus (view w ?r3) = ks_bus (view w r)" by (simp add: x h e)
  have p: "history_payload R (int (n + 1)) msg = f"
  proof -
    have "0 \<le> int (n + 1) \<and> int (n + 1) < 10 ^ 14" using n by simp
    then have "rd_number R (int (n + 1)) = int_text (int (n + 1))" using D unfolding documented_def by blast
    then show ?thesis by (simp add: history_payload_def f_def)
  qed
  have 4: "fst (rd_lpush R w l f ?r3) = Some ()" "view w ?r4 = store_at l (RList (f # fs)) (view w ?r3)"
    using l(2) l3 by (simp_all add: documented_steps [OF D] srv_lpush_def on_list_def)
  have 5: "fst (rd_ltrim R w l bound ?r4) = Some ()"
    "view w ?r5 = store_at l (RList (take (Suc bound) (f # fs))) (view w ?r4)"
    by (simp_all only: documented_steps(19) [OF D, of w l bound ?r4] documented_steps(20) [OF D, of w l bound ?r4] 4(2))
      (simp_all add: srv_ltrim_def on_list_def as_list_def shrink_def)
  have 6: "fst (rd_expire R w l lttl ?r5) = Some ()" "value_at j (view w ?r6) = value_at j (view w ?r5)"
    "ks_bus (view w ?r6) = ks_bus (view w ?r5)" for j
    using srv_expire_values [OF T(2)] T(3) by (simp_all add: documented_steps [OF D])
  have 7: "fst (rd_publish R w topic f ?r6) = Some ()" by (simp add: documented_steps [OF D] srv_publish_def)
  have run: "out = (Some (int (n + 1), text_bytes ep), snd (rd_publish R w topic f ?r6))"
    using t by (simp add: out_def add_history_def sbind_step e(1) h(1) [simplified] x(1) p [simplified] Let_def 4(1) 5(1)
        6(1) 7 sret_def lua_unless_simps)
  have v7: "view w (snd out) = (view w ?r6)\<lparr>ks_bus := ks_bus (view w ?r6) @ [(topic, f)]\<rparr>"
    by (simp add: run documented_steps [OF D] srv_publish_def)
  have val: "value_at j (view w (snd out)) = (if j = l then Some (RList (take (Suc bound) (f # fs))) else value_at j (view w ?r3))"
    for j by (simp add: v7 6 5(2) 4(2) del: take_Suc_Cons)
  show "fst out = Some (int (n + 1), text_bytes ep)" by (simp add: run)
  show "meta_holds m ep (n + 1) (view w (snd out))"
    using m3 meta_holds_value [of m "view w (snd out)" "view w ?r3" ep "n + 1"] l(1) val [of m] by simp
  show "value_at l (view w (snd out)) = Some (RList (take (Suc bound) (f # fs)))" by (simp add: val)
  show "ks_bus (view w (snd out)) = ks_bus (view w r) @ [(topic, f)]" by (simp add: v7 6 5(2) 4(2) b3)
qed

section \<open>The log of a channel\<close>

text \<open>
  \<open>frames_hold\<close>: the answer of the history script stands for the log \<open>L\<close>; the list holds the
  newest frame first.
\<close>

definition frames_hold :: "redis_pb \<Rightarrow> publication list \<Rightarrow> string \<Rightarrow> u64 option \<times> string \<times> bytes list \<Rightarrow> bool" where
  "frames_hold Q L ep a \<longleftrightarrow>
     (case a of (off, e, fs) \<Rightarrow>
        numbered L \<and> e = ep \<and> off = (if L = [] then None else Some (of_nat (length L))) \<and> length fs \<le> length L \<and>
        map (stored_publication Q) fs = map Some (rev (drop (length L - length fs) L)))"

definition frames_kept :: "u64 option \<times> string \<times> bytes list \<Rightarrow> nat" where
  "frames_kept a = length (snd (snd a))"

lemma map_filter_all: "map f xs = map Some ys \<Longrightarrow> List.map_filter f xs = ys"
proof (induction xs arbitrary: ys)
  case (Cons x xs)
  then show ?case by (cases ys) (simp_all add: List.map_filter_simps)
qed (simp add: List.map_filter_simps)

lemma numbered_nth:
  assumes "numbered L" "i < length L"
  shows "unat (pub_offset (L ! i)) = i + 1"
  using assms by (simp add: numbered_def unat_of_nat take_bit_nat_eq_self del: of_nat_Suc of_nat_add)

lemma numbered_sorted:
  assumes "numbered L"
  shows "sorted (map pub_offset L)" "distinct (map pub_offset L)"
proof -
  show "sorted (map pub_offset L)"
    using numbered_nth [OF assms] by (auto simp: sorted_iff_nth_mono word_le_nat_alt)
  show "distinct (map pub_offset L)"
    unfolding distinct_conv_nth
  proof (intro allI impI)
    fix i j
    assume "i < length (map pub_offset L)" "j < length (map pub_offset L)" "i \<noteq> j"
    then show "map pub_offset L ! i \<noteq> map pub_offset L ! j"
      using numbered_nth [OF assms, of i] numbered_nth [OF assms, of j] by auto
  qed
qed

lemma sort_log:
  assumes "numbered L"
  shows "sort_key pub_offset (rev (drop k L)) = drop k L"
proof (rule sort_key_inj_key_eq)
  have d: "distinct (map pub_offset (drop k L))" using numbered_sorted(2) [OF assms] by (simp add: drop_map [symmetric])
  then show "inj_on pub_offset (set (rev (drop k L)))" by (simp add: distinct_map)
  show "sorted (map pub_offset (drop k L))"
    using numbered_sorted(1) [OF assms] by (simp add: drop_map [symmetric] sorted_wrt_drop)
qed simp

lemma read_answer_log:
  assumes "frames_hold Q L ep a"
  shows "read_answer Q a =
    (drop (length L - frames_kept a) L, \<lparr>sp_offset = of_nat (length L), sp_epoch = ep\<rparr>)"
proof -
  obtain off e fs where a: "a = (off, e, fs)" by (cases a)
  with assms have "List.map_filter (stored_publication Q) fs = rev (drop (length L - length fs) L)"
    by (intro map_filter_all) (simp add: frames_hold_def)
  with assms a sort_log [of L "length L - length fs"] show ?thesis
    by (simp add: read_answer_def frames_hold_def frames_kept_def)
qed

interpretation redis_log: stream_store "frames_hold Q" frames_kept "\<lambda>a. result_since (read_answer Q a)" for Q
proof unfold_locales
  fix L ep a n e
  assume h: "frames_hold Q L ep a"
  show num: "numbered L" using h by (auto simp: frames_hold_def)
  show "frames_kept a \<le> length L" using h by (auto simp: frames_hold_def frames_kept_def)
  show "snd (result_since (read_answer Q a) n e) = \<lparr>sp_offset = of_nat (length L), sp_epoch = ep\<rparr>"
    by (simp add: read_answer_log [OF h] result_since_def)
  show "fst (result_since (read_answer Q a) n e) =
      filter (\<lambda>p. n < pub_offset p) (drop (length L - frames_kept a) L)"
    using numbered_suffix_empty [OF num, of "length L - frames_kept a"]
    by (auto simp: read_answer_log [OF h] result_since_def)
qed

text \<open>The state of a channel: its meta key and its list stand for \<open>L\<close> in the epoch \<open>ep\<close>.\<close>

definition chan_frames :: "redis_config \<Rightarrow> string \<Rightarrow> key_view \<Rightarrow> bytes list" where
  "chan_frames C ch st = (case as_list (value_at (list_key C ch) st) of Some fs \<Rightarrow> fs | None \<Rightarrow> [])"

definition chan_holds ::
    "redis_pb \<Rightarrow> redis_config \<Rightarrow> world \<Rightarrow> string \<Rightarrow> publication list \<Rightarrow> string \<Rightarrow> key_view \<Rightarrow> bool" where
  "chan_holds Q C w ch L ep st \<longleftrightarrow>
     meta_ready w (meta_key C ch) ep (length L) st \<and> as_list (value_at (list_key C ch) st) \<noteq> None \<and>
     utf8_text ep \<and> length L < 10 ^ 14 \<and>
     frames_hold Q L ep
       (if L = [] then None else Some (of_nat (length L)), ep, chan_frames C ch st)"

lemma keys_differ [simp]: "meta_key C ch \<noteq> list_key C ch" "list_key C ch \<noteq> meta_key C ch"
proof -
  have "length (meta_key C ch) \<noteq> length (list_key C ch)" by (simp add: meta_key_def list_key_def)
  then show "meta_key C ch \<noteq> list_key C ch" "list_key C ch \<noteq> meta_key C ch" by auto
qed

lemma topics: "client_key C ch \<noteq> []" "client_key C ch \<noteq> control_topic C"
  "strip_prefix (rcf_prefix C @ ''.client.'') (client_key C ch) = Some ch"
  by (simp_all add: client_key_def control_topic_def strip_prefix_Some)

lemma from_to_pb_info: "from_pb_info (to_pb_info ci) = client_info_norm ci"
  by (cases "ci_conn_info ci"; cases "ci_chan_info ci")
    (auto simp: from_pb_info_def to_pb_info_def client_info_norm_def norm_raw_def Let_def)

lemma read_live:
  "read_publication off (live_message data info) =
     history_publication data (map_option client_info_norm info) off"
  by (simp add: read_publication_def live_message_def history_publication_def option.map_comp comp_def from_to_pb_info)

text \<open>A history read, up to the conversion of its answer.\<close>

lemma redis_history_since_run:
  assumes D: "documented R view" and up: "rd_link R w r = Up"
    and H: "chan_holds Q C w ch L ep (view w r)"
    and T: "lifetime_fits w (rcf_meta_ttl C) \<or> rcf_meta_ttl C = 0"
  shows "\<exists>r'. redis_history_since R Q C w ch n e r =
      (Some (result_since (read_answer Q
         (if L = [] then None else Some (of_nat (length L)), ep, chan_frames C ch (view w r))) n e), r') \<and>
    chan_holds Q C w ch L ep (view w r') \<and> chan_frames C ch (view w r') = chan_frames C ch (view w r) \<and>
    ks_bus (view w r') = ks_bus (view w r)"
proof -
  let ?out = "history_script R w (list_key C ch) (meta_key C ch) (rcf_meta_ttl C) r"
  have h: "meta_ready w (meta_key C ch) ep (length L) (view w r)"
    "as_list (value_at (list_key C ch) (view w r)) = Some (chan_frames C ch (view w r))"
    "utf8_text ep" "length L < 10 ^ 14"
    using H by (auto simp: chan_holds_def chan_frames_def)
  note run = history_script_run [OF D h(1) keys_differ(1) h(2) T]
  have ans: "history_answer (if length L = 0 then None else Some (int_text (int (length L))), text_bytes ep, chan_frames C ch (view w r)) =
      Some (if L = [] then None else Some (of_nat (length L)), ep, chan_frames C ch (view w r))"
    using h(3,4) parse_dec_text [of "length L"]
    by (simp add: history_answer_def bytes_text_bytes int_text_def)
  have out: "redis_history_since R Q C w ch n e r =
      (Some (result_since (read_answer Q
         (if L = [] then None else Some (of_nat (length L)), ep, chan_frames C ch (view w r))) n e), snd ?out)"
    by (simp add: redis_history_since_def read_history_def sbind_step invoke_def up run(1) ans sret_def
        del: length_0_conv)
  have fr: "chan_frames C ch (view w (snd ?out)) = chan_frames C ch (view w r)"
    by (simp add: chan_frames_def run(3))
  have "chan_holds Q C w ch L ep (view w (snd ?out))"
    using H run(2) by (simp add: chan_holds_def meta_ready_def run(3) fr)
  with out fr run(4) show ?thesis by blast
qed

section \<open>Samples for the witnesses\<close>

text \<open>Publications written as their data, one client info, one command.\<close>

definition sample_ci :: client_info where
  "sample_ci = \<lparr>ci_user = ''u'', ci_client = ''c'', ci_conn_info = Some [1], ci_chan_info = None\<rparr>"

definition sample_unsub :: control_unsubscribe where
  "sample_unsub = \<lparr>cu_channel = ''a'', cu_user = ''u''\<rparr>"

definition sample_pb :: redis_pb where
  "sample_pb =
     \<lparr>rp_pub_enc = pbpub_data, rp_pub_dec = (\<lambda>b. Some (live_message b None)),
      rp_info_enc = (\<lambda>i. [2]), rp_info_dec = (\<lambda>b. Some (to_pb_info sample_ci)),
      rp_cmd_enc = (\<lambda>c. [3]), rp_cmd_dec = (\<lambda>b. Some \<lparr>cc_uid = ''n1'', cc_method = 1, cc_params = [4]\<rparr>),
      rp_node_enc = (\<lambda>x. [5]), rp_node_dec = (\<lambda>b. None),
      rp_unsub_enc = (\<lambda>x. [4]), rp_unsub_dec = (\<lambda>b. Some sample_unsub),
      rp_disc_enc = (\<lambda>x. [6]), rp_disc_dec = (\<lambda>b. None)\<rparr>"

definition sample_redis :: "list_keys redis" where "sample_redis = list_server (\<lambda>w st. Up)"

definition sample_view :: "world \<Rightarrow> list_keys \<Rightarrow> key_view" where "sample_view w st = map_keys (purge w st)"

definition sample_rconf :: redis_config where
  "sample_rconf = \<lparr>rcf_uid = ''n1'', rcf_prefix = ''p'', rcf_meta_ttl = 0\<rparr>"

definition no_keys :: list_keys where "no_keys = \<lparr>ks_keys = Map.empty, ks_bus = []\<rparr>"

text \<open>The channel \<open>a\<close> with one publication, made at the time of \<open>sample_world\<close>.\<close>

definition sample_frame :: bytes where "sample_frame = mark @ [49] @ mark @ [7]"

definition sample_list :: list_keys where
  "sample_list = no_keys\<lparr>ks_keys := [''p.list.a'' \<mapsto> (RList [sample_frame], Some 1060)]\<rparr>"

definition sample_keys :: list_keys where
  "sample_keys = sample_list\<lparr>ks_keys := (ks_keys sample_list)
     (''p.list.meta.a'' \<mapsto> (RHash [(epoch_field, text_bytes ''1000''), (offset_field, [49])], None))\<rparr>"

definition sample_publish :: publish_options where
  "sample_publish = \<lparr>po_history_size = 10, po_history_lifetime = 60\<rparr>"

lemma sample_documented: "documented sample_redis sample_view"
  unfolding sample_redis_def sample_view_def [abs_def] by (rule list_server_documented)

lemma sample_pb_simps [simp]:
  "rp_pub_dec sample_pb b = Some (live_message b None)" "live_payload sample_pb d i = d"
  "rp_info_enc sample_pb j = [2]" "rp_info_dec sample_pb b = Some (to_pb_info sample_ci)"
  by (simp_all add: sample_pb_def live_payload_def live_message_def)

lemma sample_conf_simps [simp]:
  "rcf_uid sample_rconf = ''n1''" "rcf_prefix sample_rconf = ''p''" "rcf_meta_ttl sample_rconf = 0"
  "rd_link sample_redis w st = Up"
  by (simp_all add: sample_rconf_def sample_redis_def list_server_def)

lemma sample_view_simps [simp]:
  "value_at k (sample_view w st) =
     (case ks_keys st k of None \<Rightarrow> None | Some (v, dl) \<Rightarrow> if expired w dl then None else Some (map_value v))"
  "ks_bus (sample_view w st) = ks_bus st"
  by (auto simp: value_at_def sample_view_def map_keys_def purge_def split: option.splits)

lemma sample_keys_simps [simp]:
  "ks_keys no_keys k = None" "ks_bus no_keys = []" "ks_bus sample_list = []" "ks_bus sample_keys = []"
  "ks_keys sample_list k = (if k = ''p.list.a'' then Some (RList [sample_frame], Some 1060) else None)"
  "ks_keys sample_keys k =
     (if k = ''p.list.meta.a'' then Some (RHash [(epoch_field, text_bytes ''1000''), (offset_field, [49])], None)
      else ks_keys sample_list k)"
  by (simp_all add: no_keys_def sample_list_def sample_keys_def)

lemma sample_texts: "utf8_text ''1000''" "text_bytes ''1000'' = int_text (wd_now sample_world)" "int_text 1 = [49]"
  by code_simp+

lemma sample_frame_stored: "stored_publication sample_pb sample_frame = Some (history_publication [7] None 1)"
proof -
  have "extract_push sample_frame = (0, of_nat 1, [7])"
    using extract_numbered [of 1 "[7]"] sample_texts(3) by (simp add: sample_frame_def)
  then show ?thesis by (simp add: stored_publication_def read_live)
qed

lemma one_numbered: "pub_offset p = 1 \<Longrightarrow> numbered [p]"
  by (simp add: numbered_def)

lemma sample_none_holds: "chan_holds sample_pb sample_rconf sample_world ''a'' [] ''1000'' (sample_view sample_world no_keys)"
  using sample_texts by (simp add: chan_holds_def meta_ready_def frames_hold_def chan_frames_def as_list_def numbered_def)

lemma sample_holds:
  "chan_holds sample_pb sample_rconf sample_world ''a'' [history_publication [7] None 1] ''1000''
     (sample_view sample_world sample_keys)"
  "chan_frames sample_rconf ''a'' (sample_view sample_world sample_keys) = [sample_frame]"
proof -
  have k: "meta_key sample_rconf ''a'' = ''p.list.meta.a''" "list_key sample_rconf ''a'' = ''p.list.a''"
    by (simp_all add: meta_key_def list_key_def)
  show fr: "chan_frames sample_rconf ''a'' (sample_view sample_world sample_keys) = [sample_frame]"
    by (simp add: chan_frames_def k as_list_def expired_def)
  have "meta_holds ''p.list.meta.a'' ''1000'' 1 (sample_view sample_world sample_keys)"
    using sample_texts(3) by (simp add: meta_holds_def expired_def)
  then show "chan_holds sample_pb sample_rconf sample_world ''a'' [history_publication [7] None 1] ''1000''
      (sample_view sample_world sample_keys)"
    unfolding chan_holds_def fr
    using sample_texts(1) one_numbered [of "history_publication [7] None 1"] sample_frame_stored
    by (simp add: k meta_ready_def as_list_def expired_def frames_hold_def history_publication_def)
qed

section \<open>Publications and recovery\<close>

lemma frames_push:
  assumes H: "frames_hold Q L ep (off, ep, fs)" and f: "stored_publication Q f = Some p"
    and p: "pub_offset p = of_nat (length L + 1)" "length L + 1 < 2 ^ 64"
  shows "frames_hold Q (L @ [p]) ep (Some (of_nat (length L + 1)), ep, take s (f # fs))"
proof -
  let ?k = "length L - length fs"
  have h: "numbered L" "length fs \<le> length L" "map (stored_publication Q) fs = map Some (rev (drop ?k L))"
    using H by (simp_all add: frames_hold_def)
  have all: "map (stored_publication Q) (f # fs) = map Some (rev (drop ?k (L @ [p])))"
    using f h(3) by simp
  have len: "length (take s (f # fs)) = min s (Suc (length fs))" by simp
  have "length L + 1 - min s (Suc (length fs)) = (Suc (length fs) - s) + ?k" using h(2) by (simp add: min_def)
  moreover have "take s (rev (drop ?k (L @ [p]))) = rev (drop ((Suc (length fs) - s) + ?k) (L @ [p]))"
    using h(2) by (simp only: take_rev drop_drop length_drop) (simp add: Suc_diff_le)
  moreover have map_take: "map (stored_publication Q) (take s (f # fs)) = map Some (take s (rev (drop ?k (L @ [p]))))"
    by (simp only: take_map [symmetric] all)
  ultimately have "map (stored_publication Q) (take s (f # fs)) =
      map Some (rev (drop (length (L @ [p]) - length (take s (f # fs))) (L @ [p])))"
    unfolding map_take len by simp
  then show ?thesis
    using numbered_append [OF h(1) p(2) p(1)] h(2) unfolding frames_hold_def len by (simp add: min.commute)
qed

lemma dispatch_publication:
  assumes "rcf_prefix C' = rcf_prefix C" "extract_push f = (0, off, body)" "rp_pub_dec Q body = Some m"
  shows "dispatch_message Q C' (client_key C ch) f = Some (NmPublication ch (read_publication off m))"
proof -
  have "client_key C ch = client_key C' ch" using assms(1) by (simp add: client_key_def)
  then show ?thesis using assms(2,3) topics(2,3) [of C' ch] by (simp add: dispatch_message_def)
qed

text \<open>
  C5: A publication into the history of a channel over Redis, on any server that behaves as
  documented: it is appended to the log of the channel in its epoch with the next offset, the list
  keeps the configured number of the newest publications, and exactly one message goes out, which
  every node of the same prefix routes as that publication, carrying that offset.\<close>

theorem redis_publish_appends:
  assumes D: "documented R view" and up: "rd_link R w r = Up"
    and H: "chan_holds Q C w ch L ep (view w r)" and n: "length L + 1 < 10 ^ 14"
    and o: "po_history_enabled opts" "lifetime_fits w (po_history_lifetime opts)"
    and T: "lifetime_fits w (rcf_meta_ttl C) \<or> rcf_meta_ttl C = 0"
    and P: "rp_pub_dec Q (live_payload Q data info) = Some (live_message data info)"
  shows "\<exists>r' f. let p = history_publication data (map_option client_info_norm info) (of_nat (length L + 1)) in
    redis_publish R Q C w ch data info opts r = (Some (), r') \<and>
    chan_holds Q C w ch (L @ [p]) ep (view w r') \<and>
    length (chan_frames C ch (view w r')) = min (po_history_size opts) (length (chan_frames C ch (view w r)) + 1) \<and>
    ks_bus (view w r') = ks_bus (view w r) @ [(client_key C ch, f)] \<and>
    (\<forall>C'. rcf_prefix C' = rcf_prefix C \<longrightarrow> dispatch_message Q C' (client_key C ch) f = Some (NmPublication ch p))"
proof -
  let ?p = "history_publication data (map_option client_info_norm info) (of_nat (length L + 1))"
  let ?pay = "live_payload Q data info" and ?fs = "chan_frames C ch (view w r)"
  let ?f = "mark @ int_text (int (length L + 1)) @ mark @ ?pay"
  let ?out = "add_history R w (list_key C ch) (meta_key C ch) ?pay (po_history_size opts - 1)
      (po_history_lifetime opts) (client_key C ch) (rcf_meta_ttl C) r"
  have h: "meta_ready w (meta_key C ch) ep (length L) (view w r)"
    "as_list (value_at (list_key C ch) (view w r)) = Some ?fs" "utf8_text ep"
    "frames_hold Q L ep (if L = [] then None else Some (of_nat (length L)), ep, ?fs)"
    using H by (auto simp: chan_holds_def chan_frames_def)
  have size: "Suc (po_history_size opts - 1) = po_history_size opts" and life: "po_history_lifetime opts \<noteq> 0"
    using o(1) by (auto simp: po_history_enabled_def)
  note run = add_history_run [OF D h(1) n keys_differ(1) h(2) T o(2) life topics(1) [of C ch],
      where bound = "po_history_size opts - 1" and msg = ?pay]
  have ex: "extract_push ?f = (0, of_nat (length L + 1), ?pay)" using n by (intro extract_numbered) simp
  have st: "stored_publication Q ?f = Some ?p" by (simp only: stored_publication_def ex) (simp add: P read_live)
  have al: "as_list (value_at (list_key C ch) (view w (snd ?out))) = Some (take (po_history_size opts) (?f # ?fs))"
    by (simp only: run(3) size as_list_def) simp
  have fr: "chan_frames C ch (view w (snd ?out)) = take (po_history_size opts) (?f # ?fs)"
    by (simp only: chan_frames_def al) simp
  have off: "pub_offset ?p = of_nat (length L + 1)" by (simp add: history_publication_def)
  have "length L + 1 < 2 ^ 64" using n by simp
  from frames_push [OF h(4) st off this, of "po_history_size opts"]
  have "chan_holds Q C w ch (L @ [?p]) ep (view w (snd ?out))"
    using run(2) n h(3) unfolding chan_holds_def fr al by (simp add: meta_ready_def)
  moreover have "redis_publish R Q C w ch data info opts r = (Some (), snd ?out)"
    using o(1) by (simp add: redis_publish_def Let_def sbind_step invoke_def up run(1) [simplified] sret_def)
  moreover have "length (chan_frames C ch (view w (snd ?out))) = min (po_history_size opts) (length ?fs + 1)"
    by (simp only: fr) (simp add: min.commute)
  moreover have "\<forall>C'. rcf_prefix C' = rcf_prefix C \<longrightarrow>
      dispatch_message Q C' (client_key C ch) ?f = Some (NmPublication ch ?p)"
    using dispatch_publication [OF _ ex P, of _ _ ch] unfolding read_live by blast
  ultimately show ?thesis using run(4) by (intro exI [of _ "snd ?out"] exI [of _ ?f]) (simp only: Let_def simp_thms)
qed

theorem redis_publish_appends_witness:
  "\<exists>r' f. redis_publish sample_redis sample_pb sample_rconf sample_world ''a'' [7] None sample_publish no_keys = (Some (), r') \<and>
     ks_bus (sample_view sample_world r') = [(''p.client.a'', f)] \<and>
     dispatch_message sample_pb (sample_rconf\<lparr>rcf_uid := ''n2''\<rparr>) ''p.client.a'' f =
       Some (NmPublication ''a'' (history_publication [7] None 1))"
proof -
  have o: "po_history_enabled sample_publish" "lifetime_fits sample_world (po_history_lifetime sample_publish)"
    by (simp_all add: sample_publish_def po_history_enabled_def lifetime_fits_def)
  show ?thesis
    using redis_publish_appends [OF sample_documented _ sample_none_holds _ o, of "[7]" None]
    by (auto simp: Let_def client_key_def)
qed

lemma node_history_since_redis:
  assumes "nd_engine_ops n = redis_engine_ops R Q C"
  shows "node_history_since w ch off ep n =
    (let (x, r) = redis_history_since R Q C w ch off ep (nd_engine n)
     in (case x of Some y \<Rightarrow> y | None \<Rightarrow> ([], stream_position_default), n\<lparr>nd_engine := r\<rparr>))"
  using assms
  by (simp add: node_history_since_def redis_engine_ops_def call_engine_def method_of_def split_def Let_def
      split: option.split)

text \<open>
  C6: Recovery over Redis, on any server that behaves as documented. A reply that says recovered
  lists exactly the publications of the channel's log after the position of the request, in the same
  epoch; and it says so whenever the request names the epoch and a position whose successors the
  list still keeps. The log, the queues and the hub stay as they are.\<close>

theorem redis_recovery_exact:
  assumes D: "documented R view" and ops: "nd_engine_ops n = redis_engine_ops R Q C"
    and up: "rd_link R w (nd_engine n) = Up"
    and H: "chan_holds Q C w (sq_channel req) L ep (view w (nd_engine n))"
    and T: "lifetime_fits w (rcf_meta_ttl C) \<or> rcf_meta_ttl C = 0"
    and req: "co_history_recover o1" "sq_recover req" "subscribe_result_of w req o1 n = (res, n')"
  shows "let seen = unat (request_offset req); kept = chan_frames C (sq_channel req) (view w (nd_engine n))
    in (sr_recovered res \<longrightarrow> sq_epoch req = ep \<and> seen \<le> length L \<and>
          sr_publications res = listed_pubs (nd_use_seq_gen n) (drop seen L)) \<and>
       (sq_epoch req = ep \<and> seen \<le> length L \<and> length L - seen \<le> length kept \<longrightarrow> sr_recovered res) \<and>
       sr_epoch res = ep \<and> chan_holds Q C w (sq_channel req) L ep (view w (nd_engine n')) \<and>
       nd_log n' = nd_log n \<and> nd_hub n' = nd_hub n"
proof -
  let ?ch = "sq_channel req" and ?off = "request_offset req"
  let ?a = "(if L = [] then None else Some (of_nat (length L)), ep, chan_frames C ?ch (view w (nd_engine n)))"
  obtain pubs pos where sn: "result_since (read_answer Q ?a) ?off (sq_epoch req) = (pubs, pos)"
    by (cases "result_since (read_answer Q ?a) ?off (sq_epoch req)")
  have h: "frames_hold Q L ep ?a" using H by (simp add: chan_holds_def)
  obtain r' where r': "redis_history_since R Q C w ?ch ?off (sq_epoch req) (nd_engine n) = (Some (pubs, pos), r')"
    "chan_holds Q C w ?ch L ep (view w r')"
    using redis_history_since_run [OF D up H T, of ?off "sq_epoch req"] sn by auto
  have res: "sr_recovered res = is_recovered pubs pos ?off (sq_epoch req)" "sr_epoch res = sp_epoch pos"
      "sr_publications res = listed_pubs (nd_use_seq_gen n) pubs"
    and n': "n' = n\<lparr>nd_engine := r'\<rparr>"
    using req r'(1) by (auto simp: subscribe_result_of_def node_history_since_redis [OF ops] listed_pubs_def Let_def)
  have top: "sp_epoch pos = ep" using redis_log.since_top [OF h, of ?off "sq_epoch req"] sn by simp
  have 1: "sq_epoch req = ep \<and> unat ?off \<le> length L \<and> pubs = drop (unat ?off) L" if "sr_recovered res"
    using redis_log.recovered_complete [OF h, of ?off "sq_epoch req"] that sn by (simp add: res)
  have 2: "sr_recovered res"
    if "sq_epoch req = ep \<and> unat ?off \<le> length L \<and>
      length L - unat ?off \<le> length (chan_frames C ?ch (view w (nd_engine n)))"
    using redis_log.recovered_if_kept [OF h, of ?off] that sn by (simp add: res frames_kept_def)
  have 3: "nd_log n' = nd_log n" "nd_hub n' = nd_hub n" "nd_engine n' = r'" by (simp_all add: n')
  show ?thesis
    unfolding Let_def res(2,3) top using 1 2 3 r'(2) by (intro conjI impI) simp_all
qed

definition sample_redis_node :: "(world \<Rightarrow> list_keys \<Rightarrow> redis_link) \<Rightarrow> list_keys \<Rightarrow> list_keys node" where
  "sample_redis_node link st =
     node_new_with_engine sample_world hub_new (redis_engine_ops (list_server link) sample_pb sample_rconf) st
       token_verifier_default True False namespaces_default proxies_default 25 60 (registry_new ''n1'') '''' ''''
       limits_default"

lemma sample_redis_node_simps [simp]:
  "nd_engine_ops (sample_redis_node link st) = redis_engine_ops (list_server link) sample_pb sample_rconf"
  "nd_engine (sample_redis_node link st) = st" "nd_use_seq_gen (sample_redis_node link st) = True"
  by (simp_all add: sample_redis_node_def node_new_with_engine_def default_use_seq_gen_def Let_def)

definition redis_recovery_request :: "u64 \<Rightarrow> string \<Rightarrow> subscribe_request" where
  "redis_recovery_request off ep = subscribe_request_default
     \<lparr>sq_channel := ''a'', sq_recover := True, sq_offset := off, sq_epoch := ep\<rparr>"

lemma redis_recovery_request_simps [simp]:
  "sq_channel (redis_recovery_request off ep) = ''a''" "sq_recover (redis_recovery_request off ep) = True"
  "sq_epoch (redis_recovery_request off ep) = ep" "request_offset (redis_recovery_request off ep) = off"
  by (simp_all add: redis_recovery_request_def request_offset_def subscribe_request_default_def)

theorem redis_recovery_exact_witness:
  "sr_recovered (fst (subscribe_result_of sample_world (redis_recovery_request 0 ''1000'') sample_history_options
     (sample_redis_node (\<lambda>w st. Up) sample_keys))) \<and>
   sr_publications (fst (subscribe_result_of sample_world (redis_recovery_request 0 ''1000'') sample_history_options
     (sample_redis_node (\<lambda>w st. Up) sample_keys))) = [seq_gen_publication (history_publication [7] None 1)]"
proof -
  let ?n = "sample_redis_node (\<lambda>w st. Up) sample_keys" and ?q = "redis_recovery_request 0 ''1000''"
  obtain res n' where res: "subscribe_result_of sample_world ?q sample_history_options ?n = (res, n')"
    by (cases "subscribe_result_of sample_world ?q sample_history_options ?n")
  have p: "nd_engine_ops ?n = redis_engine_ops sample_redis sample_pb sample_rconf"
    "rd_link sample_redis sample_world (nd_engine ?n) = Up"
    "chan_holds sample_pb sample_rconf sample_world (sq_channel ?q) [history_publication [7] None 1] ''1000''
      (sample_view sample_world (nd_engine ?n))"
    "lifetime_fits sample_world (rcf_meta_ttl sample_rconf) \<or> rcf_meta_ttl sample_rconf = 0"
    using sample_holds(1) by (simp_all add: sample_redis_def list_server_def)
  have o: "co_history_recover sample_history_options" by (simp add: sample_history_options_def)
  have "sr_recovered res \<and> sr_publications res = listed_pubs True [history_publication [7] None 1]"
    using redis_recovery_exact [OF sample_documented p o _ res] by (simp add: sample_holds(2) Let_def)
  then show ?thesis by (simp add: res listed_pubs_def)
qed

text \<open>
  C21: Recovery when Redis cannot be reached. The engine's error is answered as an empty history at
  the default position, so a request from offset zero with an empty epoch is told that it recovered
  everything; any other request is told that it did not recover.\<close>

theorem redis_down_recovered:
  assumes ops: "nd_engine_ops n = redis_engine_ops R Q C" and down: "rd_link R w (nd_engine n) = Unreachable"
    and req: "co_history_recover o1" "sq_recover req" "subscribe_result_of w req o1 n = (res, n')"
  shows "sr_recovered res = (request_offset req = 0 \<and> sq_epoch req = '''') \<and> sr_publications res = [] \<and>
    sr_epoch res = '''' \<and> nd_engine n' = nd_engine n"
proof -
  have "redis_history_since R Q C w (sq_channel req) off ep (nd_engine n) = (None, nd_engine n)" for off ep
    by (simp add: redis_history_since_def read_history_def sbind_step invoke_def down)
  with req show ?thesis
    by (auto simp: subscribe_result_of_def node_history_since_redis [OF ops] is_recovered_def
        stream_position_default_def Let_def)
qed

theorem redis_down_recovered_witness:
  "sr_recovered (fst (subscribe_result_of sample_world (redis_recovery_request 0 '''') sample_history_options
     (sample_redis_node (\<lambda>w st. Unreachable) sample_keys))) \<and>
   sr_publications (fst (subscribe_result_of sample_world (redis_recovery_request 0 '''') sample_history_options
     (sample_redis_node (\<lambda>w st. Unreachable) sample_keys))) = []"
proof -
  let ?n = "sample_redis_node (\<lambda>w st. Unreachable) sample_keys" and ?q = "redis_recovery_request 0 ''''"
  obtain res n' where res: "subscribe_result_of sample_world ?q sample_history_options ?n = (res, n')"
    by (cases "subscribe_result_of sample_world ?q sample_history_options ?n")
  have "rd_link (list_server (\<lambda>w st. Unreachable)) sample_world (nd_engine ?n) = Unreachable"
    by (simp add: list_server_def)
  moreover have "nd_engine_ops ?n = redis_engine_ops (list_server (\<lambda>w st. Unreachable)) sample_pb sample_rconf" by simp
  moreover have "co_history_recover sample_history_options" by (simp add: sample_history_options_def)
  ultimately have "sr_recovered res \<and> sr_publications res = []"
    using redis_down_recovered [of ?n "list_server (\<lambda>w st. Unreachable)" sample_pb sample_rconf, OF _ _ _ _ res] by simp
  then show ?thesis by (simp add: res)
qed

section \<open>Messages between nodes\<close>

definition sends :: "(world \<Rightarrow> 'r \<Rightarrow> key_view) \<Rightarrow> world \<Rightarrow> 'r \<Rightarrow> ('r, unit) script \<Rightarrow> string \<Rightarrow> bytes \<Rightarrow> bool" where
  "sends view w r m topic x \<longleftrightarrow>
     fst (m r) = Some () \<and> view w (snd (m r)) = (view w r)\<lparr>ks_bus := ks_bus (view w r) @ [(topic, x)]\<rparr>"

lemma invoke_publish:
  "documented R view \<Longrightarrow> rd_link R w r = Up \<Longrightarrow> sends view w r (invoke R w (rd_publish R w topic x)) topic x"
  by (simp add: sends_def invoke_def documented_steps srv_publish_def)

text \<open>\<open>prost\<close> reads back the command that carries \<open>msg\<close> from the node \<open>uid\<close>, and its parameters.\<close>

fun control_reads :: "redis_pb \<Rightarrow> string \<Rightarrow> control_message \<Rightarrow> bool" where
  "control_reads Q uid (CmUnsubscribe user channel) =
     (let m = \<lparr>cu_channel = channel, cu_user = user\<rparr>;
          c = \<lparr>cc_uid = uid, cc_method = 1, cc_params = rp_unsub_enc Q m\<rparr>
      in rp_unsub_dec Q (rp_unsub_enc Q m) = Some m \<and> rp_cmd_dec Q (rp_cmd_enc Q c) = Some c)"
| "control_reads Q uid (CmDisconnect user code reason reconnect whitelist) =
     (let m = \<lparr>cd_user = user, cd_whitelist = whitelist, cd_code = code, cd_reason = reason, cd_reconnect = reconnect\<rparr>;
          c = \<lparr>cc_uid = uid, cc_method = 2, cc_params = rp_disc_enc Q m\<rparr>
      in rp_disc_dec Q (rp_disc_enc Q m) = Some m \<and> rp_cmd_dec Q (rp_cmd_enc Q c) = Some c)"
| "control_reads Q uid (CmNode n) =
     (let m = \<lparr>cn_uid = ni_uid n, cn_name = ni_name n, cn_version = ni_version n, cn_num_clients = ni_num_clients n,
                cn_num_users = ni_num_users n, cn_num_channels = ni_num_channels n, cn_uptime = ni_uptime n\<rparr>;
          c = \<lparr>cc_uid = uid, cc_method = 0, cc_params = rp_node_enc Q m\<rparr>
      in rp_node_dec Q (rp_node_enc Q m) = Some m \<and> rp_cmd_dec Q (rp_cmd_enc Q c) = Some c)"

text \<open>The wire has no metrics.\<close>

fun control_norm :: "control_message \<Rightarrow> control_message" where
  "control_norm (CmNode n) = CmNode (n\<lparr>ni_metrics := None\<rparr>)"
| "control_norm m = m"

lemma decode_encode_control:
  "control_reads Q uid msg \<Longrightarrow>
   decode_control Q (encode_control Q uid msg) self_uid = (if uid = self_uid then None else Some (control_norm msg))"
  by (cases msg) (auto simp: encode_control_def decode_control_def Let_def)

lemma dispatch_control:
  "rcf_prefix C' = rcf_prefix C \<Longrightarrow>
   dispatch_message Q C' (control_topic C) x = map_option NmControl (decode_control Q x (rcf_uid C'))"
  by (simp add: dispatch_message_def control_topic_def)

lemma dispatch_marked:
  assumes "rcf_prefix C' = rcf_prefix C" "rp_info_dec Q (rp_info_enc Q (to_pb_info ci)) = Some (to_pb_info ci)"
  shows "dispatch_message Q C' (client_key C ch) (mark @ join_mark @ mark @ rp_info_enc Q (to_pb_info ci)) =
      Some (NmJoin ch (client_info_norm ci))"
    "dispatch_message Q C' (client_key C ch) (mark @ leave_mark @ mark @ rp_info_enc Q (to_pb_info ci)) =
      Some (NmLeave ch (client_info_norm ci))"
proof -
  have "client_key C ch = client_key C' ch" using assms(1) by (simp add: client_key_def)
  moreover have "95 \<notin> set join_mark" "95 \<notin> set leave_mark" "leave_mark \<noteq> join_mark"
    by (simp_all add: join_mark_def leave_mark_def)
  ultimately show
    "dispatch_message Q C' (client_key C ch) (mark @ join_mark @ mark @ rp_info_enc Q (to_pb_info ci)) =
      Some (NmJoin ch (client_info_norm ci))"
    "dispatch_message Q C' (client_key C ch) (mark @ leave_mark @ mark @ rp_info_enc Q (to_pb_info ci)) =
      Some (NmLeave ch (client_info_norm ci))"
    using assms(2) topics(2,3) [of C' ch]
    by (simp_all add: dispatch_message_def extract_marked from_to_pb_info)
qed

text \<open>
  C7: The bus between nodes, when \<open>prost\<close> reads back what it wrote and no publication starts with
  the marker: a publication without history, a join, a leave and a control command each put exactly
  one message on the bus and change no key; every node of the same prefix routes it as what was
  sent (an absent info where it was empty, node pings without metrics), except that a node skips
  its own control commands.\<close>

theorem redis_bus_round_trip:
  assumes D: "documented R view" and up: "rd_link R w r = Up" and same: "rcf_prefix C' = rcf_prefix C"
    and P: "\<not> po_history_enabled opts" "rp_pub_dec Q (live_payload Q data info) = Some (live_message data info)"
      "strip_prefix mark (live_payload Q data info) = None"
    and I: "rp_info_dec Q (rp_info_enc Q (to_pb_info ci)) = Some (to_pb_info ci)"
    and K: "control_reads Q (rcf_uid C) msg"
  shows "\<exists>a b c d.
    sends view w r (redis_publish R Q C w ch data info opts) (client_key C ch) a \<and>
    dispatch_message Q C' (client_key C ch) a =
      Some (NmPublication ch (history_publication data (map_option client_info_norm info) 0)) \<and>
    sends view w r (redis_publish_join R Q C w ch ci) (client_key C ch) b \<and>
    dispatch_message Q C' (client_key C ch) b = Some (NmJoin ch (client_info_norm ci)) \<and>
    sends view w r (redis_publish_leave R Q C w ch ci) (client_key C ch) c \<and>
    dispatch_message Q C' (client_key C ch) c = Some (NmLeave ch (client_info_norm ci)) \<and>
    sends view w r (redis_publish_control R Q C w msg) (control_topic C) d \<and>
    dispatch_message Q C' (control_topic C) d =
      (if rcf_uid C' = rcf_uid C then None else Some (NmControl (control_norm msg)))"
proof (intro exI conjI)
  let ?a = "live_payload Q data info"
  have ex: "extract_push ?a = (0, 0, ?a)" using P(3) by (simp add: extract_push_def)
  show "sends view w r (redis_publish R Q C w ch data info opts) (client_key C ch) ?a"
    using invoke_publish [OF D up] P(1) by (simp add: redis_publish_def publish_frame_def)
  show "dispatch_message Q C' (client_key C ch) ?a =
      Some (NmPublication ch (history_publication data (map_option client_info_norm info) 0))"
    using dispatch_publication [OF same ex P(2)] by (simp only: read_live)
  show "sends view w r (redis_publish_join R Q C w ch ci) (client_key C ch)
      (mark @ join_mark @ mark @ rp_info_enc Q (to_pb_info ci))"
    "sends view w r (redis_publish_leave R Q C w ch ci) (client_key C ch)
      (mark @ leave_mark @ mark @ rp_info_enc Q (to_pb_info ci))"
    using invoke_publish [OF D up]
    by (simp_all add: redis_publish_join_def redis_publish_leave_def publish_frame_def)
  show "dispatch_message Q C' (client_key C ch) (mark @ join_mark @ mark @ rp_info_enc Q (to_pb_info ci)) =
      Some (NmJoin ch (client_info_norm ci))"
    "dispatch_message Q C' (client_key C ch) (mark @ leave_mark @ mark @ rp_info_enc Q (to_pb_info ci)) =
      Some (NmLeave ch (client_info_norm ci))"
    by (rule dispatch_marked [OF same I])+
  show "sends view w r (redis_publish_control R Q C w msg) (control_topic C) (encode_control Q (rcf_uid C) msg)"
    using invoke_publish [OF D up] by (simp add: redis_publish_control_def)
  show "dispatch_message Q C' (control_topic C) (encode_control Q (rcf_uid C) msg) =
      (if rcf_uid C' = rcf_uid C then None else Some (NmControl (control_norm msg)))"
    using decode_encode_control [OF K] by (simp add: dispatch_control [OF same])
qed

theorem redis_bus_round_trip_witness:
  "\<exists>c d. sends sample_view sample_world no_keys
       (redis_publish_leave sample_redis sample_pb sample_rconf sample_world ''a'' sample_ci) ''p.client.a'' c \<and>
     dispatch_message sample_pb (sample_rconf\<lparr>rcf_uid := ''n2''\<rparr>) ''p.client.a'' c = Some (NmLeave ''a'' sample_ci) \<and>
     sends sample_view sample_world no_keys
       (redis_publish_control sample_redis sample_pb sample_rconf sample_world (CmUnsubscribe ''u'' ''a'')) ''p.control'' d \<and>
     dispatch_message sample_pb (sample_rconf\<lparr>rcf_uid := ''n2''\<rparr>) ''p.control'' d =
       Some (NmControl (CmUnsubscribe ''u'' ''a''))"
proof -
  have "client_info_norm sample_ci = sample_ci"
    by (simp add: client_info_norm_def sample_ci_def norm_raw_def)
  moreover have "control_reads sample_pb (rcf_uid sample_rconf) (CmUnsubscribe ''u'' ''a'')"
    by (simp add: sample_pb_def sample_unsub_def Let_def)
  moreover have "\<not> po_history_enabled publish_options_default" "strip_prefix mark [7] = None"
    by (simp_all add: po_history_enabled_def publish_options_default_def strip_prefix_def mark_def)
  ultimately show ?thesis
    using redis_bus_round_trip [OF sample_documented, where r = no_keys and w = sample_world and C = sample_rconf
        and C' = "sample_rconf\<lparr>rcf_uid := ''n2''\<rparr>" and Q = sample_pb and data = "[7]" and info = None and ch = "''a''"
        and opts = publish_options_default and ci = sample_ci and msg = "CmUnsubscribe ''u'' ''a''"]
    by (auto simp: client_key_def control_topic_def)
qed

section \<open>Failures of the history\<close>

lemma wrong_type_publish:
  fixes Q :: redis_pb and data :: bytes and info :: "client_info option"
  assumes D: "documented R view" and up: "rd_link R w r = Up"
    and X: "value_at (list_key C ch) (view w r) = Some (RHash h)"
    and M: "meta_ready w (meta_key C ch) ep n (view w r)" "n + 1 < 10 ^ 14"
    and T: "lifetime_fits w (rcf_meta_ttl C) \<or> rcf_meta_ttl C = 0" and o: "po_history_enabled opts"
  defines "out \<equiv> redis_publish R Q C w ch data info opts r"
  shows "fst out = None" "ks_bus (view w (snd out)) = ks_bus (view w r)"
    "value_at (list_key C ch) (view w (snd out)) = value_at (list_key C ch) (view w r)"
    "meta_holds (meta_key C ch) ep (n + 1) (view w (snd out))"
proof -
  let ?l = "list_key C ch" and ?m = "meta_key C ch"
  let ?r1 = "snd (lua_epoch R w ?m r)"
  let ?r2 = "snd (rd_hincr R w ?m offset_field ?r1)"
  let ?r3 = "snd (lua_unless (rcf_meta_ttl C = 0) (rd_expire R w ?m (rcf_meta_ttl C)) ?r2)"
  let ?f = "history_payload R (int (n + 1)) (live_payload Q data info)"
  have n63: "n + 1 < 2 ^ 63" using M(2) by simp
  note e = lua_epoch_run [OF D M(1)] and x = meta_expire_run [OF D T]
  note h = hincr_run [OF D e(2) n63]
  have l3: "value_at ?l (view w ?r3) = value_at ?l (view w r)" using e(3) [of ?l] h(3) [of ?l] by (simp add: x)
  have m3: "meta_holds ?m ep (n + 1) (view w ?r3)" using h(2) by (simp add: meta_holds_value [OF x(2)])
  have b3: "ks_bus (view w ?r3) = ks_bus (view w r)" by (simp add: x h e)
  have "as_list (value_at ?l (view w ?r3)) = None" using X by (simp add: l3 as_list_def)
  then have p: "fst (rd_lpush R w ?l ?f ?r3) = None" "view w (snd (rd_lpush R w ?l ?f ?r3)) = view w ?r3"
    by (simp_all add: documented_steps [OF D] srv_lpush_def on_list_def)
  have out: "out = (None, snd (rd_lpush R w ?l ?f ?r3))"
    using o p(1) [simplified]
    by (simp add: out_def redis_publish_def sbind_step invoke_def up add_history_def e(1) h(1) [simplified] x(1) Let_def)
  show "fst out = None" "ks_bus (view w (snd out)) = ks_bus (view w r)"
    "value_at (list_key C ch) (view w (snd out)) = value_at (list_key C ch) (view w r)"
    "meta_holds (meta_key C ch) ep (n + 1) (view w (snd out))"
    using p(2) l3 m3 b3 by (simp_all add: out)
qed

text \<open>
  C19: Colliding keys. The list of the channel \<open>meta.x\<close> is the meta key of the channel \<open>x\<close>. Once
  \<open>x\<close> has a meta key, a publication into the history of \<open>meta.x\<close> fails after its offset was taken:
  nothing is stored and nobody receives it, while the position of the channel moves on.\<close>

theorem redis_meta_collision:
  assumes "documented R view" "rd_link R w r = Up" "meta_holds (meta_key C ch) ep0 k (view w r)"
    and "meta_ready w (meta_key C (''meta.'' @ ch)) ep n (view w r)" "n + 1 < 10 ^ 14"
    and "lifetime_fits w (rcf_meta_ttl C) \<or> rcf_meta_ttl C = 0" "po_history_enabled opts"
  shows "let out = redis_publish R Q C w (''meta.'' @ ch) data info opts r in
    fst out = None \<and> ks_bus (view w (snd out)) = ks_bus (view w r) \<and>
    value_at (list_key C (''meta.'' @ ch)) (view w (snd out)) = value_at (list_key C (''meta.'' @ ch)) (view w r) \<and>
    meta_holds (meta_key C (''meta.'' @ ch)) ep (n + 1) (view w (snd out))"
proof -
  have "list_key C (''meta.'' @ ch) = meta_key C ch" by (simp add: list_key_def meta_key_def)
  with assms(3) obtain h where "value_at (list_key C (''meta.'' @ ch)) (view w r) = Some (RHash h)"
    by (auto simp: meta_holds_def)
  from wrong_type_publish [OF assms(1,2) this assms(4,5,6,7)] show ?thesis by (simp only: Let_def simp_thms)
qed

theorem redis_meta_collision_witness:
  "fst (redis_publish sample_redis sample_pb sample_rconf sample_world ''meta.a'' [7] None sample_publish sample_keys) = None \<and>
   ks_bus (sample_view sample_world (snd
     (redis_publish sample_redis sample_pb sample_rconf sample_world ''meta.a'' [7] None sample_publish sample_keys))) = []"
proof -
  have k: "meta_key sample_rconf ''a'' = ''p.list.meta.a''" "meta_key sample_rconf (''meta.'' @ ''a'') = ''p.list.meta.meta.a''"
    by (simp_all add: meta_key_def)
  have X: "meta_holds (meta_key sample_rconf ''a'') ''1000'' 1 (sample_view sample_world sample_keys)"
    using sample_texts(3) by (simp add: meta_holds_def expired_def k)
  have M: "meta_ready sample_world (meta_key sample_rconf (''meta.'' @ ''a'')) ''1000'' 0 (sample_view sample_world sample_keys)"
    unfolding k using sample_texts(2) by (simp add: meta_ready_def)
  show ?thesis
    using redis_meta_collision [OF sample_documented _ X M, of sample_publish sample_pb "[7]" None]
    by (simp add: Let_def sample_publish_def po_history_enabled_def)
qed

lemma sort_stale:
  assumes "numbered L" "pub_offset p = 1"
  shows "sort_key pub_offset (p # rev L) = p # L"
proof -
  have "sort_key pub_offset (rev L) = L" using sort_log [OF assms(1), of 0] by simp
  moreover have "pub_offset p \<le> pub_offset q" if "q \<in> set L" for q
    using that numbered_nth [OF assms(1)] assms(2) by (auto simp: in_set_conv_nth word_le_nat_alt)
  ultimately show ?thesis by (simp add: insort_is_Cons)
qed

text \<open>
  C18: A history that outlives its epoch. When the lifetime of the meta key is shorter than that of
  the list, the meta key goes first: here the list still holds a whole log \<open>L\<close> of the old epoch. The
  next publication starts a new epoch at offset one, and a client that recovers from the beginning
  of the new epoch is told that it recovered, with the publications of the old epoch after the new
  one. (The in-memory engine drops both together.)\<close>

theorem redis_stale_history:
  assumes D: "documented R view" and up: "\<forall>s. rd_link R w s = Up"
    and gone: "value_at (meta_key C ch) (view w r) = None" "text_bytes ep = int_text (wd_now w)" "utf8_text ep"
    and old: "numbered L" "as_list (value_at (list_key C ch) (view w r)) = Some fs"
      "map (stored_publication Q) fs = map Some (rev L)" "length L < po_history_size opts"
    and o: "po_history_enabled opts" "lifetime_fits w (po_history_lifetime opts)"
    and T: "lifetime_fits w (rcf_meta_ttl C) \<or> rcf_meta_ttl C = 0"
    and P: "rp_pub_dec Q (live_payload Q data info) = Some (live_message data info)"
  shows "\<exists>r1 r2. let p = history_publication data (map_option client_info_norm info) 1; tp = \<lparr>sp_offset = 1, sp_epoch = ep\<rparr> in
    redis_publish R Q C w ch data info opts r = (Some (), r1) \<and>
    redis_history_since R Q C w ch 0 ep r1 = (Some (p # L, tp), r2) \<and> is_recovered (p # L) tp 0 ep"
proof -
  let ?p = "history_publication data (map_option client_info_norm info) 1"
  let ?pay = "live_payload Q data info"
  let ?f = "mark @ int_text (int (0 + 1)) @ mark @ ?pay"
  let ?out = "add_history R w (list_key C ch) (meta_key C ch) ?pay (po_history_size opts - 1)
      (po_history_lifetime opts) (client_key C ch) (rcf_meta_ttl C) r"
  have M: "meta_ready w (meta_key C ch) ep 0 (view w r)" using gone by (simp add: meta_ready_def)
  have size: "Suc (po_history_size opts - 1) = po_history_size opts" and life: "po_history_lifetime opts \<noteq> 0"
    using o(1) by (auto simp: po_history_enabled_def)
  have n: "0 + 1 < (10 :: nat) ^ 14" by simp
  note run = add_history_run [OF D M n keys_differ(1) old(2) T o(2) life topics(1) [of C ch],
      where bound = "po_history_size opts - 1" and msg = ?pay]
  have "length fs = length L" using arg_cong [OF old(3), of length] by simp
  then have "as_list (value_at (list_key C ch) (view w (snd ?out))) = Some (?f # fs)"
    using old(4) by (simp only: run(3) size as_list_def) simp
  moreover have "meta_ready w (meta_key C ch) ep 1 (view w (snd ?out))" using run(2) by (simp add: meta_ready_def)
  ultimately have hs: "fst (history_script R w (list_key C ch) (meta_key C ch) (rcf_meta_ttl C) (snd ?out)) =
      Some (Some (int_text 1), text_bytes ep, ?f # fs)"
    using history_script_run(1) [OF D _ keys_differ(1) [of C ch] _ T, where ep = ep and n = 1 and r = "snd ?out"
        and fs = "?f # fs"] by simp
  have ans: "history_answer (Some (int_text 1), text_bytes ep, ?f # fs) = Some (Some 1, ep, ?f # fs)"
    using parse_dec_text [of 1] gone(3) by (simp add: history_answer_def bytes_text_bytes int_text_def)
  have ex: "extract_push ?f = (0, of_nat (0 + 1), ?pay)" by (rule extract_numbered) simp
  have "stored_publication Q ?f = Some ?p" by (simp only: stored_publication_def ex) (simp add: P read_live)
  then have "List.map_filter (stored_publication Q) (?f # fs) = ?p # rev L"
    using old(3) by (intro map_filter_all) simp
  moreover have "pub_offset ?p = 1" by (simp add: history_publication_def)
  ultimately have ra: "read_answer Q (Some 1, ep, ?f # fs) = (?p # L, \<lparr>sp_offset = 1, sp_epoch = ep\<rparr>)"
    using sort_stale [OF old(1)] by (simp add: read_answer_def)
  have "pub_offset q > 0" if "q \<in> set L" for q
  proof -
    from that obtain i where "i < length L" "q = L ! i" by (auto simp: in_set_conv_nth)
    with numbered_nth [OF old(1)] have "unat (pub_offset q) = i + 1" by simp
    then show ?thesis by (simp add: word_less_nat_alt)
  qed
  then have "result_since (?p # L, \<lparr>sp_offset = 1, sp_epoch = ep\<rparr>) 0 ep = (?p # L, \<lparr>sp_offset = 1, sp_epoch = ep\<rparr>)"
    by (simp add: result_since_def history_publication_def)
  then have "fst (redis_history_since R Q C w ch 0 ep (snd ?out)) = Some (?p # L, \<lparr>sp_offset = 1, sp_epoch = ep\<rparr>)"
    by (simp add: redis_history_since_def read_history_def sbind_step invoke_def up hs [simplified] ans [simplified]
        ra [simplified] sret_def)
  moreover have "redis_publish R Q C w ch data info opts r = (Some (), snd ?out)"
    using o(1) by (simp add: redis_publish_def Let_def sbind_step invoke_def up run(1) [simplified] sret_def)
  moreover have "is_recovered (?p # L) \<lparr>sp_offset = 1, sp_epoch = ep\<rparr> 0 ep"
    by (simp add: is_recovered_def history_publication_def)
  ultimately show ?thesis
    by (intro exI [of _ "snd ?out"] exI [of _ "snd (redis_history_since R Q C w ch 0 ep (snd ?out))"])
      (simp add: Let_def prod_eq_iff)
qed

theorem redis_stale_history_witness:
  "\<exists>r1 r2. redis_publish sample_redis sample_pb sample_rconf sample_world ''a'' [8] None sample_publish sample_list = (Some (), r1) \<and>
     redis_history_since sample_redis sample_pb sample_rconf sample_world ''a'' 0 ''1000'' r1 =
       (Some ([history_publication [8] None 1, history_publication [7] None 1], \<lparr>sp_offset = 1, sp_epoch = ''1000''\<rparr>), r2)"
proof -
  have k: "meta_key sample_rconf ''a'' = ''p.list.meta.a''" "list_key sample_rconf ''a'' = ''p.list.a''"
    by (simp_all add: meta_key_def list_key_def)
  have "numbered [history_publication [7] None 1]" by (simp add: one_numbered history_publication_def)
  moreover have "po_history_enabled sample_publish" "lifetime_fits sample_world (po_history_lifetime sample_publish)"
    "1 < po_history_size sample_publish"
    by (simp_all add: sample_publish_def po_history_enabled_def lifetime_fits_def)
  ultimately show ?thesis
    using redis_stale_history [OF sample_documented, where r = sample_list and w = sample_world and C = sample_rconf
        and Q = sample_pb and ch = "''a''" and ep = "''1000''" and L = "[history_publication [7] None 1]"
        and fs = "[sample_frame]" and opts = sample_publish and data = "[8]" and info = None]
      sample_texts sample_frame_stored
    by (auto simp: k as_list_def expired_def Let_def)
qed

end
