(* ===== verification/Redis_Presence.thy ===== *)
theory Redis_Presence
  imports Redis_Contract
begin

text \<open>
  Presence over Redis, on every server that behaves as documented: the data hash and the expiry set
  of a channel stand for a map from client ids to an info and an expiry time; adding and removing
  change the map, reading answers the members that have not expired and forgets the others.
\<close>

section \<open>The two keys of a channel\<close>

lemma bytes_text_id: "text_bytes (map (\<lambda>x. char_of (unat x)) b) = b"
proof -
  have "(of_nat (byte_of (char_of (unat x))) :: u8) = x" for x :: u8
  proof -
    have "unat x < 2 ^ LENGTH(8)" by (rule unsigned_less)
    then show ?thesis by (simp add: byte_of_def)
  qed
  then show ?thesis by (simp add: text_bytes_def comp_def)
qed

definition presence_holds ::
    "redis_pb \<Rightarrow> redis_config \<Rightarrow> string \<Rightarrow> (string \<Rightarrow> (client_info \<times> u64) option) \<Rightarrow> key_view \<Rightarrow> bool" where
  "presence_holds Q C ch M st \<longleftrightarrow>
     (\<exists>h z. as_hash map_dict (value_at (presence_data_key C ch) st) = Some h \<and>
        as_zset map_dict (value_at (presence_set_key C ch) st) = Some z \<and>
        (\<forall>i. h (text_bytes i) = map_option (\<lambda>(ci, t). rp_info_enc Q (to_pb_info ci)) (M i)) \<and>
        (\<forall>i. z (text_bytes i) = map_option snd (M i)))"

lemma presence_keys_differ [simp]:
  "presence_data_key C ch \<noteq> presence_set_key C ch" "presence_set_key C ch \<noteq> presence_data_key C ch"
  by (simp_all add: presence_data_key_def presence_set_key_def)

lemma as_values:
  "as_hash map_dict None = Some Map.empty" "as_hash map_dict (Some (RHash h)) = Some h"
  "as_zset map_dict None = Some Map.empty" "as_zset map_dict (Some (RZset z)) = Some z"
  by (simp_all add: as_hash_def as_zset_def)

lemma shrink_hash:
  "as_hash map_dict (value_at k (snd (shrink (dc_null map_dict) RHash k h st))) = Some h"
  "j \<noteq> k \<Longrightarrow> value_at j (snd (shrink (dc_null map_dict) RHash k h st)) = value_at j st"
  "fst (shrink (dc_null map_dict) RHash k h st) = Some ()"
  by (simp_all add: shrink_def as_values)

lemma shrink_zset:
  "as_zset map_dict (value_at k (snd (shrink (dc_null map_dict) RZset k z st))) = Some z"
  "j \<noteq> k \<Longrightarrow> value_at j (snd (shrink (dc_null map_dict) RZset k z st)) = value_at j st"
  "fst (shrink (dc_null map_dict) RZset k z st) = Some ()"
  by (simp_all add: shrink_def as_values)

lemma hdel_run:
  assumes D: "documented R view" and h: "as_hash map_dict (value_at k (view w r)) = Some h"
  shows "fst (rd_hdel R w k f r) = Some ()"
    "as_hash map_dict (value_at k (view w (snd (rd_hdel R w k f r)))) = Some (h(f := None))"
    "j \<noteq> k \<Longrightarrow> value_at j (view w (snd (rd_hdel R w k f r))) = value_at j (view w r)"
  using h by (simp_all add: documented_steps [OF D] srv_hdel_def on_hash_def shrink_hash)

lemma zrem_run:
  assumes D: "documented R view" and z: "as_zset map_dict (value_at k (view w r)) = Some z"
  shows "fst (rd_zrem R w k f r) = Some ()"
    "as_zset map_dict (value_at k (view w (snd (rd_zrem R w k f r)))) = Some (z(f := None))"
    "j \<noteq> k \<Longrightarrow> value_at j (view w (snd (rd_zrem R w k f r))) = value_at j (view w r)"
  using z by (simp_all add: documented_steps [OF D] srv_zrem_def on_zset_def shrink_zset)

lemma zremrange_run:
  assumes D: "documented R view" and z: "as_zset map_dict (value_at k (view w r)) = Some z" and s: "s < 2 ^ 53"
  shows "fst (rd_zremrange R w k s r) = Some ()"
    "as_zset map_dict (value_at k (view w (snd (rd_zremrange R w k s r)))) =
      Some (dc_keep map_dict (\<lambda>x. \<not> x \<le> s) z)"
    "j \<noteq> k \<Longrightarrow> value_at j (view w (snd (rd_zremrange R w k s r))) = value_at j (view w r)"
  using z s by (simp_all add: documented_steps [OF D] srv_zremrange_def on_zset_def shrink_zset)

lemma zadd_run:
  assumes D: "documented R view" and z: "as_zset map_dict (value_at k (view w r)) = Some z" and s: "s < 2 ^ 53"
  shows "fst (rd_zadd R w k s f r) = Some ()"
    "as_zset map_dict (value_at k (view w (snd (rd_zadd R w k s f r)))) = Some (z(f \<mapsto> s))"
    "j \<noteq> k \<Longrightarrow> value_at j (view w (snd (rd_zadd R w k s f r))) = value_at j (view w r)"
  using z s by (simp_all add: documented_steps [OF D] srv_zadd_def on_zset_def as_values)

lemma hset_run:
  assumes D: "documented R view" and h: "as_hash map_dict (value_at k (view w r)) = Some h"
  shows "fst (rd_hset R w k f v r) = Some ()"
    "as_hash map_dict (value_at k (view w (snd (rd_hset R w k f v r)))) = Some (h(f \<mapsto> v))"
    "j \<noteq> k \<Longrightarrow> value_at j (view w (snd (rd_hset R w k f v r))) = value_at j (view w r)"
  using h by (simp_all add: documented_steps [OF D] srv_hset_def on_hash_def as_values)

lemma hdel_each_run:
  assumes D: "documented R view" and h: "as_hash map_dict (value_at k (view w r)) = Some h"
  shows "fst (hdel_each R w k fs r) = Some () \<and>
    as_hash map_dict (value_at k (view w (snd (hdel_each R w k fs r)))) = Some (\<lambda>f. if f \<in> set fs then None else h f) \<and>
    (\<forall>j. j \<noteq> k \<longrightarrow> value_at j (view w (snd (hdel_each R w k fs r))) = value_at j (view w r))"
  using h
proof (induction fs arbitrary: r h)
  case Nil
  then show ?case by (simp add: sret_def)
next
  case (Cons f fs)
  note d = hdel_run [OF D Cons.prems, where f = f]
  from Cons.IH [OF d(2)] d(1,3) show ?case by (auto simp: sbind_step fun_upd_def fun_eq_iff cong: if_cong)
qed

section \<open>Changing the presence\<close>

text \<open>Two lifetimes at the end of an addition: kept above zero, both keys gone at zero.\<close>

lemma presence_add_run:
  assumes D: "documented R view" and up: "rd_link R w r = Up" and "presence_holds Q C ch M (view w r)"
    and t: "lifetime_fits w (ttl_ms div 1000)" "now_secs w + ttl_ms div 1000 < 2 ^ 53"
  shows "fst (redis_add_presence R Q C w ch i info ttl_ms r) = Some ()"
    "presence_holds Q C ch (if ttl_ms div 1000 = 0 then Map.empty else M(i \<mapsto> (info, now_secs w + ttl_ms div 1000)))
      (view w (snd (redis_add_presence R Q C w ch i info ttl_ms r)))"
proof -
  let ?z = "presence_set_key C ch" and ?d = "presence_data_key C ch" and ?ttl = "ttl_ms div 1000"
  let ?b = "rp_info_enc Q (to_pb_info info)" and ?e = "now_secs w + ttl_ms div 1000"
  from assms(3) obtain h z where h: "as_hash map_dict (value_at ?d (view w r)) = Some h"
    "as_zset map_dict (value_at ?z (view w r)) = Some z"
    "\<forall>i. h (text_bytes i) = map_option (\<lambda>(ci, t). rp_info_enc Q (to_pb_info ci)) (M i)"
    "\<forall>i. z (text_bytes i) = map_option snd (M i)"
    by (auto simp: presence_holds_def)
  let ?r1 = "snd (rd_zadd R w ?z ?e (text_bytes i) r)"
  let ?r2 = "snd (rd_hset R w ?d (text_bytes i) ?b ?r1)"
  let ?r3 = "snd (rd_expire R w ?z ?ttl ?r2)"
  let ?r4 = "snd (rd_expire R w ?d ?ttl ?r3)"
  note a = zadd_run [OF D h(2) t(2), where f = "text_bytes i"]
  have h1: "as_hash map_dict (value_at ?d (view w ?r1)) = Some h" using a(3) [where j = ?d] h(1) by simp
  note b = hset_run [OF D h1, where f = "text_bytes i" and v = ?b]
  have x: "fst (rd_expire R w k ?ttl s) = Some ()"
    "value_at j (view w (snd (rd_expire R w k ?ttl s))) = (if j = k \<and> ?ttl = 0 then None else value_at j (view w s))"
    for k j s
    by (simp_all only: documented_steps [OF D] srv_expire_values [OF t(1)])
  have run: "redis_add_presence R Q C w ch i info ttl_ms r = (Some (), ?r4)"
    by (simp add: redis_add_presence_def Let_def invoke_def up presence_add_script_def sbind_step a(1) b(1) x(1) prod_eq_iff)
  show "fst (redis_add_presence R Q C w ch i info ttl_ms r) = Some ()" by (simp add: run)
  have v: "value_at ?d (view w ?r4) = (if ?ttl = 0 then None else value_at ?d (view w ?r2))"
    "value_at ?z (view w ?r4) = (if ?ttl = 0 then None else value_at ?z (view w ?r1))"
    using b(3) [where j = ?z] by (simp_all add: x(2))
  obtain r4 where r4: "redis_add_presence R Q C w ch i info ttl_ms r = (Some (), r4)"
    "value_at ?d (view w r4) = (if ?ttl = 0 then None else value_at ?d (view w ?r2))"
    "value_at ?z (view w r4) = (if ?ttl = 0 then None else value_at ?z (view w ?r1))"
    using run v by blast
  show "presence_holds Q C ch (if ?ttl = 0 then Map.empty else M(i \<mapsto> (info, ?e)))
      (view w (snd (redis_add_presence R Q C w ch i info ttl_ms r)))"
  proof (cases "?ttl = 0")
    case True
    then show ?thesis by (simp add: r4 presence_holds_def as_values)
  next
    case False
    then show ?thesis
      unfolding presence_holds_def
      by (intro exI [of _ "h(text_bytes i \<mapsto> ?b)"] exI [of _ "z(text_bytes i \<mapsto> ?e)"])
        (simp add: r4 b(2) a(2) h(3,4) text_bytes_inj)
  qed
qed

lemma presence_remove_run:
  assumes D: "documented R view" and up: "rd_link R w r = Up" and "presence_holds Q C ch M (view w r)"
  shows "fst (redis_remove_presence R C w ch i r) = Some ()"
    "presence_holds Q C ch (M(i := None)) (view w (snd (redis_remove_presence R C w ch i r)))"
proof -
  let ?z = "presence_set_key C ch" and ?d = "presence_data_key C ch"
  from assms(3) obtain h z where h: "as_hash map_dict (value_at ?d (view w r)) = Some h"
    "as_zset map_dict (value_at ?z (view w r)) = Some z"
    "\<forall>i. h (text_bytes i) = map_option (\<lambda>(ci, t). rp_info_enc Q (to_pb_info ci)) (M i)"
    "\<forall>i. z (text_bytes i) = map_option snd (M i)"
    by (auto simp: presence_holds_def)
  let ?r1 = "snd (rd_hdel R w ?d (text_bytes i) r)"
  note a = hdel_run [OF D h(1), where f = "text_bytes i"]
  have z1: "as_zset map_dict (value_at ?z (view w ?r1)) = Some z" using a(3) [where j = ?z] h(2) by simp
  note b = zrem_run [OF D z1, where f = "text_bytes i"]
  have run: "redis_remove_presence R C w ch i r = (Some (), snd (rd_zrem R w ?z (text_bytes i) ?r1))"
    by (simp add: redis_remove_presence_def invoke_def up presence_rem_script_def sbind_step a(1) b(1) prod_eq_iff)
  show "fst (redis_remove_presence R C w ch i r) = Some ()" by (simp add: run)
  show "presence_holds Q C ch (M(i := None)) (view w (snd (redis_remove_presence R C w ch i r)))"
    unfolding presence_holds_def
    using a(2) b(2) b(3) [where j = ?d] h(3,4)
    by (intro exI [of _ "h(text_bytes i := None)"] exI [of _ "z(text_bytes i := None)"])
      (simp add: run text_bytes_inj)
qed

section \<open>Reading the presence\<close>

lemma presence_pairs_flat:
  assumes "hm_wf ps" and "\<And>a b. (a, b) \<in> set ps \<Longrightarrow> \<exists>i ci. a = text_bytes i \<and> utf8_text i \<and> rp_info_dec Q b = Some ci"
    and "hm_wf out"
  shows "hm_wf (presence_pairs Q (concat (map (\<lambda>(a, b). [a, b]) ps)) out)"
    "hm_get (presence_pairs Q (concat (map (\<lambda>(a, b). [a, b]) ps)) out) i =
      (case hm_get ps (text_bytes i) of Some b \<Rightarrow> map_option from_pb_info (rp_info_dec Q b) | None \<Rightarrow> hm_get out i)"
  using assms
proof (induction ps arbitrary: out)
  case (Cons p ps)
  {
    case 1
    obtain j ci where p: "fst p = text_bytes j" "utf8_text j" "rp_info_dec Q (snd p) = Some ci"
      using 1(2) [of "fst p" "snd p"] by auto
    have "hm_wf ps" using 1(1) by (simp add: hm_wf_def)
    with Cons.IH(1) [of "hm_insert j (from_pb_info ci) out"] 1(2,3) p show ?case
      by (auto simp: split_def bytes_text_bytes)
  next
    case 2
    obtain j ci where p: "fst p = text_bytes j" "utf8_text j" "rp_info_dec Q (snd p) = Some ci"
      using 2(2) [of "fst p" "snd p"] by auto
    have wf: "hm_wf ps" and new: "fst p \<notin> fst ` set ps" using 2(1) by (simp_all add: hm_wf_def)
    have "hm_get ps (fst p) = None" using new by (simp add: map_of_eq_None_iff)
    with Cons.IH(2) [of "hm_insert j (from_pb_info ci) out"] wf 2(2,3) p show ?case
      by (cases p) (auto simp: bytes_text_bytes text_bytes_inj split: option.split)
  }
qed simp_all

text \<open>The members that have not expired.\<close>

definition unexpired_members ::
    "u64 \<Rightarrow> (string \<Rightarrow> (client_info \<times> u64) option) \<Rightarrow> (string \<Rightarrow> (client_info \<times> u64) option)" where
  "unexpired_members now M i = (case M i of None \<Rightarrow> None | Some (ci, t) \<Rightarrow> if now < t then Some (ci, t) else None)"

lemma presence_read_run:
  assumes D: "documented R view" and H: "presence_holds Q C ch M (view w r)" and now: "now < 2 ^ 53"
  defines "m \<equiv> presence_read_script R w (presence_set_key C ch) (presence_data_key C ch) now r"
  shows "\<exists>ps. fst m = Some (concat (map (\<lambda>(a, b). [a, b]) ps)) \<and> hm_wf ps \<and>
      (\<forall>i. hm_get ps (text_bytes i) =
         map_option (\<lambda>(ci, t). rp_info_enc Q (to_pb_info ci)) (unexpired_members now M i)) \<and>
      presence_holds Q C ch (unexpired_members now M) (view w (snd m))"
proof -
  let ?z = "presence_set_key C ch" and ?d = "presence_data_key C ch"
  from H obtain h z where h: "as_hash map_dict (value_at ?d (view w r)) = Some h"
    "as_zset map_dict (value_at ?z (view w r)) = Some z"
    "\<forall>i. h (text_bytes i) = map_option (\<lambda>(ci, t). rp_info_enc Q (to_pb_info ci)) (M i)"
    "\<forall>i. z (text_bytes i) = map_option snd (M i)"
    by (auto simp: presence_holds_def)
  let ?r1 = "snd (rd_zrange R w ?z now r)"
  have zr: "view w ?r1 = view w r \<and> (case as_zset map_dict (value_at ?z (view w r)) of
      None \<Rightarrow> fst (rd_zrange R w ?z now r) = None
    | Some z \<Rightarrow> \<exists>ms. fst (rd_zrange R w ?z now r) = Some ms \<and> distinct ms \<and> set ms = {m. \<exists>x. z m = Some x \<and> x \<le> now})"
    using D now unfolding documented_def by blast
  then obtain ms where ms: "fst (rd_zrange R w ?z now r) = Some ms" "set ms = {m. \<exists>x. z m = Some x \<and> x \<le> now}"
    and v1: "view w ?r1 = view w r"
    using h(2) by auto
  let ?h = "\<lambda>f. if f \<in> set ms then None else h f" and ?k = "dc_keep map_dict (\<lambda>x. \<not> x \<le> now) z"
  let ?prune = "lua_unless (ms = []) (sbind (hdel_each R w ?d ms) (\<lambda>_. rd_zremrange R w ?z now))"
  let ?r2 = "snd (?prune ?r1)"
  have h1: "as_hash map_dict (value_at ?d (view w ?r1)) = Some h" "as_zset map_dict (value_at ?z (view w ?r1)) = Some z"
    using h v1 by simp_all
  have pr: "fst (?prune ?r1) = Some () \<and> as_hash map_dict (value_at ?d (view w ?r2)) = Some ?h \<and>
      as_zset map_dict (value_at ?z (view w ?r2)) = Some ?k"
  proof (cases "ms = []")
    case True
    then have "\<not> (\<exists>x. z f = Some x \<and> x \<le> now)" for f using ms(2) by auto
    then have "?k = z" by (auto simp: map_dict_def fun_eq_iff split: option.split)
    with True h1 show ?thesis by (simp add: lua_unless_def sret_def)
  next
    case False
    let ?s = "snd (hdel_each R w ?d ms ?r1)"
    note e = hdel_each_run [OF D h1(1), of ms]
    have "as_zset map_dict (value_at ?z (view w ?s)) = Some z" using e h1(2) by simp
    note f = zremrange_run [OF D this now]
    show ?thesis using False e f(1,2) f(3) [where j = ?d] by (simp add: lua_unless_def sbind_step)
  qed
  let ?r3 = "snd (rd_hgetall R w ?d ?r2)"
  have ga: "view w ?r3 = view w ?r2 \<and> (case as_hash map_dict (value_at ?d (view w ?r2)) of
      None \<Rightarrow> fst (rd_hgetall R w ?d ?r2) = None
    | Some h \<Rightarrow> \<exists>ps. fst (rd_hgetall R w ?d ?r2) = Some (concat (map (\<lambda>(a, b). [a, b]) ps)) \<and> hm_wf ps \<and> hm_get ps = h)"
    using D unfolding documented_def by blast
  then obtain ps where ps: "fst (rd_hgetall R w ?d ?r2) = Some (concat (map (\<lambda>(a, b). [a, b]) ps))" "hm_wf ps"
    "hm_get ps = ?h" and v3: "view w ?r3 = view w ?r2"
    using pr by auto
  have m: "m = rd_hgetall R w ?d ?r2"
    unfolding m_def presence_read_script_def by (simp add: sbind_step ms(1) pr del: sbind_def)
  have hM: "?h (text_bytes i) = map_option (\<lambda>(ci, t). rp_info_enc Q (to_pb_info ci)) (unexpired_members now M i)" for i
    using h(3,4) ms(2) by (auto simp: unexpired_members_def linorder_not_le split: option.splits)
  have kM: "?k (text_bytes i) = map_option snd (unexpired_members now M i)" for i
    using h(4) by (auto simp: unexpired_members_def map_dict_def linorder_not_le split: option.splits)
  have "presence_holds Q C ch (unexpired_members now M) (view w (snd m))"
    unfolding presence_holds_def m v3 using pr hM kM by blast
  with ps hM show ?thesis by (intro exI [of _ ps]) (simp add: m)
qed

text \<open>
  C8: The presence of a channel over Redis, on any server that behaves as documented. Adding a client
  with a lifetime above zero puts it in the map with its info and expiry time, removing takes it
  out; reading answers exactly the members that have not expired, each once, with the infos they
  announced, and forgets the expired ones.\<close>

theorem redis_presence_exact:
  assumes D: "documented R view" and up: "rd_link R w r = Up" and H: "presence_holds Q C ch M (view w r)"
    and now: "now_secs w < 2 ^ 53"
    and P: "\<forall>i ci t. M i = Some (ci, t) \<longrightarrow>
      utf8_text i \<and> rp_info_dec Q (rp_info_enc Q (to_pb_info ci)) = Some (to_pb_info ci)"
    and ttl: "ttl_ms div 1000 \<noteq> 0" "lifetime_fits w (ttl_ms div 1000)" "now_secs w + ttl_ms div 1000 < 2 ^ 53"
  shows "(\<exists>out r'. redis_presence R Q C w ch r = (Some out, r') \<and> hm_wf out \<and>
      (\<forall>i. hm_get out i = map_option (\<lambda>(ci, t). client_info_norm ci) (unexpired_members (now_secs w) M i)) \<and>
      presence_holds Q C ch (unexpired_members (now_secs w) M) (view w r')) \<and>
    (\<exists>r'. redis_add_presence R Q C w ch i info ttl_ms r = (Some (), r') \<and>
      presence_holds Q C ch (M(i \<mapsto> (info, now_secs w + ttl_ms div 1000))) (view w r')) \<and>
    (\<exists>r'. redis_remove_presence R C w ch i r = (Some (), r') \<and> presence_holds Q C ch (M(i := None)) (view w r'))"
proof (intro conjI)
  let ?m = "presence_read_script R w (presence_set_key C ch) (presence_data_key C ch) (now_secs w) r"
  obtain ps where ps: "fst ?m = Some (concat (map (\<lambda>(a, b). [a, b]) ps))" "hm_wf ps"
    "\<forall>i. hm_get ps (text_bytes i) =
       map_option (\<lambda>(ci, t). rp_info_enc Q (to_pb_info ci)) (unexpired_members (now_secs w) M i)"
    "presence_holds Q C ch (unexpired_members (now_secs w) M) (view w (snd ?m))"
    using presence_read_run [OF D H now] by blast
  have good: "\<exists>i ci. a = text_bytes i \<and> utf8_text i \<and> rp_info_dec Q b = Some ci" if "(a, b) \<in> set ps" for a b
  proof -
    obtain i where a: "a = text_bytes i" using bytes_text_id [of a] by metis
    with that ps(2,3) have "map_option (\<lambda>(ci, t). rp_info_enc Q (to_pb_info ci)) (unexpired_members (now_secs w) M i) = Some b"
      by (simp add: hm_wf_in_set)
    then obtain ci t where "M i = Some (ci, t)" "b = rp_info_enc Q (to_pb_info ci)"
      by (auto simp: unexpired_members_def split: option.splits if_splits)
    with P a show ?thesis by blast
  qed
  let ?out = "presence_pairs Q (concat (map (\<lambda>(a, b). [a, b]) ps)) []"
  have run: "redis_presence R Q C w ch r = (Some ?out, snd ?m)"
    by (simp add: redis_presence_def sbind_step invoke_def up ps(1) sret_def)
  have wf: "hm_wf ?out" using presence_pairs_flat(1) [OF ps(2) good, of "[]"] by simp
  have "hm_get ?out i = map_option (\<lambda>(ci, t). client_info_norm ci) (unexpired_members (now_secs w) M i)" for i
  proof (cases "unexpired_members (now_secs w) M i")
    case (Some c)
    obtain ci t where c: "c = (ci, t)" by (cases c)
    with Some have "M i = Some (ci, t)" by (auto simp: unexpired_members_def split: option.splits if_splits)
    with P have "rp_info_dec Q (rp_info_enc Q (to_pb_info ci)) = Some (to_pb_info ci)" by blast
    with Some c ps(3) show ?thesis by (simp add: presence_pairs_flat(2) [OF ps(2) good] from_to_pb_info)
  qed (simp add: presence_pairs_flat(2) [OF ps(2) good] ps(3))
  then show "\<exists>out r'. redis_presence R Q C w ch r = (Some out, r') \<and> hm_wf out \<and>
      (\<forall>i. hm_get out i = map_option (\<lambda>(ci, t). client_info_norm ci) (unexpired_members (now_secs w) M i)) \<and>
      presence_holds Q C ch (unexpired_members (now_secs w) M) (view w r')"
    using run ps(4) wf by blast
  show "\<exists>r'. redis_add_presence R Q C w ch i info ttl_ms r = (Some (), r') \<and>
      presence_holds Q C ch (M(i \<mapsto> (info, now_secs w + ttl_ms div 1000))) (view w r')"
    using presence_add_run [OF D up H ttl(2,3), of i info] ttl(1) by (intro exI conjI prod_eqI) auto
  show "\<exists>r'. redis_remove_presence R C w ch i r = (Some (), r') \<and> presence_holds Q C ch (M(i := None)) (view w r')"
    using presence_remove_run [OF D up H, of i] by (intro exI conjI prod_eqI) auto
qed

text \<open>A channel with one member, which expires in a minute.\<close>

definition sample_presence :: list_keys where
  "sample_presence = no_keys\<lparr>ks_keys :=
     [''p.presence.data.a'' \<mapsto> (RHash [(text_bytes ''c'', [2])], Some 1060),
      ''p.presence.expire.a'' \<mapsto> (RZset [(text_bytes ''c'', 1060)], Some 1060)]\<rparr>"

lemma sample_presence_simps [simp]:
  "ks_keys sample_presence k =
     (if k = ''p.presence.expire.a'' then Some (RZset [(text_bytes ''c'', 1060)], Some 1060)
      else if k = ''p.presence.data.a'' then Some (RHash [(text_bytes ''c'', [2])], Some 1060) else None)"
  by (simp add: sample_presence_def)

lemma sample_presence_holds:
  "presence_holds sample_pb sample_rconf ''a'' [''c'' \<mapsto> (sample_ci, 1060)] (sample_view sample_world sample_presence)"
proof -
  have k: "presence_data_key sample_rconf ''a'' = ''p.presence.data.a''"
    "presence_set_key sample_rconf ''a'' = ''p.presence.expire.a''"
    by (simp_all add: presence_data_key_def presence_set_key_def)
  show ?thesis unfolding presence_holds_def k by (simp add: expired_def as_values text_bytes_inj)
qed

lemma sample_now: "now_secs sample_world = 1000" "utf8_text ''c''"
  by code_simp+

theorem redis_presence_exact_witness:
  "\<exists>out r'. redis_presence sample_redis sample_pb sample_rconf sample_world ''a'' sample_presence = (Some out, r') \<and>
     hm_get out ''c'' = Some sample_ci \<and> hm_get out ''d'' = None"
proof -
  have n: "client_info_norm sample_ci = sample_ci"
    by (simp add: client_info_norm_def sample_ci_def norm_raw_def)
  have t: "now_secs sample_world < 2 ^ 53" "(60000 :: u64) div 1000 \<noteq> 0" "lifetime_fits sample_world (60000 div 1000)"
    "now_secs sample_world + 60000 div 1000 < 2 ^ 53"
    by (simp_all add: sample_now lifetime_fits_def)
  have P: "\<forall>i ci t. [''c'' \<mapsto> (sample_ci, 1060 :: u64)] i = Some (ci, t) \<longrightarrow>
      utf8_text i \<and> rp_info_dec sample_pb (rp_info_enc sample_pb (to_pb_info ci)) = Some (to_pb_info ci)"
    using sample_now(2) by simp
  obtain out r' where out: "redis_presence sample_redis sample_pb sample_rconf sample_world ''a'' sample_presence = (Some out, r')"
    "\<forall>i. hm_get out i = map_option (\<lambda>(ci, t). client_info_norm ci)
      (unexpired_members (now_secs sample_world) [''c'' \<mapsto> (sample_ci, 1060)] i)"
    using redis_presence_exact [OF sample_documented sample_conf_simps(4) sample_presence_holds t(1) P t(2,3,4)] by blast
  have "hm_get out ''c'' = Some sample_ci" "hm_get out ''d'' = None"
    unfolding spec [OF out(2)] by (simp_all add: unexpired_members_def sample_now n)
  with out(1) show ?thesis by blast
qed

text \<open>
  C20: A presence lifetime below one second (the configuration allows zero). The addition ends with
  lifetimes of zero on both keys of the channel, so not only the new entry goes, as the comment in
  the code says: every member of the channel does, whatever its own expiry time.\<close>

theorem redis_presence_zero_lifetime:
  assumes "documented R view" "rd_link R w r = Up" "presence_holds Q C ch M (view w r)"
    and "ttl_ms div 1000 = 0" "lifetime_fits w 0" "now_secs w < 2 ^ 53"
  shows "\<exists>r'. redis_add_presence R Q C w ch i info ttl_ms r = (Some (), r') \<and>
    presence_holds Q C ch Map.empty (view w r')"
  using presence_add_run [OF assms(1,2,3), of ttl_ms i info] assms(4,5,6) by (intro exI conjI prod_eqI) auto

theorem redis_presence_zero_lifetime_witness:
  "\<exists>r'. redis_add_presence sample_redis sample_pb sample_rconf sample_world ''a'' ''d'' sample_ci 0 sample_presence = (Some (), r') \<and>
     presence_holds sample_pb sample_rconf ''a'' Map.empty (sample_view sample_world r')"
proof -
  have t: "(0 :: u64) div 1000 = 0" "lifetime_fits sample_world 0" "now_secs sample_world < 2 ^ 53"
    by (simp_all add: sample_now lifetime_fits_def)
  show ?thesis
    using redis_presence_zero_lifetime [OF sample_documented sample_conf_simps(4) sample_presence_holds t] by blast
qed

end
