(* ===== verification/Web_Heap.thy ===== *)
theory Web_Heap
  imports Complex_Main "HOL-Library.Multiset"
begin

text \<open>
  The binary min-heap of the task scheduler in the admin UI's bundle
  (\<open>crates/centrifugo-server/web/bundle.js\<close>, line 68: the functions \<open>i\<close> (push), \<open>r\<close> (peek) and
  \<open>o\<close> (pop) of the scheduler's module). The array is a list, reading an index past the end is
  \<open>undefined\<close> (\<open>None\<close>), and the comparison \<open>s\<close> of the code is the parameter \<open>cmp\<close>: a negative
  result means that the first argument comes first. The array is assumed shorter than \<open>2 ^ 31\<close>,
  so that \<open>n - 1 >>> 1\<close> is the index of the parent, and past the end for \<open>n = 0\<close>.
\<close>

section \<open>The operations\<close>

definition js_nth :: "'a list \<Rightarrow> nat \<Rightarrow> 'a option" where
  "js_nth xs k = (if k < length xs then Some (xs ! k) else None)"

definition heap_parent :: "nat \<Rightarrow> nat" where
  "heap_parent n = (n - 1) div 2"

lemma heap_parent_less: "0 < n \<Longrightarrow> heap_parent n < n"
  by (simp add: heap_parent_def)

function sift_up :: "('a \<Rightarrow> 'a \<Rightarrow> rat) \<Rightarrow> 'a list \<Rightarrow> nat \<Rightarrow> 'a \<Rightarrow> 'a list" where
  "sift_up cmp xs n t =
     (if n = 0 then xs
      else
        (case js_nth xs (heap_parent n) of
           None \<Rightarrow> xs
         | Some r \<Rightarrow>
             if 0 < cmp r t
             then sift_up cmp (xs[heap_parent n := t, n := r]) (heap_parent n) t
             else xs))"
  by pat_completeness auto
termination
  by (relation "measure (\<lambda>(cmp, xs, n, t). n)") (simp_all add: heap_parent_less)

definition heap_push :: "('a \<Rightarrow> 'a \<Rightarrow> rat) \<Rightarrow> 'a list \<Rightarrow> 'a \<Rightarrow> 'a list" where
  "heap_push cmp e t = sift_up cmp (e @ [t]) (length e) t"

definition heap_peek :: "'a list \<Rightarrow> 'a option" where
  "heap_peek e = js_nth e 0"

definition before_opt :: "('a \<Rightarrow> 'a \<Rightarrow> rat) \<Rightarrow> 'a option \<Rightarrow> 'a \<Rightarrow> bool" where
  "before_opt cmp a n = (case a of None \<Rightarrow> False | Some x \<Rightarrow> 0 > cmp x n)"

function sift_down :: "('a \<Rightarrow> 'a \<Rightarrow> rat) \<Rightarrow> 'a list \<Rightarrow> nat \<Rightarrow> 'a \<Rightarrow> 'a list" where
  "sift_down cmp e i n =
     (if i < length e then
        (let o1 = 2 * (i + 1) - 1; a = js_nth e o1; l = o1 + 1; c = js_nth e l in
         if before_opt cmp a n then
           (if before_opt cmp c (the a)
            then sift_down cmp (e[i := the c, l := n]) l n
            else sift_down cmp (e[i := the a, o1 := n]) o1 n)
         else if before_opt cmp c n then sift_down cmp (e[i := the c, l := n]) l n
         else e)
      else e)"
  by pat_completeness auto
termination
  by (relation "measure (\<lambda>(cmp, e, i, n). length e - i)") (auto simp: Let_def)

definition heap_pop :: "('a \<Rightarrow> 'a \<Rightarrow> rat) \<Rightarrow> 'a list \<Rightarrow> 'a option \<times> 'a list" where
  "heap_pop cmp e =
     (case e of
        [] \<Rightarrow> (None, e)
      | t # _ \<Rightarrow>
          (let n = last e; e1 = butlast e in
           if n \<noteq> t then (Some t, sift_down cmp (e1[0 := n]) 0 n) else (Some t, e1)))"

declare sift_up.simps [simp del] sift_down.simps [simp del]

section \<open>The heap order\<close>

definition heap_ordered :: "('a \<Rightarrow> 'a \<Rightarrow> rat) \<Rightarrow> 'a list \<Rightarrow> bool" where
  "heap_ordered cmp xs \<longleftrightarrow>
     (\<forall>k < length xs. 0 < k \<longrightarrow> cmp (xs ! heap_parent k) (xs ! k) \<le> 0)"

lemma heap_parent_cases:
  assumes "0 < k" "heap_parent k = i"
  shows "k = 2 * i + 1 \<or> k = 2 * i + 2"
  using assms unfolding heap_parent_def by arith

lemma heap_parent_children [simp]: "heap_parent (Suc (2 * i)) = i" "heap_parent (Suc (Suc (2 * i))) = i"
  by (simp_all add: heap_parent_def)

lemma mset_swap_update:
  assumes "i < length xs" "j < length xs"
  shows "mset (xs[i := xs ! j, j := xs ! i]) = mset xs"
  using assms by (simp add: mset_swap)

text \<open>One turn of the loop of \<open>push\<close>, for the element at index \<open>n\<close>.\<close>

lemma sift_up_unfold:
  assumes "n < length xs" "xs ! n = t"
  shows "sift_up cmp xs n t =
    (if 0 < n \<and> 0 < cmp (xs ! heap_parent n) (xs ! n)
     then sift_up cmp (xs[heap_parent n := xs ! n, n := xs ! heap_parent n]) (heap_parent n) t
     else xs)"
proof -
  have "heap_parent n < length xs" using assms(1) by (simp add: heap_parent_def)
  then show ?thesis using assms by (subst sift_up.simps) (simp add: js_nth_def)
qed

lemma sift_up_induct:
  assumes "n < length xs"
    and stop: "\<And>xs n. n < length xs \<Longrightarrow> P xs n \<Longrightarrow>
      \<not> (0 < n \<and> 0 < cmp (xs ! heap_parent n) (xs ! n)) \<Longrightarrow> Q xs"
    and step: "\<And>xs n. n < length xs \<Longrightarrow> P xs n \<Longrightarrow> 0 < n \<Longrightarrow> 0 < cmp (xs ! heap_parent n) (xs ! n) \<Longrightarrow>
      P (xs[heap_parent n := xs ! n, n := xs ! heap_parent n]) (heap_parent n)"
    and "P xs n"
  shows "Q (sift_up cmp xs n (xs ! n))"
  using assms(1,4)
proof (induction n arbitrary: xs rule: less_induct)
  case (less n)
  show ?case
  proof (cases "0 < n \<and> 0 < cmp (xs ! heap_parent n) (xs ! n)")
    case False
    then have "sift_up cmp xs n (xs ! n) = xs"
      by (subst sift_up_unfold [OF less.prems(1) refl]) (rule if_not_P)
    then show ?thesis using stop [OF less.prems(1,2) False] by simp
  next
    case True
    let ?ys = "xs[heap_parent n := xs ! n, n := xs ! heap_parent n]"
    have p: "heap_parent n < n" using True by (simp add: heap_parent_less)
    have "Q (sift_up cmp ?ys (heap_parent n) (?ys ! heap_parent n))"
      using p less.prems True by (intro less.IH step) auto
    moreover have "?ys ! heap_parent n = xs ! n" using p less.prems(1) by simp
    ultimately show ?thesis
      using sift_up_unfold [OF less.prems(1) refl, of cmp] True by simp
  qed
qed

lemma mset_sift_up:
  assumes "n < length xs"
  shows "mset (sift_up cmp xs n (xs ! n)) = mset xs"
proof -
  define M where "M = mset xs"
  have "mset (sift_up cmp xs n (xs ! n)) = M"
  proof (rule sift_up_induct [where P = "\<lambda>ys _. mset ys = M" and Q = "\<lambda>ys. mset ys = M", OF assms])
    fix ys :: "'a list" and k
    assume "k < length ys" "mset ys = M" "0 < k"
    then show "mset (ys[heap_parent k := ys ! k, k := ys ! heap_parent k]) = M"
      using heap_parent_less [of k] mset_swap_update [of "heap_parent k" ys k] by simp
  qed (simp_all add: M_def)
  then show ?thesis by (simp add: M_def)
qed

lemma mset_heap_push [simp]: "mset (heap_push cmp e t) = add_mset t (mset e)"
  using mset_sift_up [of "length e" "e @ [t]" cmp] by (simp add: heap_push_def)

text \<open>
  The comparison of the code is a difference of keys: it is antisymmetric as a number and
  transitive. Everything about the heap follows from these two laws.
\<close>

locale comparison =
  fixes cmp :: "'a \<Rightarrow> 'a \<Rightarrow> rat"
  assumes anti: "cmp x y = - cmp y x"
    and trans: "cmp x y \<le> 0 \<Longrightarrow> cmp y z \<le> 0 \<Longrightarrow> cmp x z \<le> 0"
begin

lemma refl [simp]: "cmp x x = 0"
  using anti [of x x] by simp

lemma flip: "0 < cmp x y \<Longrightarrow> cmp y x \<le> 0" "\<not> cmp x y < 0 \<Longrightarrow> cmp y x \<le> 0"
  using anti [of x y] by simp_all

text \<open>While an element rises from \<open>n\<close>: only the edge above \<open>n\<close> may be wrong.\<close>

definition rising :: "'a list \<Rightarrow> nat \<Rightarrow> bool" where
  "rising xs n \<longleftrightarrow>
     (\<forall>k < length xs. 0 < k \<longrightarrow> k \<noteq> n \<longrightarrow> cmp (xs ! heap_parent k) (xs ! k) \<le> 0) \<and>
     (\<forall>k < length xs. 0 < k \<longrightarrow> heap_parent k = n \<longrightarrow> 0 < n \<longrightarrow>
        cmp (xs ! heap_parent n) (xs ! k) \<le> 0)"

lemma rising_step:
  assumes r: "rising xs n" and n: "0 < n" "n < length xs"
    and gt: "0 < cmp (xs ! heap_parent n) (xs ! n)"
  shows "rising (xs[heap_parent n := xs ! n, n := xs ! heap_parent n]) (heap_parent n)"
proof -
  define i where "i = heap_parent n"
  define ys where "ys = xs[i := xs ! n, n := xs ! i]"
  have i: "i < n" using n by (simp add: i_def heap_parent_less)
  have ysi: "ys ! i = xs ! n" and ysn: "ys ! n = xs ! i"
    and yso: "\<And>k. k \<noteq> i \<Longrightarrow> k \<noteq> n \<Longrightarrow> ys ! k = xs ! k"
    using i n by (simp_all add: ys_def nth_list_update)
  have r1: "\<And>k. k < length xs \<Longrightarrow> 0 < k \<Longrightarrow> k \<noteq> n \<Longrightarrow> cmp (xs ! heap_parent k) (xs ! k) \<le> 0"
    and r2: "\<And>k. k < length xs \<Longrightarrow> 0 < k \<Longrightarrow> heap_parent k = n \<Longrightarrow> cmp (xs ! i) (xs ! k) \<le> 0"
    using r n by (auto simp: rising_def i_def)
  have le: "cmp (xs ! n) (xs ! i) \<le> 0" using gt by (simp add: i_def flip(1))
  have "cmp (ys ! heap_parent k) (ys ! k) \<le> 0" if k: "k < length xs" "0 < k" "k \<noteq> i" for k
  proof (cases "k = n")
    case True
    then show ?thesis using le ysi ysn by (simp add: i_def [symmetric])
  next
    case False
    note kn = this
    have pk: "heap_parent k < k" using k by (simp add: heap_parent_less)
    consider "heap_parent k = i" | "heap_parent k = n" | "heap_parent k \<noteq> i" "heap_parent k \<noteq> n" by blast
    then show ?thesis
    proof cases
      case 1
      have "cmp (xs ! i) (xs ! k) \<le> 0" using r1 [OF k(1,2) kn] 1 by simp
      then show ?thesis using trans [OF le] 1 yso [OF k(3) kn] ysi by simp
    next
      case 2
      then show ?thesis using r2 [OF k(1,2) 2] yso [OF k(3) kn] ysn by simp
    next
      case 3
      then show ?thesis using r1 [OF k(1,2) kn] yso [OF k(3) kn] yso [OF 3] by simp
    qed
  qed
  moreover have "cmp (ys ! heap_parent i) (ys ! k) \<le> 0"
    if k: "k < length xs" "0 < k" "heap_parent k = i" "0 < i" for k
  proof -
    have pi: "heap_parent i < i" using k by (simp add: heap_parent_less)
    have up: "cmp (xs ! heap_parent i) (xs ! i) \<le> 0" using r1 [of i] i n k by simp
    have ki: "k \<noteq> i" using k heap_parent_less [of k] by auto
    have ypi: "ys ! heap_parent i = xs ! heap_parent i" using pi i by (intro yso) auto
    show ?thesis
    proof (cases "k = n")
      case True
      then show ?thesis using up ypi ysn by simp
    next
      case False
      have "cmp (xs ! i) (xs ! k) \<le> 0" using r1 [OF k(1,2) False] k(3) by simp
      then show ?thesis using trans [OF up] ypi yso [OF ki False] by simp
    qed
  qed
  ultimately show ?thesis
    unfolding rising_def by (simp add: ys_def i_def)
qed

lemma sift_up_ordered:
  assumes "n < length xs" "rising xs n"
  shows "heap_ordered cmp (sift_up cmp xs n (xs ! n))"
proof (rule sift_up_induct [where P = rising, OF assms(1) _ _ assms(2)])
  fix ys n assume "n < length ys" "rising ys n" "\<not> (0 < n \<and> 0 < cmp (ys ! heap_parent n) (ys ! n))"
  then show "heap_ordered cmp ys" unfolding heap_ordered_def rising_def by (metis not_less)
next
  fix ys n
  assume "n < length ys" "rising ys n" "0 < n" "0 < cmp (ys ! heap_parent n) (ys ! n)"
  then show "rising (ys[heap_parent n := ys ! n, n := ys ! heap_parent n]) (heap_parent n)"
    by (intro rising_step)
qed

lemma heap_push_ordered:
  assumes "heap_ordered cmp e"
  shows "heap_ordered cmp (heap_push cmp e t)"
proof -
  have "rising (e @ [t]) (length e)"
    unfolding rising_def
  proof (intro conjI allI impI)
    fix k assume k: "k < length (e @ [t])" "0 < k" "k \<noteq> length e"
    then have "k < length e" by simp
    then show "cmp ((e @ [t]) ! heap_parent k) ((e @ [t]) ! k) \<le> 0"
      using assms k heap_parent_less [of k] by (simp add: heap_ordered_def nth_append)
  next
    fix k assume "k < length (e @ [t])" "0 < k" "heap_parent k = length e"
    then show "cmp ((e @ [t]) ! heap_parent (length e)) ((e @ [t]) ! k) \<le> 0"
      using heap_parent_less [of k] by simp
  qed
  then have "heap_ordered cmp (sift_up cmp (e @ [t]) (length e) ((e @ [t]) ! length e))"
    by (intro sift_up_ordered) simp_all
  then show ?thesis by (simp add: heap_push_def)
qed

text \<open>While an element sinks from \<open>i\<close>: only the edges below \<open>i\<close> may be wrong.\<close>

definition sinking :: "'a list \<Rightarrow> nat \<Rightarrow> bool" where
  "sinking xs i \<longleftrightarrow>
     (\<forall>k < length xs. 0 < k \<longrightarrow> heap_parent k \<noteq> i \<longrightarrow> cmp (xs ! heap_parent k) (xs ! k) \<le> 0) \<and>
     (\<forall>k < length xs. 0 < k \<longrightarrow> heap_parent k = i \<longrightarrow> 0 < i \<longrightarrow>
        cmp (xs ! heap_parent i) (xs ! k) \<le> 0)"

lemma sinking_step:
  assumes s: "sinking xs i" and m: "m < length xs" "0 < m" "heap_parent m = i"
    and le: "cmp (xs ! m) (xs ! i) \<le> 0"
    and other: "\<And>k. k < length xs \<Longrightarrow> 0 < k \<Longrightarrow> heap_parent k = i \<Longrightarrow> cmp (xs ! m) (xs ! k) \<le> 0"
  shows "sinking (xs[i := xs ! m, m := xs ! i]) m"
proof -
  define ys where "ys = xs[i := xs ! m, m := xs ! i]"
  have i: "i < m" using m heap_parent_less [of m] by simp
  have ysi: "ys ! i = xs ! m" and ysm: "ys ! m = xs ! i"
    and yso: "\<And>k. k \<noteq> i \<Longrightarrow> k \<noteq> m \<Longrightarrow> ys ! k = xs ! k"
    using i m by (simp_all add: ys_def nth_list_update)
  have s1: "\<And>k. k < length xs \<Longrightarrow> 0 < k \<Longrightarrow> heap_parent k \<noteq> i \<Longrightarrow> cmp (xs ! heap_parent k) (xs ! k) \<le> 0"
    and s2: "\<And>k. k < length xs \<Longrightarrow> 0 < k \<Longrightarrow> heap_parent k = i \<Longrightarrow> 0 < i \<Longrightarrow>
      cmp (xs ! heap_parent i) (xs ! k) \<le> 0"
    using s by (auto simp: sinking_def)
  have "cmp (ys ! heap_parent k) (ys ! k) \<le> 0" if k: "k < length xs" "0 < k" "heap_parent k \<noteq> m" for k
  proof -
    consider "k = i" | "k = m" | "k \<noteq> i" "k \<noteq> m" by blast
    then show ?thesis
    proof cases
      case 1
      have pi: "heap_parent i < i" using k 1 by (simp add: heap_parent_less)
      then have "ys ! heap_parent i = xs ! heap_parent i" using i by (intro yso) auto
      then show ?thesis using s2 [OF m] k 1 ysi by simp
    next
      case 2
      then show ?thesis using le m ysi ysm by simp
    next
      case 3
      show ?thesis
      proof (cases "heap_parent k = i")
        case True
        then show ?thesis using other [OF k(1,2)] ysi yso [OF 3] by simp
      next
        case False
        then show ?thesis using s1 [OF k(1,2)] yso [OF 3] yso [OF False k(3)] by simp
      qed
    qed
  qed
  moreover have "cmp (ys ! heap_parent m) (ys ! k) \<le> 0"
    if k: "k < length xs" "0 < k" "heap_parent k = m" for k
  proof -
    have km: "m < k" using k heap_parent_less [of k] by simp
    have "cmp (xs ! m) (xs ! k) \<le> 0" using s1 [OF k(1,2)] k(3) i by simp
    then show ?thesis using m ysi yso [of k] km i by simp
  qed
  ultimately show ?thesis unfolding sinking_def by (simp add: ys_def)
qed

text \<open>The child the loop of \<open>pop\<close> swaps with, if any.\<close>

definition small_child :: "'a list \<Rightarrow> nat \<Rightarrow> nat option" where
  "small_child xs i =
     (let o1 = 2 * i + 1; l = o1 + 1 in
      if o1 < length xs \<and> cmp (xs ! o1) (xs ! i) < 0 then
        Some (if l < length xs \<and> cmp (xs ! l) (xs ! o1) < 0 then l else o1)
      else if l < length xs \<and> cmp (xs ! l) (xs ! i) < 0 then Some l else None)"

lemma sift_down_unfold:
  assumes "i < length xs"
  shows "sift_down cmp xs i (xs ! i) =
    (case small_child xs i of
       None \<Rightarrow> xs
     | Some m \<Rightarrow> sift_down cmp (xs[i := xs ! m, m := xs ! i]) m (xs ! i))"
  using assms
  by (subst sift_down.simps)
    (auto simp: small_child_def before_opt_def js_nth_def Let_def)

lemma small_child_cases:
  assumes "small_child xs i = Some m"
  obtains
    (right) "m = Suc (Suc (2 * i))" "m < length xs" "cmp (xs ! m) (xs ! i) \<le> 0"
      "cmp (xs ! m) (xs ! Suc (2 * i)) \<le> 0"
  | (left) "m = Suc (2 * i)" "m < length xs" "cmp (xs ! m) (xs ! i) \<le> 0"
      "Suc m < length xs \<longrightarrow> cmp (xs ! m) (xs ! Suc m) \<le> 0"
proof (cases "Suc (2 * i) < length xs \<and> cmp (xs ! Suc (2 * i)) (xs ! i) < 0")
  case True
  then have m: "m = (if Suc (Suc (2 * i)) < length xs \<and>
      cmp (xs ! Suc (Suc (2 * i))) (xs ! Suc (2 * i)) < 0 then Suc (Suc (2 * i)) else Suc (2 * i))"
    using assms by (simp add: small_child_def Let_def)
  show ?thesis
  proof (cases "Suc (Suc (2 * i)) < length xs \<and> cmp (xs ! Suc (Suc (2 * i))) (xs ! Suc (2 * i)) < 0")
    case True
    note r = this
    have "cmp (xs ! m) (xs ! i) \<le> 0"
      using trans [of "xs ! m" "xs ! Suc (2 * i)" "xs ! i"] m r
        \<open>Suc (2 * i) < length xs \<and> cmp (xs ! Suc (2 * i)) (xs ! i) < 0\<close> by simp
    then show ?thesis using right m r by simp
  next
    case False
    have "Suc m < length xs \<longrightarrow> cmp (xs ! m) (xs ! Suc m) \<le> 0"
      using flip(2) [of "xs ! Suc m" "xs ! m"] m False by auto
    then show ?thesis using left m False True by simp
  qed
next
  case False
  then have r: "m = Suc (Suc (2 * i))" "m < length xs" "cmp (xs ! m) (xs ! i) < 0"
    using assms by (simp_all add: small_child_def Let_def split: if_splits)
  then have "\<not> cmp (xs ! Suc (2 * i)) (xs ! i) < 0" using False by simp
  then have "cmp (xs ! i) (xs ! Suc (2 * i)) \<le> 0" by (rule flip(2))
  then have "cmp (xs ! m) (xs ! Suc (2 * i)) \<le> 0"
    using trans [of "xs ! m" "xs ! i" "xs ! Suc (2 * i)"] r(3) by simp
  then show ?thesis using right r by simp
qed

lemma small_childD:
  assumes "small_child xs i = Some m"
  shows "m < length xs" "0 < m" "heap_parent m = i" "cmp (xs ! m) (xs ! i) \<le> 0"
    "k < length xs \<Longrightarrow> 0 < k \<Longrightarrow> heap_parent k = i \<Longrightarrow> cmp (xs ! m) (xs ! k) \<le> 0"
proof -
  show "m < length xs" "0 < m" "heap_parent m = i" "cmp (xs ! m) (xs ! i) \<le> 0"
    using assms by (cases rule: small_child_cases; simp)+
  assume k: "k < length xs" "0 < k" "heap_parent k = i"
  then have c: "k = Suc (2 * i) \<or> k = Suc (Suc (2 * i))" using heap_parent_cases [OF k(2,3)] by simp
  from assms show "cmp (xs ! m) (xs ! k) \<le> 0"
  proof (cases rule: small_child_cases)
    case right then show ?thesis using c by auto
  next
    case left then show ?thesis using c k(1) by auto
  qed
qed

lemma small_child_None:
  assumes "small_child xs i = None" "k < length xs" "0 < k" "heap_parent k = i"
  shows "cmp (xs ! i) (xs ! k) \<le> 0"
proof -
  have "k = Suc (2 * i) \<or> k = Suc (Suc (2 * i))" using heap_parent_cases [OF assms(3,4)] by simp
  then have "\<not> cmp (xs ! k) (xs ! i) < 0"
    using assms(1,2) by (auto simp: small_child_def Let_def split: if_splits)
  then show ?thesis by (rule flip(2))
qed

lemma sift_down_ordered:
  assumes "i < length xs" "sinking xs i"
  shows "heap_ordered cmp (sift_down cmp xs i (xs ! i)) \<and> mset (sift_down cmp xs i (xs ! i)) = mset xs"
  using assms
proof (induction "length xs - i" arbitrary: xs i rule: less_induct)
  case less
  show ?case
  proof (cases "small_child xs i")
    case None
    have "heap_ordered cmp xs"
      unfolding heap_ordered_def
    proof (intro allI impI)
      fix k assume k: "k < length xs" "0 < k"
      show "cmp (xs ! heap_parent k) (xs ! k) \<le> 0"
        using less.prems(2) small_child_None [OF None k] k by (cases "heap_parent k = i") (auto simp: sinking_def)
    qed
    then show ?thesis using None sift_down_unfold [OF less.prems(1)] by simp
  next
    case (Some m)
    note m = small_childD [OF Some]
    let ?ys = "xs[i := xs ! m, m := xs ! i]"
    have im: "i < m" using m(2,3) heap_parent_less [of m] by simp
    have ym: "?ys ! m = xs ! i" using m(1) by simp
    have "sinking ?ys m" by (rule sinking_step [OF less.prems(2) m])
    then have "heap_ordered cmp (sift_down cmp ?ys m (?ys ! m)) \<and> mset (sift_down cmp ?ys m (?ys ! m)) = mset ?ys"
      using im m(1) by (intro less.hyps) auto
    then show ?thesis
      using sift_down_unfold [OF less.prems(1)] Some ym mset_swap_update [OF less.prems(1) m(1)] by simp
  qed
qed

lemma heap_ordered_butlast: "heap_ordered cmp xs \<Longrightarrow> heap_ordered cmp (butlast xs)"
  unfolding heap_ordered_def by (auto simp: nth_butlast heap_parent_def)

lemma heap_pop_None: "heap_pop cmp e = (None, e') \<longleftrightarrow> e = [] \<and> e' = []"
  by (cases e) (auto simp: heap_pop_def Let_def)

lemma heap_pop_Some:
  assumes "heap_ordered cmp e" "distinct e" "heap_pop cmp e = (Some t, e')"
  shows "heap_ordered cmp e'" "mset e = add_mset t (mset e')" "e \<noteq> []" "t = hd e"
proof -
  from assms(3) obtain rest where e: "e = t # rest"
    by (cases e) (auto simp: heap_pop_def Let_def split: if_splits)
  then show "e \<noteq> []" "t = hd e" by simp_all
  have "heap_ordered cmp e' \<and> mset e = add_mset t (mset e')"
  proof (cases "rest = []")
    case True
    then show ?thesis using assms(3) e by (auto simp: heap_pop_def heap_ordered_def)
  next
    case False
    define n where "n = last e"
    define e1 where "e1 = (butlast e)[0 := n]"
    have n: "n \<in> set rest" using False e by (simp add: n_def)
    have nt: "n \<noteq> t" using n assms(2) e by auto
    have e1: "e1 = n # butlast rest" using False e by (simp add: e1_def)
    have e': "e' = sift_down cmp e1 0 (e1 ! 0)"
    proof -
      have "heap_pop cmp e = (Some t, sift_down cmp e1 0 n)"
        using nt unfolding heap_pop_def e by (simp add: Let_def n_def e1_def e)
      then show ?thesis using assms(3) e1 by simp
    qed
    have "sinking e1 0"
      using heap_ordered_butlast [OF assms(1)] heap_parent_less
      unfolding sinking_def heap_ordered_def e1_def by (auto simp: nth_list_update)
    then have "heap_ordered cmp e' \<and> mset e' = mset e1"
      unfolding e' by (intro sift_down_ordered) (simp_all add: e1)
    moreover have "mset e1 = mset rest"
      using append_butlast_last_id [OF False] False e unfolding e1 n_def
      by (metis last_ConsR mset.simps(2) mset_append union_code add_mset_add_single mset_single_iff_right)
    ultimately show ?thesis using e by simp
  qed
  then show "heap_ordered cmp e'" "mset e = add_mset t (mset e')" by simp_all
qed

lemma heap_head_least:
  assumes "heap_ordered cmp e" "k < length e"
  shows "cmp (e ! 0) (e ! k) \<le> 0"
  using assms(2)
proof (induction k rule: less_induct)
  case (less k)
  show ?case
  proof (cases "k = 0")
    case False
    have p: "heap_parent k < k" using False by (simp add: heap_parent_less)
    then have "cmp (e ! 0) (e ! heap_parent k) \<le> 0" using less by simp
    moreover have "cmp (e ! heap_parent k) (e ! k) \<le> 0"
      using assms(1) less.prems False by (simp add: heap_ordered_def)
    ultimately show ?thesis by (rule trans)
  qed simp
qed

end

section \<open>The contract of the queue\<close>

text \<open>
  What the scheduler relies on: a queue whose state is an array, from which an element that comes
  before no other is taken. The heap provides it for every comparison with the two laws.
\<close>

locale priority_queue =
  fixes cmp :: "'a \<Rightarrow> 'a \<Rightarrow> rat" and push :: "'a list \<Rightarrow> 'a \<Rightarrow> 'a list"
    and peek :: "'a list \<Rightarrow> 'a option" and pop :: "'a list \<Rightarrow> 'a option \<times> 'a list"
    and ordered :: "'a list \<Rightarrow> bool"
  assumes ordered_Nil: "ordered []"
    and push_ordered: "ordered q \<Longrightarrow> ordered (push q x)"
    and push_mset: "mset (push q x) = add_mset x (mset q)"
    and peek_least: "ordered q \<Longrightarrow> peek q = Some x \<Longrightarrow> y \<in> set q \<Longrightarrow> cmp x y \<le> 0"
    and peek_None: "peek q = None \<longleftrightarrow> q = []"
    and pop_ordered: "ordered q \<Longrightarrow> distinct q \<Longrightarrow> ordered (snd (pop q))"
    and pop_mset: "ordered q \<Longrightarrow> distinct q \<Longrightarrow> peek q = Some x \<Longrightarrow>
      mset q = add_mset x (mset (snd (pop q)))"
    and pop_fst: "fst (pop q) = peek q"
begin

lemma set_push [simp]: "set (push q x) = insert x (set q)"
  using push_mset [of q x] by (metis set_mset_mset set_mset_add_mset_insert)

lemma distinct_push [simp]: "distinct (push q x) \<longleftrightarrow> distinct q \<and> x \<notin> set q"
  using push_mset [of q x] by (metis distinct.simps(2) mset.simps(2) mset_eq_imp_distinct_iff)

lemma push_not_Nil [simp]: "push q x \<noteq> []"
  using push_mset [of q x] by (metis mset_zero_iff add_mset_not_empty)

lemma peek_push_not_None [simp]: "peek (push q x) \<noteq> None"
  by (simp add: peek_None)

lemma pop_facts:
  assumes "ordered q" "distinct q" "peek q = Some x"
  shows pop_set: "set (snd (pop q)) = set q - {x}"
    and pop_distinct: "distinct (snd (pop q))"
    and pop_length: "length q = Suc (length (snd (pop q)))"
    and peek_mem: "x \<in> set q"
proof -
  note m = pop_mset [OF assms]
  have "mset q = mset (x # snd (pop q))" using m by simp
  then have d: "distinct (x # snd (pop q))" and s: "set q = set (x # snd (pop q))"
    and l: "length q = length (x # snd (pop q))"
    using assms(2) mset_eq_imp_distinct_iff mset_eq_setD mset_eq_length by blast+
  from d s l show "set (snd (pop q)) = set q - {x}" "distinct (snd (pop q))"
    "length q = Suc (length (snd (pop q)))" "x \<in> set q"
    by auto
qed

end

sublocale comparison \<subseteq> heap: priority_queue cmp "heap_push cmp" heap_peek "heap_pop cmp" "heap_ordered cmp"
proof
  show "heap_ordered cmp []" by (simp add: heap_ordered_def)
  fix q :: "'a list" and x y :: 'a
  show "heap_ordered cmp q \<Longrightarrow> heap_ordered cmp (heap_push cmp q x)" by (rule heap_push_ordered)
  show "mset (heap_push cmp q x) = add_mset x (mset q)" by simp
  show "heap_ordered cmp q \<Longrightarrow> heap_peek q = Some x \<Longrightarrow> y \<in> set q \<Longrightarrow> cmp x y \<le> 0"
    using heap_head_least by (auto simp: heap_peek_def js_nth_def in_set_conv_nth split: if_splits)
  show "heap_peek q = None \<longleftrightarrow> q = []" by (simp add: heap_peek_def js_nth_def)
  show fst: "fst (heap_pop cmp q) = heap_peek q"
    by (cases q) (auto simp: heap_pop_def heap_peek_def js_nth_def Let_def)
  assume o: "heap_ordered cmp q" "distinct q"
  show "heap_ordered cmp (snd (heap_pop cmp q))"
  proof (cases "q = []")
    case True
    then show ?thesis by (simp add: heap_pop_def heap_ordered_def)
  next
    case False
    then have "fst (heap_pop cmp q) = Some (q ! 0)" by (simp add: fst heap_peek_def js_nth_def)
    then have "heap_pop cmp q = (Some (q ! 0), snd (heap_pop cmp q))" by (metis prod.collapse)
    then show ?thesis by (rule heap_pop_Some(1) [OF o])
  qed
  assume "heap_peek q = Some x"
  then show "mset q = add_mset x (mset (snd (heap_pop cmp q)))"
    using heap_pop_Some(2) [OF o] fst by (cases "heap_pop cmp q") auto
qed

lemma length_sift_down [simp]: "length (sift_down cmp e i n) = length e"
  by (induction cmp e i n rule: sift_down.induct)
    (subst sift_down.simps, auto simp: Let_def)

lemma length_heap_pop: "heap_peek q = Some x \<Longrightarrow> length (snd (heap_pop cmp q)) < length q"
  by (cases q) (auto simp: heap_pop_def heap_peek_def js_nth_def Let_def)

end
