(* ===== verification/Web_Scheduler.thy ===== *)
theory Web_Scheduler
  imports Web_Heap
begin

text \<open>
  The cooperative task scheduler of the admin UI (\<open>web/bundle.js\<close>, lines 68 to 76: the module of
  the scheduler 0.19.1 the bundle carries). Its module variables are the record \<open>sched\<close> (\<open>L\<close> the
  task queue, \<open>R\<close> the timer queue, \<open>O\<close> the next id, \<open>M\<close> the current task, \<open>P\<close> the current priority,
  \<open>I\<close> performing work, \<open>N\<close> host callback scheduled, \<open>j\<close> host timeout scheduled), with the host side
  of the browser build (\<open>k\<close>, \<open>S\<close>, \<open>T\<close>, \<open>D\<close>, the messages posted to the channel, the timeouts set).
  Tasks are shared objects: the queues hold their ids and \<open>sc_tasks\<close> their fields.

  A time is a rational number, and every read of the clock takes the next value of the parameter
  \<open>clk\<close>. A callback is an opaque name; the parameter \<open>beh\<close> says what it does in a call: which
  operations of the scheduler it performs, whether it throws, and the continuation it returns.
\<close>

section \<open>State\<close>

record 'c task =
  tk_callback :: "'c option"
  tk_priority :: nat
  tk_start :: rat
  tk_expiration :: rat
  tk_sort :: rat

record 'c sched =
  sc_tasks :: "nat \<Rightarrow> 'c task"
  sc_queue :: "nat list"
  sc_timers :: "nat list"
  sc_next :: nat
  sc_current :: "nat option"
  sc_priority :: nat
  sc_performing :: bool
  sc_scheduled :: bool
  sc_timeout :: bool
  sc_host :: bool
  sc_running :: bool
  sc_deadline :: rat
  sc_interval :: rat
  sc_messages :: nat
  sc_timer :: "nat option"
  sc_pending :: "nat list"
  sc_handle :: nat
  sc_clock :: nat

definition task_blank :: "'c task" where
  "task_blank = \<lparr>tk_callback = None, tk_priority = 0, tk_start = 0, tk_expiration = 0, tk_sort = 0\<rparr>"

definition sched_init :: "'c sched" where
  "sched_init =
     \<lparr>sc_tasks = (\<lambda>_. task_blank), sc_queue = [], sc_timers = [], sc_next = 1, sc_current = None,
      sc_priority = 3, sc_performing = False, sc_scheduled = False, sc_timeout = False,
      sc_host = False, sc_running = False, sc_deadline = 0, sc_interval = 5, sc_messages = 0,
      sc_timer = None, sc_pending = [], sc_handle = 0, sc_clock = 0\<rparr>"

definition sort_cmp :: "(nat \<Rightarrow> 'c task) \<Rightarrow> nat \<Rightarrow> nat \<Rightarrow> rat" where
  "sort_cmp ts e t =
     (let n = tk_sort (ts e) - tk_sort (ts t) in
      if n \<noteq> 0 then n else of_nat e - of_nat t)"

definition task_update :: "nat \<Rightarrow> ('c task \<Rightarrow> 'c task) \<Rightarrow> 'c sched \<Rightarrow> 'c sched" where
  "task_update i f st = st\<lparr>sc_tasks := (sc_tasks st)(i := f (sc_tasks st i))\<rparr>"

section \<open>The host\<close>

definition unstable_now :: "(nat \<Rightarrow> rat) \<Rightarrow> 'c sched \<Rightarrow> rat \<times> 'c sched" where
  "unstable_now clk st = (clk (sc_clock st), st\<lparr>sc_clock := sc_clock st + 1\<rparr>)"

definition request_host_callback :: "'c sched \<Rightarrow> 'c sched" where
  "request_host_callback st =
     (let st1 = st\<lparr>sc_host := True\<rparr> in
      if sc_running st1 then st1
      else st1\<lparr>sc_running := True, sc_messages := sc_messages st1 + 1\<rparr>)"

text \<open>\<open>setTimeout\<close> returns a fresh handle; the delay only decides when the browser fires it.\<close>

definition request_host_timeout :: "'c sched \<Rightarrow> 'c sched" where
  "request_host_timeout st =
     st\<lparr>sc_timer := Some (sc_handle st), sc_pending := sc_handle st # sc_pending st,
        sc_handle := sc_handle st + 1\<rparr>"

definition cancel_host_timeout :: "'c sched \<Rightarrow> 'c sched" where
  "cancel_host_timeout st =
     st\<lparr>sc_pending :=
          (case sc_timer st of None \<Rightarrow> sc_pending st | Some t \<Rightarrow> removeAll t (sc_pending st)),
        sc_timer := None\<rparr>"

definition should_yield_to_host :: "(nat \<Rightarrow> rat) \<Rightarrow> 'c sched \<Rightarrow> bool \<times> 'c sched" where
  "should_yield_to_host clk st =
     (let (t, st1) = unstable_now clk st in (t \<ge> sc_deadline st1, st1))"

definition force_frame_rate :: "rat \<Rightarrow> 'c sched \<Rightarrow> 'c sched" where
  "force_frame_rate e st =
     (if 0 > e \<or> 125 < e then st
      else st\<lparr>sc_interval := (if 0 < e then of_int \<lfloor>1000 / e\<rfloor> else 5)\<rparr>)"

section \<open>Queues\<close>

definition queue_push :: "nat \<Rightarrow> 'c sched \<Rightarrow> 'c sched" where
  "queue_push i st = st\<lparr>sc_queue := heap_push (sort_cmp (sc_tasks st)) (sc_queue st) i\<rparr>"

definition queue_pop :: "'c sched \<Rightarrow> 'c sched" where
  "queue_pop st = st\<lparr>sc_queue := snd (heap_pop (sort_cmp (sc_tasks st)) (sc_queue st))\<rparr>"

definition timers_push :: "nat \<Rightarrow> 'c sched \<Rightarrow> 'c sched" where
  "timers_push i st = st\<lparr>sc_timers := heap_push (sort_cmp (sc_tasks st)) (sc_timers st) i\<rparr>"

definition timers_pop :: "'c sched \<Rightarrow> 'c sched" where
  "timers_pop st = st\<lparr>sc_timers := snd (heap_pop (sort_cmp (sc_tasks st)) (sc_timers st))\<rparr>"

function advance_timers :: "rat \<Rightarrow> 'c sched \<Rightarrow> 'c sched" where
  "advance_timers e st =
     (case heap_peek (sc_timers st) of
        None \<Rightarrow> st
      | Some t \<Rightarrow>
          if tk_callback (sc_tasks st t) = None then advance_timers e (timers_pop st)
          else if \<not> tk_start (sc_tasks st t) \<le> e then st
          else
            (let st1 = timers_pop st;
                 st2 = task_update t (\<lambda>k. k\<lparr>tk_sort := tk_expiration k\<rparr>) st1
             in advance_timers e (queue_push t st2)))"
  by pat_completeness auto
termination
  by (relation "measure (\<lambda>(e, st). length (sc_timers st))")
    (auto simp: timers_pop_def queue_push_def task_update_def length_heap_pop)

declare advance_timers.simps [simp del]

definition handle_timeout :: "rat \<Rightarrow> 'c sched \<Rightarrow> 'c sched" where
  "handle_timeout e st =
     (let st1 = advance_timers e (st\<lparr>sc_timeout := False\<rparr>) in
      if sc_scheduled st1 then st1
      else if heap_peek (sc_queue st1) \<noteq> None
      then request_host_callback (st1\<lparr>sc_scheduled := True\<rparr>)
      else
        (case heap_peek (sc_timers st1) of
           None \<Rightarrow> st1
         | Some t \<Rightarrow> request_host_timeout st1))"

section \<open>The operations of the interface\<close>

record schedule_options =
  so_delay :: "rat option"
  so_timeout :: "rat option"

definition priority_timeout :: "nat \<Rightarrow> rat" where
  "priority_timeout e =
     (if e = 1 then - 1 else if e = 2 then 250 else if e = 5 then 1073741823
      else if e = 4 then 10000 else 5000)"

definition schedule_callback ::
    "(nat \<Rightarrow> rat) \<Rightarrow> nat \<Rightarrow> 'c \<Rightarrow> schedule_options option \<Rightarrow> 'c sched \<Rightarrow> nat \<times> 'c sched" where
  "schedule_callback clk e n opts st0 =
     (let (s, st) = unstable_now clk st0;
          (a, timeout) =
            (case opts of
               None \<Rightarrow> (s, priority_timeout e)
             | Some o1 \<Rightarrow>
                 ((case so_delay o1 of Some d \<Rightarrow> if 0 < d then s + d else s | None \<Rightarrow> s),
                  (case so_timeout o1 of Some t \<Rightarrow> t | None \<Rightarrow> priority_timeout e)));
          i = sc_next st;
          tk = \<lparr>tk_callback = Some n, tk_priority = e, tk_start = a, tk_expiration = a + timeout,
                tk_sort = - 1\<rparr>;
          st1 = st\<lparr>sc_next := i + 1\<rparr>
      in
      if a > s then
        (let st2 = timers_push i (task_update i (\<lambda>_. tk\<lparr>tk_sort := a\<rparr>) st1) in
         if heap_peek (sc_queue st2) = None \<and> heap_peek (sc_timers st2) = Some i then
           (let st3 = (if sc_timeout st2 then cancel_host_timeout st2 else st2\<lparr>sc_timeout := True\<rparr>)
            in (i, request_host_timeout st3))
         else (i, st2))
      else
        (let st2 = queue_push i (task_update i (\<lambda>_. tk\<lparr>tk_sort := a + timeout\<rparr>) st1) in
         if sc_scheduled st2 \<or> sc_performing st2 then (i, st2)
         else (i, request_host_callback (st2\<lparr>sc_scheduled := True\<rparr>))))"

definition cancel_callback :: "nat \<Rightarrow> 'c sched \<Rightarrow> 'c sched" where
  "cancel_callback e st = task_update e (\<lambda>k. k\<lparr>tk_callback := None\<rparr>) st"

definition continue_execution :: "'c sched \<Rightarrow> 'c sched" where
  "continue_execution st =
     (if sc_scheduled st \<or> sc_performing st then st
      else request_host_callback (st\<lparr>sc_scheduled := True\<rparr>))"

definition get_current_priority :: "'c sched \<Rightarrow> nat" where
  "get_current_priority st = sc_priority st"

definition get_first_callback_node :: "'c sched \<Rightarrow> nat option" where
  "get_first_callback_node st = heap_peek (sc_queue st)"

definition sched_should_yield :: "(nat \<Rightarrow> rat) \<Rightarrow> 'c sched \<Rightarrow> bool \<times> 'c sched" where
  "sched_should_yield clk st =
     (let (e, st1) = unstable_now clk st;
          st2 = advance_timers e st1
      in
      if (case (heap_peek (sc_queue st2), sc_current st2) of
            (Some n, Some m) \<Rightarrow>
              n \<noteq> m \<and> tk_callback (sc_tasks st2 n) \<noteq> None \<and> tk_start (sc_tasks st2 n) \<le> e \<and>
              tk_expiration (sc_tasks st2 n) < tk_expiration (sc_tasks st2 m)
          | _ \<Rightarrow> False)
      then (True, st2)
      else should_yield_to_host clk st2)"

text \<open>
  \<open>runWithPriority\<close>, \<open>next\<close> and a wrapped callback run a function under another priority, with the
  old one restored by a \<open>finally\<close>. The function is a state transformer that may throw (\<open>True\<close>).
\<close>

definition with_priority ::
    "nat \<Rightarrow> ('c sched \<Rightarrow> bool \<times> 'c sched) \<Rightarrow> 'c sched \<Rightarrow> bool \<times> 'c sched" where
  "with_priority e body st =
     (let n = sc_priority st; (threw, st1) = body (st\<lparr>sc_priority := e\<rparr>)
      in (threw, st1\<lparr>sc_priority := n\<rparr>))"

definition run_with_priority ::
    "nat \<Rightarrow> ('c sched \<Rightarrow> bool \<times> 'c sched) \<Rightarrow> 'c sched \<Rightarrow> bool \<times> 'c sched" where
  "run_with_priority e body st = with_priority (if e \<in> {1, 2, 3, 4, 5} then e else 3) body st"

definition sched_next :: "('c sched \<Rightarrow> bool \<times> 'c sched) \<Rightarrow> 'c sched \<Rightarrow> bool \<times> 'c sched" where
  "sched_next body st =
     with_priority (if sc_priority st \<in> {1, 2, 3} then 3 else sc_priority st) body st"

definition wrap_callback ::
    "'c sched \<Rightarrow> ('c sched \<Rightarrow> bool \<times> 'c sched) \<Rightarrow> 'c sched \<Rightarrow> bool \<times> 'c sched" where
  "wrap_callback st0 body = with_priority (sc_priority st0) body"

section \<open>What a callback does\<close>

datatype 'c api =
  ApiSchedule nat 'c "schedule_options option"
| ApiCancel nat
| ApiContinue
| ApiShouldYield
| ApiNow
| ApiRunWithPriority nat "'c api list"
| ApiNext "'c api list"
| ApiThrow

fun exec_api :: "(nat \<Rightarrow> rat) \<Rightarrow> 'c api \<Rightarrow> 'c sched \<Rightarrow> bool \<times> 'c sched"
  and exec_apis :: "(nat \<Rightarrow> rat) \<Rightarrow> 'c api list \<Rightarrow> 'c sched \<Rightarrow> bool \<times> 'c sched" where
  "exec_api clk (ApiSchedule e n opts) st = (False, snd (schedule_callback clk e n opts st))"
| "exec_api clk (ApiCancel e) st = (False, cancel_callback e st)"
| "exec_api clk ApiContinue st = (False, continue_execution st)"
| "exec_api clk ApiShouldYield st = (False, snd (sched_should_yield clk st))"
| "exec_api clk ApiNow st = (False, snd (unstable_now clk st))"
| "exec_api clk (ApiRunWithPriority e body) st = run_with_priority e (exec_apis clk body) st"
| "exec_api clk (ApiNext body) st = sched_next (exec_apis clk body) st"
| "exec_api clk ApiThrow st = (True, st)"
| "exec_apis clk [] st = (False, st)"
| "exec_apis clk (a # as) st =
     (let (threw, st1) = exec_api clk a st in
      if threw then (True, st1) else exec_apis clk as st1)"

text \<open>A call of a callback: what it does, then the continuation it returns, if any.\<close>

type_synonym 'c behaviour = "nat \<Rightarrow> 'c \<Rightarrow> bool \<Rightarrow> 'c api list \<times> 'c option"

section \<open>Performing work\<close>

text \<open>
  \<open>work_loop\<close> is the loop of \<open>flushWork\<close>; it returns whether a callback threw. It may run for ever
  (a callback may always schedule more), hence the fuel.
\<close>

definition run_task ::
    "(nat \<Rightarrow> rat) \<Rightarrow> 'c behaviour \<Rightarrow> rat \<Rightarrow> nat \<Rightarrow> 'c \<Rightarrow> 'c sched \<Rightarrow> bool \<times> rat \<times> 'c sched" where
  "run_task clk beh n m s st =
     (let st1 = task_update m (\<lambda>k. k\<lparr>tk_callback := None\<rparr>) st;
          st2 = st1\<lparr>sc_priority := tk_priority (sc_tasks st1 m)\<rparr>;
          (acts, cont) = beh (sc_clock st2) s (tk_expiration (sc_tasks st2 m) \<le> n);
          (threw, st3) = exec_apis clk acts st2
      in
      if threw then (True, n, st3)
      else
        (let (n1, st4) = unstable_now clk st3;
             st5 = (case cont of
                      Some c \<Rightarrow> task_update m (\<lambda>k. k\<lparr>tk_callback := Some c\<rparr>) st4
                    | None \<Rightarrow> if heap_peek (sc_queue st4) = Some m then queue_pop st4 else st4)
         in (False, n1, advance_timers n1 st5)))"

definition work_guard ::
    "(nat \<Rightarrow> rat) \<Rightarrow> bool \<Rightarrow> rat \<Rightarrow> nat \<Rightarrow> 'c sched \<Rightarrow> bool \<times> 'c sched" where
  "work_guard clk e n m st =
     (if \<not> tk_expiration (sc_tasks st m) > n then (True, st)
      else if e then (let (y, st1) = should_yield_to_host clk st in (\<not> y, st1))
      else (False, st))"

fun work_loop ::
    "nat \<Rightarrow> (nat \<Rightarrow> rat) \<Rightarrow> 'c behaviour \<Rightarrow> bool \<Rightarrow> rat \<Rightarrow> 'c sched \<Rightarrow> (bool \<times> rat \<times> 'c sched) option"
  where
  "work_loop 0 clk beh e n st = None"
| "work_loop (Suc fuel) clk beh e n st0 =
     (let st = st0\<lparr>sc_current := heap_peek (sc_queue st0)\<rparr> in
      case sc_current st of
        None \<Rightarrow> Some (False, n, st)
      | Some m \<Rightarrow>
          (let (go, st1) = work_guard clk e n m st in
           if \<not> go then Some (False, n, st1)
           else
             (case tk_callback (sc_tasks st1 m) of
                None \<Rightarrow> work_loop fuel clk beh e n (queue_pop st1)
              | Some s \<Rightarrow>
                  (let (threw, n1, st2) = run_task clk beh n m s st1 in
                   if threw then Some (True, n1, st2) else work_loop fuel clk beh e n1 st2))))"

text \<open>\<open>flushWork\<close>: whether it threw, and otherwise whether there is more work.\<close>

definition flush_work ::
    "nat \<Rightarrow> (nat \<Rightarrow> rat) \<Rightarrow> 'c behaviour \<Rightarrow> bool \<Rightarrow> rat \<Rightarrow> 'c sched \<Rightarrow> (bool \<times> bool \<times> 'c sched) option"
  where
  "flush_work fuel clk beh e n st =
     (let st1 = st\<lparr>sc_scheduled := False\<rparr>;
          st2 = (if sc_timeout st1 then cancel_host_timeout (st1\<lparr>sc_timeout := False\<rparr>) else st1);
          st3 = st2\<lparr>sc_performing := True\<rparr>;
          i = sc_priority st3;
          finish = (\<lambda>s. s\<lparr>sc_current := None, sc_priority := i, sc_performing := False\<rparr>)
      in
      case work_loop fuel clk beh e n (advance_timers n st3) of
        None \<Rightarrow> None
      | Some (threw, n1, st4) \<Rightarrow>
          if threw then Some (True, True, finish st4)
          else if sc_current st4 \<noteq> None then Some (False, True, finish st4)
          else
            Some (False, False,
              finish (case heap_peek (sc_timers st4) of
                        None \<Rightarrow> st4 | Some h \<Rightarrow> request_host_timeout st4)))"

text \<open>The handler of a message of the channel.\<close>

definition perform_work ::
    "nat \<Rightarrow> (nat \<Rightarrow> rat) \<Rightarrow> 'c behaviour \<Rightarrow> 'c sched \<Rightarrow> 'c sched option" where
  "perform_work fuel clk beh st =
     (if sc_host st then
        (let (e, st1) = unstable_now clk st;
             st2 = st1\<lparr>sc_deadline := e + sc_interval st1\<rparr>
         in
         case flush_work fuel clk beh True e st2 of
           None \<Rightarrow> None
         | Some (threw, again, st3) \<Rightarrow>
             if threw \<or> again then Some (st3\<lparr>sc_messages := sc_messages st3 + 1\<rparr>)
             else Some (st3\<lparr>sc_running := False, sc_host := False\<rparr>))
      else Some (st\<lparr>sc_running := False\<rparr>))"

definition fire_timer :: "(nat \<Rightarrow> rat) \<Rightarrow> nat \<Rightarrow> 'c sched \<Rightarrow> 'c sched" where
  "fire_timer clk h st =
     (let st1 = st\<lparr>sc_pending := removeAll h (sc_pending st)\<rparr>; (e, st2) = unstable_now clk st1
      in handle_timeout e st2)"

text \<open>
  What the browser does to the scheduler: code outside a callback uses the interface, a message of
  the channel is delivered, a timeout fires.
\<close>

inductive sched_reach :: "(nat \<Rightarrow> rat) \<Rightarrow> 'c behaviour \<Rightarrow> 'c sched \<Rightarrow> bool" for clk beh where
  reach_init: "sched_reach clk beh sched_init"
| reach_api: "sched_reach clk beh st \<Longrightarrow> sched_reach clk beh (snd (exec_apis clk as st))"
| reach_message: "sched_reach clk beh st \<Longrightarrow> 0 < sc_messages st \<Longrightarrow>
    perform_work fuel clk beh (st\<lparr>sc_messages := sc_messages st - 1\<rparr>) = Some st' \<Longrightarrow>
    sched_reach clk beh st'"
| reach_timer: "sched_reach clk beh st \<Longrightarrow> h \<in> set (sc_pending st) \<Longrightarrow>
    sched_reach clk beh (fire_timer clk h st)"

section \<open>The order of the tasks\<close>

lemma sort_cmp_le:
  "sort_cmp ts a b \<le> 0 \<longleftrightarrow>
     tk_sort (ts a) < tk_sort (ts b) \<or> tk_sort (ts a) = tk_sort (ts b) \<and> a \<le> b"
  by (auto simp: sort_cmp_def Let_def)

interpretation task_order: comparison "sort_cmp ts" for ts
proof
  show "sort_cmp ts x y = - sort_cmp ts y x" for x y
    by (simp add: sort_cmp_def Let_def)
  show "sort_cmp ts x y \<le> 0 \<Longrightarrow> sort_cmp ts y z \<le> 0 \<Longrightarrow> sort_cmp ts x z \<le> 0" for x y z
    unfolding sort_cmp_le by auto
qed

lemma heap_ordered_sort_cong:
  assumes "\<And>i. i \<in> set xs \<Longrightarrow> tk_sort (ts i) = tk_sort (ts' i)"
  shows "heap_ordered (sort_cmp ts) xs = heap_ordered (sort_cmp ts') xs"
proof -
  have "sort_cmp ts (xs ! heap_parent k) (xs ! k) = sort_cmp ts' (xs ! heap_parent k) (xs ! k)"
    if "k < length xs" for k
  proof -
    have "heap_parent k < length xs" using that by (simp add: heap_parent_def)
    then show ?thesis using assms that by (simp add: sort_cmp_def)
  qed
  then show ?thesis unfolding heap_ordered_def by simp
qed

lemma heap_ordered_sort_upd [simp]:
  "i \<notin> set xs \<Longrightarrow> heap_ordered (sort_cmp (ts(i := k))) xs = heap_ordered (sort_cmp ts) xs"
  by (rule heap_ordered_sort_cong) auto

section \<open>Well-formed queues\<close>

text \<open>
  Both queues are heaps without repetition and disjoint; a queued task carries the key of its
  queue; every task with a callback is queued; a task of the task queue has reached its start time.
\<close>

definition queues_wf ::
    "(nat \<Rightarrow> rat) \<Rightarrow> nat \<Rightarrow> (nat \<Rightarrow> 'c task) \<Rightarrow> nat list \<Rightarrow> nat list \<Rightarrow> nat \<Rightarrow> bool" where
  "queues_wf clk c ts L R nx \<longleftrightarrow>
     heap_ordered (sort_cmp ts) L \<and> heap_ordered (sort_cmp ts) R \<and> distinct L \<and> distinct R \<and>
     set L \<inter> set R = {} \<and> (\<forall>i \<in> set L \<union> set R. i < nx) \<and>
     (\<forall>i \<in> set L. tk_sort (ts i) = tk_expiration (ts i) \<and> (\<exists>k < c. tk_start (ts i) \<le> clk k)) \<and>
     (\<forall>i \<in> set R. tk_sort (ts i) = tk_start (ts i)) \<and>
     (\<forall>i. tk_callback (ts i) \<noteq> None \<longrightarrow> i \<in> set L \<union> set R)"

definition sched_wf :: "(nat \<Rightarrow> rat) \<Rightarrow> 'c sched \<Rightarrow> bool" where
  "sched_wf clk st \<longleftrightarrow>
     queues_wf clk (sc_clock st) (sc_tasks st) (sc_queue st) (sc_timers st) (sc_next st)"

lemma queues_wf_clock: "queues_wf clk c ts L R nx \<Longrightarrow> c \<le> c' \<Longrightarrow> queues_wf clk c' ts L R nx"
  unfolding queues_wf_def by (meson order_less_le_trans)

lemma queues_wfD:
  assumes "queues_wf clk c ts L R nx"
  shows "heap_ordered (sort_cmp ts) L" "heap_ordered (sort_cmp ts) R" "distinct L" "distinct R"
    "set L \<inter> set R = {}" "i \<in> set L \<Longrightarrow> i < nx" "i \<in> set R \<Longrightarrow> i < nx"
    "i \<in> set L \<Longrightarrow> tk_sort (ts i) = tk_expiration (ts i)"
    "i \<in> set L \<Longrightarrow> \<exists>k < c. tk_start (ts i) \<le> clk k"
    "i \<in> set R \<Longrightarrow> tk_sort (ts i) = tk_start (ts i)"
    "tk_callback (ts i) \<noteq> None \<Longrightarrow> i \<in> set L \<union> set R"
  using assms unfolding queues_wf_def by auto

text \<open>A change of callbacks only, of tasks that are queued or get none.\<close>

lemma queues_wf_callback:
  assumes wf: "queues_wf clk c ts L R nx" and f: "\<And>k. tk_sort (f k) = tk_sort k"
      "\<And>k. tk_expiration (f k) = tk_expiration k" "\<And>k. tk_start (f k) = tk_start k"
    and q: "tk_callback (f (ts i)) = None \<or> i \<in> set L \<union> set R"
  shows "queues_wf clk c (ts(i := f (ts i))) L R nx"
proof -
  let ?ts = "ts(i := f (ts i))"
  have h: "heap_ordered (sort_cmp ?ts) xs = heap_ordered (sort_cmp ts) xs" for xs
    by (rule heap_ordered_sort_cong) (simp add: f)
  show ?thesis
    using wf q unfolding queues_wf_def h by (auto simp: f)
qed

lemma queues_wf_pop_queue:
  assumes wf: "queues_wf clk c ts L R nx" and p: "heap_peek L = Some m" and cb: "tk_callback (ts m) = None"
  shows "queues_wf clk c ts (snd (heap_pop (sort_cmp ts) L)) R nx"
proof -
  note d = queues_wfD [OF wf]
  note s = task_order.heap.pop_set [OF d(1,3) p]
  show ?thesis
    unfolding queues_wf_def
    using d(2,4,5) task_order.heap.pop_ordered [OF d(1,3)] task_order.heap.pop_distinct [OF d(1,3) p] d(6-11) cb
    unfolding s by (intro conjI ballI allI impI) (auto, metis)
qed

lemma queues_wf_pop_timers:
  assumes wf: "queues_wf clk c ts L R nx" and p: "heap_peek R = Some m" and cb: "tk_callback (ts m) = None"
  shows "queues_wf clk c ts L (snd (heap_pop (sort_cmp ts) R)) nx"
proof -
  note d = queues_wfD [OF wf]
  note s = task_order.heap.pop_set [OF d(2,4) p]
  show ?thesis
    unfolding queues_wf_def
    using d(1,3,5) task_order.heap.pop_ordered [OF d(2,4)] task_order.heap.pop_distinct [OF d(2,4) p] d(6-11) cb
    unfolding s by (intro conjI ballI allI impI) (auto, metis)
qed

text \<open>A due timer moves to the task queue under its expiration time.\<close>

lemma queues_wf_promote:
  assumes wf: "queues_wf clk c ts L R nx" and p: "heap_peek R = Some t"
    and due: "\<exists>k < c. tk_start (ts t) \<le> clk k"
    and ts': "ts' = ts(t := (ts t)\<lparr>tk_sort := tk_expiration (ts t)\<rparr>)"
  shows "queues_wf clk c ts' (heap_push (sort_cmp ts') L t) (snd (heap_pop (sort_cmp ts) R)) nx"
proof -
  note d = queues_wfD [OF wf]
  let ?R = "snd (heap_pop (sort_cmp ts) R)"
  note s = task_order.heap.pop_set [OF d(2,4) p]
  have t: "t \<in> set R" by (rule task_order.heap.peek_mem [OF d(2,4) p])
  then have tL: "t \<notin> set L" using d(5) by auto
  have "heap_ordered (sort_cmp ts') L"
    using d(1) tL by (simp add: ts')
  then have hL: "heap_ordered (sort_cmp ts') (heap_push (sort_cmp ts') L t)"
    by (rule task_order.heap.push_ordered)
  have "heap_ordered (sort_cmp ts) ?R" by (rule task_order.heap.pop_ordered [OF d(2,4)])
  then have hR: "heap_ordered (sort_cmp ts') ?R"
    using s by (simp add: ts')
  show ?thesis
    unfolding queues_wf_def task_order.heap.set_push task_order.heap.distinct_push s
    using hL hR d(3) task_order.heap.pop_distinct [OF d(2,4) p] d(5-11) tL t due
    by (intro conjI ballI allI impI) (auto simp: ts' split: if_splits)
qed

text \<open>A new task enters one of the queues under its key.\<close>

lemma queues_wf_new:
  assumes wf: "queues_wf clk c ts L R nx"
  shows "tk_sort k = tk_expiration k \<Longrightarrow> \<exists>j < c. tk_start k \<le> clk j \<Longrightarrow> ts' = ts(nx := k) \<Longrightarrow>
      queues_wf clk c ts' (heap_push (sort_cmp ts') L nx) R (nx + 1)"
    and "tk_sort k = tk_start k \<Longrightarrow> ts' = ts(nx := k) \<Longrightarrow>
      queues_wf clk c ts' L (heap_push (sort_cmp ts') R nx) (nx + 1)"
proof -
  note d = queues_wfD [OF wf]
  have f: "nx \<notin> set L" "nx \<notin> set R" using d(6,7) by blast+
  have h: "heap_ordered (sort_cmp ts') L" "heap_ordered (sort_cmp ts') R" if "ts' = ts(nx := k)" for ts'
    using d(1,2) f that by simp_all
  have lt: "\<And>i. i \<in> set L \<union> set R \<Longrightarrow> i < nx + 1" using d(6,7) by fastforce
  show "queues_wf clk c ts' (heap_push (sort_cmp ts') L nx) R (nx + 1)"
    if "tk_sort k = tk_expiration k" "\<exists>j < c. tk_start k \<le> clk j" "ts' = ts(nx := k)"
    unfolding queues_wf_def task_order.heap.set_push task_order.heap.distinct_push
    using task_order.heap.push_ordered [OF h(1) [OF that(3)]] h(2) [OF that(3)] d(3-5,8-11) f that lt
    by (intro conjI ballI allI impI) (auto split: if_splits)
  show "queues_wf clk c ts' L (heap_push (sort_cmp ts') R nx) (nx + 1)"
    if "tk_sort k = tk_start k" "ts' = ts(nx := k)"
    unfolding queues_wf_def task_order.heap.set_push task_order.heap.distinct_push
    using task_order.heap.push_ordered [OF h(2) [OF that(2)]] h(1) [OF that(2)] d(3-5,8-11) f that lt
    by (intro conjI ballI allI impI) (auto split: if_splits)
qed

section \<open>Advancing the timers\<close>

text \<open>
  What \<open>advanceTimers\<close> leaves alone: every field but the queues and the sort keys.
\<close>

definition same_task :: "'c task \<Rightarrow> 'c task \<Rightarrow> bool" where
  "same_task k k' \<longleftrightarrow> k' = k\<lparr>tk_sort := tk_sort k'\<rparr>"

lemma same_task_simps:
  assumes "same_task k k'"
  shows "tk_callback k' = tk_callback k" "tk_priority k' = tk_priority k"
    "tk_start k' = tk_start k" "tk_expiration k' = tk_expiration k"
  using assms unfolding same_task_def by (cases k; cases k'; simp)+

lemma same_task_refl [simp]: "same_task k k"
  by (simp add: same_task_def)

lemma same_task_trans: "same_task k k' \<Longrightarrow> same_task k' k'' \<Longrightarrow> same_task k k''"
  unfolding same_task_def by (cases k; cases k'; cases k''; simp)

definition advanced :: "'c sched \<Rightarrow> 'c sched \<Rightarrow> bool" where
  "advanced st st' \<longleftrightarrow>
     st' = st\<lparr>sc_tasks := sc_tasks st', sc_queue := sc_queue st', sc_timers := sc_timers st'\<rparr> \<and>
     (\<forall>i. same_task (sc_tasks st i) (sc_tasks st' i)) \<and>
     set (sc_queue st) \<subseteq> set (sc_queue st') \<and>
     set (sc_queue st') \<subseteq> set (sc_queue st) \<union> set (sc_timers st) \<and>
     set (sc_timers st') \<subseteq> set (sc_timers st)"

lemma advanced_refl [simp]: "advanced st st"
  by (simp add: advanced_def)

lemma advanced_trans:
  assumes 1: "advanced st st'" and 2: "advanced st' st''"
  shows "advanced st st''"
proof -
  have "st'' = st\<lparr>sc_tasks := sc_tasks st'', sc_queue := sc_queue st'', sc_timers := sc_timers st''\<rparr>"
    using 1 2 unfolding advanced_def by (cases st; cases st'; cases st''; simp)
  moreover have "\<forall>i. same_task (sc_tasks st i) (sc_tasks st'' i)"
    using 1 2 same_task_trans unfolding advanced_def by blast
  moreover have "set (sc_queue st) \<subseteq> set (sc_queue st'')"
    "set (sc_queue st'') \<subseteq> set (sc_queue st) \<union> set (sc_timers st)"
    "set (sc_timers st'') \<subseteq> set (sc_timers st)"
    using 1 2 unfolding advanced_def by blast+
  ultimately show ?thesis unfolding advanced_def by blast
qed

lemma timers_pop_ok:
  assumes wf: "sched_wf clk st" and p: "heap_peek (sc_timers st) = Some t"
    and cb: "tk_callback (sc_tasks st t) = None"
  shows "sched_wf clk (timers_pop st)" "advanced st (timers_pop st)"
proof -
  note w = wf [unfolded sched_wf_def]
  show "sched_wf clk (timers_pop st)"
    using queues_wf_pop_timers [OF w p cb] by (simp add: sched_wf_def timers_pop_def)
  show "advanced st (timers_pop st)"
    using task_order.heap.pop_set [OF queues_wfD(2) [OF w] queues_wfD(4) [OF w] p]
    by (auto simp: advanced_def timers_pop_def)
qed

definition promote :: "nat \<Rightarrow> 'c sched \<Rightarrow> 'c sched" where
  "promote t st = queue_push t (task_update t (\<lambda>k. k\<lparr>tk_sort := tk_expiration k\<rparr>) (timers_pop st))"

lemma promote_ok:
  assumes wf: "sched_wf clk st" and p: "heap_peek (sc_timers st) = Some t"
    and due: "\<exists>k < sc_clock st. tk_start (sc_tasks st t) \<le> clk k"
  shows "sched_wf clk (promote t st)" "advanced st (promote t st)"
proof -
  note w = wf [unfolded sched_wf_def]
  note d = queues_wfD(2,4) [OF w]
  show "sched_wf clk (promote t st)"
    using queues_wf_promote [OF w p due refl]
    by (simp add: sched_wf_def promote_def queue_push_def task_update_def timers_pop_def)
  show "advanced st (promote t st)"
    using task_order.heap.pop_set [OF d p] task_order.heap.peek_mem [OF d p]
    by (auto simp: advanced_def promote_def queue_push_def task_update_def timers_pop_def same_task_def)
qed

lemma advance_timers_ok:
  assumes "sched_wf clk st" "\<exists>k < sc_clock st. e \<le> clk k"
  shows "sched_wf clk (advance_timers e st) \<and> advanced st (advance_timers e st)"
  using assms
proof (induction e st rule: advance_timers.induct)
  case (1 e st)
  show ?case
  proof (cases "heap_peek (sc_timers st)")
    case None
    then show ?thesis using 1(3) by (simp add: advance_timers.simps [of e st])
  next
    case (Some t)
    consider "tk_callback (sc_tasks st t) = None"
      | "tk_callback (sc_tasks st t) \<noteq> None" "\<not> tk_start (sc_tasks st t) \<le> e"
      | "tk_callback (sc_tasks st t) \<noteq> None" "tk_start (sc_tasks st t) \<le> e" by blast
    then show ?thesis
    proof cases
      case 1
      note ok = timers_pop_ok [OF "1.prems"(1) Some 1]
      have "sc_clock (timers_pop st) = sc_clock st" by (simp add: timers_pop_def)
      then have "sched_wf clk (advance_timers e (timers_pop st)) \<and>
          advanced (timers_pop st) (advance_timers e (timers_pop st))"
        using "1.IH"(1) [OF Some 1 ok(1)] "1.prems"(2) by simp
      then show ?thesis
        using ok(2) advanced_trans Some 1 by (auto simp: advance_timers.simps [of e st])
    next
      case 2
      then show ?thesis using Some "1.prems" by (auto simp: advance_timers.simps [of e st])
    next
      case 3
      have due: "\<exists>k < sc_clock st. tk_start (sc_tasks st t) \<le> clk k"
        using 3(2) "1.prems"(2) by (meson order_trans)
      note ok = promote_ok [OF "1.prems"(1) Some due]
      have "sc_clock (promote t st) = sc_clock st"
        by (simp add: promote_def queue_push_def task_update_def timers_pop_def)
      then have "sched_wf clk (advance_timers e (promote t st)) \<and>
          advanced (promote t st) (advance_timers e (promote t st))"
        using "1.IH"(2) [OF Some 3(1) _ refl refl] 3(2) ok(1) "1.prems"(2) by (simp add: promote_def)
      then show ?thesis
        using ok(2) advanced_trans Some 3 by (auto simp: advance_timers.simps [of e st] promote_def Let_def)
    qed
  qed
qed

lemma advanced_frame:
  assumes "advanced st st'"
  shows "sc_next st' = sc_next st" "sc_current st' = sc_current st" "sc_priority st' = sc_priority st"
    "sc_performing st' = sc_performing st" "sc_scheduled st' = sc_scheduled st"
    "sc_timeout st' = sc_timeout st" "sc_host st' = sc_host st" "sc_running st' = sc_running st"
    "sc_deadline st' = sc_deadline st" "sc_interval st' = sc_interval st"
    "sc_messages st' = sc_messages st" "sc_timer st' = sc_timer st" "sc_pending st' = sc_pending st"
    "sc_handle st' = sc_handle st" "sc_clock st' = sc_clock st"
  using assms unfolding advanced_def by (cases st; cases st'; simp)+

section \<open>The invariant of the host\<close>

text \<open>
  Outside a callback: one message is outstanding exactly when the message loop runs; whenever a
  task is queued, a message that will perform work or a timeout is outstanding.
\<close>

definition owed :: "'c sched \<Rightarrow> bool" where
  "owed st \<longleftrightarrow> sc_host st \<and> 0 < sc_messages st \<or> sc_pending st \<noteq> []"

definition idle_inv :: "(nat \<Rightarrow> rat) \<Rightarrow> 'c sched \<Rightarrow> bool" where
  "idle_inv clk st \<longleftrightarrow>
     sched_wf clk st \<and> \<not> sc_performing st \<and> sc_current st = None \<and>
     sc_messages st = (if sc_running st then 1 else 0) \<and> (sc_host st \<longrightarrow> sc_running st) \<and>
     (sc_scheduled st \<longrightarrow> sc_host st) \<and>
     (sc_queue st \<noteq> [] \<or> sc_timers st \<noteq> [] \<longrightarrow> owed st)"

text \<open>Inside \<open>flushWork\<close>: the message that is handled is gone, and none is posted.\<close>

definition busy_inv :: "(nat \<Rightarrow> rat) \<Rightarrow> 'c sched \<Rightarrow> bool" where
  "busy_inv clk st \<longleftrightarrow>
     sched_wf clk st \<and> sc_performing st \<and> sc_messages st = 0 \<and> sc_running st \<and> sc_host st \<and>
     \<not> sc_scheduled st"

lemma now_wf [simp]: "sched_wf clk st \<Longrightarrow> sched_wf clk (snd (unstable_now clk st))"
  unfolding sched_wf_def unstable_now_def by (auto intro: queues_wf_clock)

lemma now_invs [simp]:
  "idle_inv clk st \<Longrightarrow> idle_inv clk (snd (unstable_now clk st))"
  "busy_inv clk st \<Longrightarrow> busy_inv clk (snd (unstable_now clk st))"
  using now_wf [of clk st]
  by (auto simp: idle_inv_def busy_inv_def owed_def unstable_now_def)

lemma advance_invs:
  assumes "\<exists>k < sc_clock st. e \<le> clk k"
  shows "idle_inv clk st \<Longrightarrow> idle_inv clk (advance_timers e st)"
    and "busy_inv clk st \<Longrightarrow> busy_inv clk (advance_timers e st)"
proof -
  assume i: "idle_inv clk st"
  then have "sched_wf clk st" by (simp add: idle_inv_def)
  note a = advance_timers_ok [OF this assms]
  note f = advanced_frame [OF conjunct2 [OF a]]
  have "sc_queue (advance_timers e st) \<noteq> [] \<or> sc_timers (advance_timers e st) \<noteq> [] \<Longrightarrow>
      sc_queue st \<noteq> [] \<or> sc_timers st \<noteq> []"
    using a unfolding advanced_def by (metis Un_empty set_empty subset_empty)
  then show "idle_inv clk (advance_timers e st)"
    using i a by (auto simp: idle_inv_def owed_def f)
next
  assume b: "busy_inv clk st"
  then have "sched_wf clk st" by (simp add: busy_inv_def)
  note a = advance_timers_ok [OF this assms]
  show "busy_inv clk (advance_timers e st)"
    using b a by (simp add: busy_inv_def advanced_frame [OF conjunct2 [OF a]])
qed

lemma cancel_invs:
  "sched_wf clk st \<Longrightarrow> sched_wf clk (cancel_callback e st)"
  "idle_inv clk st \<Longrightarrow> idle_inv clk (cancel_callback e st)"
  "busy_inv clk st \<Longrightarrow> busy_inv clk (cancel_callback e st)"
proof -
  show w: "sched_wf clk st \<Longrightarrow> sched_wf clk (cancel_callback e st)"
    using queues_wf_callback [of clk _ _ _ _ _ "\<lambda>k. k\<lparr>tk_callback := None\<rparr>" e]
    by (simp add: sched_wf_def cancel_callback_def task_update_def)
  show "idle_inv clk st \<Longrightarrow> idle_inv clk (cancel_callback e st)"
    "busy_inv clk st \<Longrightarrow> busy_inv clk (cancel_callback e st)"
    using w by (auto simp: idle_inv_def busy_inv_def owed_def cancel_callback_def task_update_def)
qed

lemma request_host_callback_frame [simp]:
  "sc_tasks (request_host_callback st) = sc_tasks st" "sc_queue (request_host_callback st) = sc_queue st"
  "sc_timers (request_host_callback st) = sc_timers st" "sc_next (request_host_callback st) = sc_next st"
  "sc_clock (request_host_callback st) = sc_clock st" "sc_host (request_host_callback st)"
  "sc_running (request_host_callback st)" "sc_pending (request_host_callback st) = sc_pending st"
  "sc_performing (request_host_callback st) = sc_performing st"
  "sc_current (request_host_callback st) = sc_current st"
  "sc_scheduled (request_host_callback st) = sc_scheduled st"
  "sched_wf clk (request_host_callback st) = sched_wf clk st"
  by (simp_all add: request_host_callback_def Let_def sched_wf_def)

text \<open>Asking the host for a turn establishes what is owed.\<close>

lemma request_host_callback_idle:
  assumes "sched_wf clk st" "\<not> sc_performing st" "sc_current st = None"
    "sc_messages st = (if sc_running st then 1 else 0)"
  shows "idle_inv clk (request_host_callback st)"
proof -
  have "sc_messages (request_host_callback st) = 1"
    using assms(4) by (simp add: request_host_callback_def Let_def)
  then show ?thesis using assms by (simp add: idle_inv_def owed_def)
qed

lemma continue_invs:
  "idle_inv clk st \<Longrightarrow> idle_inv clk (continue_execution st)"
  "busy_inv clk st \<Longrightarrow> busy_inv clk (continue_execution st)"
proof -
  assume i: "idle_inv clk st"
  show "idle_inv clk (continue_execution st)"
  proof (cases "sc_scheduled st")
    case False
    then show ?thesis
      using i request_host_callback_idle [of clk "st\<lparr>sc_scheduled := True\<rparr>"]
      by (simp add: continue_execution_def idle_inv_def sched_wf_def)
  qed (use i in \<open>simp add: continue_execution_def\<close>)
next
  show "busy_inv clk st \<Longrightarrow> busy_inv clk (continue_execution st)"
    by (simp add: continue_execution_def busy_inv_def)
qed

lemma yield_invs:
  "idle_inv clk st \<Longrightarrow> idle_inv clk (snd (sched_should_yield clk st))"
  "busy_inv clk st \<Longrightarrow> busy_inv clk (snd (sched_should_yield clk st))"
proof -
  define e where "e = fst (unstable_now clk st)"
  define st1 where "st1 = snd (unstable_now clk st)"
  have e: "\<exists>k < sc_clock st1. e \<le> clk k"
    unfolding e_def st1_def unstable_now_def by (rule exI [of _ "sc_clock st"]) simp
  have y: "snd (sched_should_yield clk st) = advance_timers e st1 \<or>
      snd (sched_should_yield clk st) = snd (unstable_now clk (advance_timers e st1))"
    by (simp add: sched_should_yield_def should_yield_to_host_def e_def st1_def Let_def split_beta)
  show "idle_inv clk st \<Longrightarrow> idle_inv clk (snd (sched_should_yield clk st))"
    using y advance_invs(1) [OF e] by (auto simp: st1_def)
  show "busy_inv clk st \<Longrightarrow> busy_inv clk (snd (sched_should_yield clk st))"
    using y advance_invs(2) [OF e] by (auto simp: st1_def)
qed

text \<open>The task a call of \<open>scheduleCallback\<close> creates, and whether it is delayed.\<close>

definition new_task :: "rat \<Rightarrow> nat \<Rightarrow> 'c \<Rightarrow> schedule_options option \<Rightarrow> 'c task" where
  "new_task s e n opts =
     (let a = (case opts of None \<Rightarrow> s
               | Some o1 \<Rightarrow> (case so_delay o1 of Some d \<Rightarrow> if 0 < d then s + d else s | None \<Rightarrow> s));
          timeout = (case opts of None \<Rightarrow> priority_timeout e
               | Some o1 \<Rightarrow> (case so_timeout o1 of Some t \<Rightarrow> t | None \<Rightarrow> priority_timeout e))
      in \<lparr>tk_callback = Some n, tk_priority = e, tk_start = a, tk_expiration = a + timeout,
          tk_sort = (if a > s then a else a + timeout)\<rparr>)"

lemma schedule_callback_delayed:
  assumes "s = clk (sc_clock st)" "k = new_task s e n opts" "tk_start k > s"
    and "st1 = timers_push (sc_next st) (task_update (sc_next st) (\<lambda>_. k)
      (st\<lparr>sc_clock := sc_clock st + 1, sc_next := sc_next st + 1\<rparr>))"
  shows "schedule_callback clk e n opts st =
    (sc_next st,
     if heap_peek (sc_queue st1) = None \<and> heap_peek (sc_timers st1) = Some (sc_next st)
     then request_host_timeout
       (if sc_timeout st1 then cancel_host_timeout st1 else st1\<lparr>sc_timeout := True\<rparr>)
     else st1)"
  using assms by (cases opts) (simp_all add: schedule_callback_def unstable_now_def new_task_def Let_def)

lemma schedule_callback_now:
  assumes "s = clk (sc_clock st)" "k = new_task s e n opts" "\<not> tk_start k > s"
    and "st1 = queue_push (sc_next st) (task_update (sc_next st) (\<lambda>_. k)
      (st\<lparr>sc_clock := sc_clock st + 1, sc_next := sc_next st + 1\<rparr>))"
  shows "schedule_callback clk e n opts st =
    (sc_next st,
     if sc_scheduled st \<or> sc_performing st then st1
     else request_host_callback (st1\<lparr>sc_scheduled := True\<rparr>))"
  using assms
  by (cases opts)
    (simp_all add: schedule_callback_def unstable_now_def new_task_def Let_def queue_push_def task_update_def)

lemma new_task_sort:
  "tk_sort (new_task s e n opts) =
     (if tk_start (new_task s e n opts) > s then tk_start (new_task s e n opts)
      else tk_expiration (new_task s e n opts))"
  by (simp add: new_task_def Let_def)

lemma schedule_wf:
  assumes wf: "sched_wf clk st"
  shows "sched_wf clk (snd (schedule_callback clk e n opts st))"
proof -
  define s where "s = clk (sc_clock st)"
  define k where "k = new_task s e n opts"
  have w: "queues_wf clk (sc_clock st + 1) (sc_tasks st) (sc_queue st) (sc_timers st) (sc_next st)"
    using wf unfolding sched_wf_def by (rule queues_wf_clock) simp
  show ?thesis
  proof (cases "tk_start k > s")
    case True
    then have "tk_sort k = tk_start k" by (simp add: k_def new_task_sort)
    from queues_wf_new(2) [OF w this refl] show ?thesis
      unfolding schedule_callback_delayed [where st = st and clk = clk and e = e and n = n and opts = opts, OF s_def k_def True refl]
      by (simp add: sched_wf_def timers_push_def task_update_def request_host_timeout_def cancel_host_timeout_def)
  next
    case False
    then have "tk_sort k = tk_expiration k" by (simp add: k_def new_task_sort)
    moreover have "\<exists>j < sc_clock st + 1. tk_start k \<le> clk j"
      using False by (intro exI [of _ "sc_clock st"]) (simp add: s_def)
    ultimately show ?thesis
      using queues_wf_new(1) [OF w _ _ refl]
      unfolding schedule_callback_now [where st = st and clk = clk and e = e and n = n and opts = opts, OF s_def k_def False refl]
      by (simp add: sched_wf_def queue_push_def task_update_def)
  qed
qed

lemma heap_peek_push_iff:
  "heap_peek (heap_push (sort_cmp ts) q i) = Some i \<or> q \<noteq> []"
  by (cases q) (simp_all add: heap_push_def sift_up.simps heap_peek_def js_nth_def)

lemma schedule_invs:
  "idle_inv clk st \<Longrightarrow> idle_inv clk (snd (schedule_callback clk e n opts st))"
  "busy_inv clk st \<Longrightarrow> busy_inv clk (snd (schedule_callback clk e n opts st))"
proof -
  define s where "s = clk (sc_clock st)"
  define k where "k = new_task s e n opts"
  note delayed = schedule_callback_delayed [where st = st and clk = clk and e = e and n = n and opts = opts, OF s_def k_def _ refl]
  note now = schedule_callback_now [where st = st and clk = clk and e = e and n = n and opts = opts, OF s_def k_def _ refl]
  note wf = schedule_wf [of clk st e n opts]
  show "idle_inv clk (snd (schedule_callback clk e n opts st))" if i: "idle_inv clk st"
  proof (cases "tk_start k > s")
    case True
    show ?thesis
      using i wf delayed [OF True] heap_peek_push_iff [of _ "sc_timers st" "sc_next st"]
      by (auto simp: idle_inv_def owed_def timers_push_def task_update_def request_host_timeout_def
          cancel_host_timeout_def heap_peek_def js_nth_def split: if_splits)
  next
    case False
    show ?thesis
    proof (cases "sc_scheduled st")
      case True
      then show ?thesis
        using i wf now [OF False] by (auto simp: idle_inv_def owed_def queue_push_def task_update_def)
    next
      case sc: False
      define st1 where "st1 = queue_push (sc_next st) (task_update (sc_next st) (\<lambda>_. k)
        (st\<lparr>sc_clock := sc_clock st + 1, sc_next := sc_next st + 1\<rparr>))"
      have r: "snd (schedule_callback clk e n opts st) = request_host_callback (st1\<lparr>sc_scheduled := True\<rparr>)"
        using now [OF False] sc i by (simp add: idle_inv_def st1_def)
      have "sched_wf clk (st1\<lparr>sc_scheduled := True\<rparr>)"
        using wf i unfolding r by (simp add: idle_inv_def)
      then show ?thesis
        unfolding r using i
        by (intro request_host_callback_idle)
          (simp_all add: idle_inv_def st1_def queue_push_def task_update_def)
    qed
  qed
  show "busy_inv clk (snd (schedule_callback clk e n opts st))" if b: "busy_inv clk st"
  proof (cases "tk_start k > s")
    case True
    then show ?thesis
      using b wf delayed [OF True]
      by (auto simp: busy_inv_def timers_push_def task_update_def request_host_timeout_def
          cancel_host_timeout_def)
  next
    case False
    then show ?thesis
      using b wf now [OF False] by (auto simp: busy_inv_def queue_push_def task_update_def)
  qed
qed

section \<open>Every use of the interface\<close>

lemma priority_frame [simp]:
  "sched_wf clk (st\<lparr>sc_priority := p\<rparr>) = sched_wf clk st"
  "idle_inv clk (st\<lparr>sc_priority := p\<rparr>) = idle_inv clk st"
  "busy_inv clk (st\<lparr>sc_priority := p\<rparr>) = busy_inv clk st"
  by (simp_all add: sched_wf_def idle_inv_def busy_inv_def owed_def)

lemma snd_with_priority:
  "snd (with_priority e body st) =
     (snd (body (st\<lparr>sc_priority := e\<rparr>)))\<lparr>sc_priority := sc_priority st\<rparr>"
  by (simp add: with_priority_def Let_def split_beta)

lemma exec_preserves:
  assumes "\<And>clk e n opts st. Q clk st \<Longrightarrow> Q clk (snd (schedule_callback clk e n opts st))"
    and "\<And>clk e st. Q clk st \<Longrightarrow> Q clk (cancel_callback e st)"
    and "\<And>clk st. Q clk st \<Longrightarrow> Q clk (continue_execution st)"
    and "\<And>clk st. Q clk st \<Longrightarrow> Q clk (snd (sched_should_yield clk st))"
    and "\<And>clk st. Q clk st \<Longrightarrow> Q clk (snd (unstable_now clk st))"
    and prio: "\<And>clk p st. Q clk (st\<lparr>sc_priority := p\<rparr>) = Q clk st"
  shows "Q clk st \<Longrightarrow> Q clk (snd (exec_api clk a st))" "Q clk st \<Longrightarrow> Q clk (snd (exec_apis clk as st))"
proof (induction clk a st and clk as st rule: exec_api_exec_apis.induct)
  case (6 clk e body st)
  then show ?case by (simp add: run_with_priority_def snd_with_priority prio)
next
  case (7 clk body st)
  then show ?case by (simp add: sched_next_def snd_with_priority prio)
next
  case (10 clk a as st)
  then show ?case by (cases "exec_api clk a st") auto
qed (use assms in simp_all)

lemma exec_apis_idle: "idle_inv clk st \<Longrightarrow> idle_inv clk (snd (exec_apis clk as st))"
  by (rule exec_preserves(2) [of idle_inv])
    (simp_all add: schedule_invs cancel_invs continue_invs yield_invs)

text \<open>While a task runs: it stays queued, without a callback.\<close>

definition task_taken :: "nat \<Rightarrow> 'c sched \<Rightarrow> bool" where
  "task_taken m st \<longleftrightarrow> m \<in> set (sc_queue st) \<and> tk_callback (sc_tasks st m) = None"

lemma advanced_taken: "advanced st st' \<Longrightarrow> task_taken m st \<Longrightarrow> task_taken m st'"
  unfolding advanced_def task_taken_def by (metis same_task_simps(1) subsetD)

lemma taken_fields:
  assumes "set (sc_queue st') = set (sc_queue st)" "sc_tasks st' = sc_tasks st"
  shows "task_taken m st' = task_taken m st"
  using assms by (simp add: task_taken_def)

lemma task_taken_steps:
  assumes b: "busy_inv clk st" and t: "task_taken m st"
  shows "task_taken m (snd (schedule_callback clk e n opts st))"
    and "task_taken m (cancel_callback i st)" and "task_taken m (continue_execution st)"
    and "task_taken m (snd (sched_should_yield clk st))" and "task_taken m (snd (unstable_now clk st))"
proof -
  have wf: "sched_wf clk st" using b by (simp add: busy_inv_def)
  have mn: "m \<noteq> sc_next st"
    using t queues_wfD(6) [OF wf [unfolded sched_wf_def], of m] by (auto simp: task_taken_def)
  define s where "s = clk (sc_clock st)"
  define k where "k = new_task s e n opts"
  show "task_taken m (snd (schedule_callback clk e n opts st))"
  proof (cases "tk_start k > s")
    case True
    then show ?thesis
      using t mn schedule_callback_delayed [where st = st and clk = clk, OF s_def k_def True refl]
      by (simp add: task_taken_def timers_push_def task_update_def request_host_timeout_def cancel_host_timeout_def)
  next
    case False
    then show ?thesis
      using t mn schedule_callback_now [where st = st and clk = clk, OF s_def k_def False refl]
      by (simp add: task_taken_def queue_push_def task_update_def)
  qed
  show "task_taken m (cancel_callback i st)" "task_taken m (continue_execution st)"
    using t by (simp_all add: task_taken_def cancel_callback_def task_update_def continue_execution_def)
  show n: "task_taken m (snd (unstable_now clk st))"
    using t by (simp add: task_taken_def unstable_now_def)
  let ?st1 = "snd (unstable_now clk st)"
  have "\<exists>j < sc_clock ?st1. fst (unstable_now clk st) \<le> clk j"
    by (rule exI [of _ "sc_clock st"]) (simp add: unstable_now_def)
  from advanced_taken [OF conjunct2 [OF advance_timers_ok [OF now_wf [OF wf] this]] n]
  have "task_taken m (advance_timers (fst (unstable_now clk st)) ?st1)" .
  then show "task_taken m (snd (sched_should_yield clk st))"
    by (auto simp: sched_should_yield_def should_yield_to_host_def unstable_now_def Let_def task_taken_def)
qed

lemma exec_apis_busy:
  assumes "busy_inv clk st" "task_taken m st"
  shows "busy_inv clk (snd (exec_apis clk as st)) \<and> task_taken m (snd (exec_apis clk as st))"
  using assms
  by (intro exec_preserves(2) [of "\<lambda>clk st. busy_inv clk st \<and> task_taken m st"])
    (auto simp: schedule_invs cancel_invs continue_invs yield_invs task_taken_steps,
      simp_all add: task_taken_def)

section \<open>Performing work\<close>

lemma queue_pop_busy:
  assumes "busy_inv clk st" "heap_peek (sc_queue st) = Some m" "tk_callback (sc_tasks st m) = None"
  shows "busy_inv clk (queue_pop st)"
  using assms queues_wf_pop_queue [of clk "sc_clock st" "sc_tasks st" "sc_queue st" "sc_timers st" "sc_next st" m]
  by (simp add: busy_inv_def sched_wf_def queue_pop_def)

lemma queue_member:
  assumes "sched_wf clk st" "heap_peek (sc_queue st) = Some m"
  shows "m \<in> set (sc_queue st)"
  using task_order.heap.peek_mem queues_wfD(1,3) [OF assms(1) [unfolded sched_wf_def]] assms(2) by blast

lemma run_task_busy:
  assumes b: "busy_inv clk st" and p: "m \<in> set (sc_queue st)"
    and r: "run_task clk beh n m s st = (threw, n1, st')"
  shows "busy_inv clk st'" "threw \<or> (\<exists>k < sc_clock st'. n1 \<le> clk k)"
proof -
  define st2 where "st2 = (task_update m (\<lambda>k. k\<lparr>tk_callback := None\<rparr>) st)
    \<lparr>sc_priority := tk_priority (sc_tasks (task_update m (\<lambda>k. k\<lparr>tk_callback := None\<rparr>) st) m)\<rparr>"
  define ac where "ac = beh (sc_clock st2) s (tk_expiration (sc_tasks st2 m) \<le> n)"
  define ex where "ex = exec_apis clk (fst ac) st2"
  have b2: "busy_inv clk st2" "task_taken m st2"
    using cancel_invs(3) [OF b, of m] p
    by (simp_all add: st2_def cancel_callback_def task_taken_def task_update_def)
  from exec_apis_busy [OF b2] have b3: "busy_inv clk (snd ex)" "task_taken m (snd ex)"
    by (simp_all add: ex_def)
  define st4 where "st4 = snd (unstable_now clk (snd ex))"
  define st5 where "st5 = (case snd ac of
      Some c \<Rightarrow> task_update m (\<lambda>k. k\<lparr>tk_callback := Some c\<rparr>) st4
    | None \<Rightarrow> if heap_peek (sc_queue st4) = Some m then queue_pop st4 else st4)"
  define n2 where "n2 = clk (sc_clock (snd ex))"
  have eq: "run_task clk beh n m s st =
      (if fst ex then (True, n, snd ex) else (False, n2, advance_timers n2 st5))"
    unfolding run_task_def n2_def st5_def st4_def ex_def ac_def st2_def unstable_now_def Let_def split_beta
    by (simp only: prod.sel)
  have "busy_inv clk st' \<and> (threw \<or> (\<exists>k < sc_clock st'. n1 \<le> clk k))"
  proof (cases "fst ex")
    case True
    then have "st' = snd ex" "threw" using r eq by simp_all
    then show ?thesis using b3 by simp
  next
    case False
    have r': "threw = False" "n1 = n2" "st' = advance_timers n1 st5"
      using r eq False by auto
    have b4: "busy_inv clk st4" "task_taken m st4"
      using b3 task_taken_steps(5) by (simp_all add: st4_def)
    have b5: "busy_inv clk st5"
    proof (cases "snd ac")
      case None
      then show ?thesis using b4 queue_pop_busy [of clk st4 m] by (simp add: st5_def task_taken_def)
    next
      case (Some c)
      have "sched_wf clk (task_update m (\<lambda>k. k\<lparr>tk_callback := Some c\<rparr>) st4)"
        using b4 queues_wf_callback [of clk _ _ _ _ _ "\<lambda>k. k\<lparr>tk_callback := Some c\<rparr>" m]
        by (simp add: busy_inv_def sched_wf_def task_update_def task_taken_def)
      then show ?thesis using b4 Some by (simp add: st5_def busy_inv_def task_update_def)
    qed
    have c5: "sc_clock st5 = Suc (sc_clock (snd ex))"
      by (simp add: st5_def st4_def unstable_now_def task_update_def queue_pop_def split: option.split)
    then have e: "\<exists>k < sc_clock st5. n1 \<le> clk k" using r'(2) by (auto simp: n2_def)
    have "busy_inv clk st'" using advance_invs(2) [OF e b5] by (simp add: r'(3))
    moreover have "sc_clock st' = sc_clock st5"
      using advanced_frame(15) [OF conjunct2 [OF advance_timers_ok [OF _ e]]] b5
      by (simp add: r'(3) busy_inv_def)
    ultimately show ?thesis using e by auto
  qed
  then show "busy_inv clk st'" "threw \<or> (\<exists>k < sc_clock st'. n1 \<le> clk k)" by simp_all
qed

lemma current_frame [simp]:
  "busy_inv clk (st\<lparr>sc_current := m\<rparr>) = busy_inv clk st"
  by (simp add: busy_inv_def sched_wf_def)

lemma work_guard_frame:
  assumes "work_guard clk e n m st = (go, st1)"
  shows "sc_queue st1 = sc_queue st" "sc_timers st1 = sc_timers st" "sc_tasks st1 = sc_tasks st"
    "sc_current st1 = sc_current st" "busy_inv clk st \<Longrightarrow> busy_inv clk st1"
  using assms now_invs(2) [of clk st]
  by (auto simp: work_guard_def should_yield_to_host_def unstable_now_def Let_def split: if_splits)

text \<open>The three ways a turn of the loop goes on.\<close>

lemma work_loop_turn:
  assumes r: "work_loop (Suc fuel) clk beh e n st = Some (threw, n', st')"
    and p: "heap_peek (sc_queue st) = Some m"
    and g: "work_guard clk e n m (st\<lparr>sc_current := Some m\<rparr>) = (go, st1)"
  obtains (stop) "\<not> go" "\<not> threw" "n' = n" "st' = st1"
    | (dead) "go" "tk_callback (sc_tasks st m) = None"
        "work_loop fuel clk beh e n (queue_pop st1) = Some (threw, n', st')"
    | (threw) s where "go" "tk_callback (sc_tasks st m) = Some s"
        "run_task clk beh n m s st1 = (True, n', st')" "threw"
    | (ran) s n1 st2 where "go" "tk_callback (sc_tasks st m) = Some s"
        "run_task clk beh n m s st1 = (False, n1, st2)"
        "work_loop fuel clk beh e n1 st2 = Some (threw, n', st')"
proof -
  have t: "sc_tasks st1 = sc_tasks st" using work_guard_frame(3) [OF g] by simp
  show ?thesis
  proof (cases go)
    case False
    then show ?thesis using stop r p g by auto
  next
    case True
    show ?thesis
    proof (cases "tk_callback (sc_tasks st m)")
      case None
      then show ?thesis using dead True r p g t by simp
    next
      case (Some s)
      obtain th n1 st2 where rt: "run_task clk beh n m s st1 = (th, n1, st2)" by (metis prod_cases3)
      show ?thesis
        using that(3) [OF True Some] that(4) [OF True Some] rt r p g t True Some by (cases th) auto
    qed
  qed
qed

lemma work_loop_busy:
  assumes "work_loop fuel clk beh e n st = Some (threw, n', st')" "busy_inv clk st"
  shows "busy_inv clk st' \<and> (\<not> threw \<longrightarrow> sc_current st' = heap_peek (sc_queue st'))"
  using assms
proof (induction fuel arbitrary: n st)
  case (Suc fuel)
  show ?case
  proof (cases "heap_peek (sc_queue st)")
    case None
    then show ?thesis using Suc.prems by auto
  next
    case (Some m)
    obtain go st1 where g: "work_guard clk e n m (st\<lparr>sc_current := Some m\<rparr>) = (go, st1)"
      by (metis surj_pair)
    have b1: "busy_inv clk st1" using work_guard_frame(5) [OF g] Suc.prems(2) by simp
    have q1: "heap_peek (sc_queue st1) = Some m" using work_guard_frame(1) [OF g] Some by simp
    have mem: "m \<in> set (sc_queue st1)" using queue_member [OF _ q1] b1 by (auto simp: busy_inv_def)
    from Suc.prems(1) Some g show ?thesis
    proof (cases rule: work_loop_turn)
      case stop
      then show ?thesis using b1 q1 work_guard_frame(4) [OF g] by simp
    next
      case dead
      then show ?thesis
        using Suc.IH [OF dead(3)] queue_pop_busy [OF b1 q1] work_guard_frame(3) [OF g] by simp
    next
      case (threw s)
      then show ?thesis using run_task_busy(1) [OF b1 mem] by blast
    next
      case (ran s n1 st2)
      show ?thesis using Suc.IH [OF ran(4)] run_task_busy(1) [OF b1 mem ran(3)] by blast
    qed
  qed
qed simp

lemma heap_peek_Nil [simp]: "heap_peek [] = None"
  by (simp add: heap_peek_def js_nth_def)

lemma heap_peek_None [simp]: "heap_peek q = None \<longleftrightarrow> q = []"
  by (simp add: heap_peek_def js_nth_def)

lemma flush_work_inv:
  assumes f: "flush_work fuel clk beh e n st = Some (threw, again, st')"
    and st: "sched_wf clk st" "\<not> sc_performing st" "sc_messages st = 0" "sc_running st" "sc_host st"
    and n: "\<exists>k < sc_clock st. n \<le> clk k"
  shows "sched_wf clk st'" "\<not> sc_performing st'" "sc_messages st' = 0" "sc_running st'" "sc_host st'"
    "sc_current st' = None" "\<not> sc_scheduled st'" "threw \<Longrightarrow> again"
    "\<not> again \<Longrightarrow> sc_queue st' = [] \<and> (sc_timers st' \<noteq> [] \<longrightarrow> sc_pending st' \<noteq> [])"
    "sc_priority st' = sc_priority st"
proof -
  define st1 where "st1 = st\<lparr>sc_scheduled := False\<rparr>"
  define st2 where "st2 = (if sc_timeout st1 then cancel_host_timeout (st1\<lparr>sc_timeout := False\<rparr>) else st1)"
  define st3 where "st3 = st2\<lparr>sc_performing := True\<rparr>"
  have b3: "busy_inv clk st3" "sc_clock st3 = sc_clock st" "sc_priority st3 = sc_priority st"
    using st by (simp_all add: st3_def st2_def st1_def busy_inv_def sched_wf_def cancel_host_timeout_def)
  have b: "busy_inv clk (advance_timers n st3)" using advance_invs(2) [of st3 n clk] b3 n by simp
  from f obtain th n1 st4 where w: "work_loop fuel clk beh e n (advance_timers n st3) = Some (th, n1, st4)"
    by (auto simp: flush_work_def Let_def st1_def [symmetric] st2_def [symmetric] st3_def [symmetric]
        split: option.splits)
  note i = work_loop_busy [OF w b]
  define fin where "fin s = s\<lparr>sc_current := None, sc_priority := sc_priority st3, sc_performing := False\<rparr>"
    for s :: "'a sched"
  have r: "(threw, again, st') =
      (if th then (True, True, fin st4)
       else if sc_current st4 \<noteq> None then (False, True, fin st4)
       else (False, False,
         fin (case heap_peek (sc_timers st4) of None \<Rightarrow> st4 | Some h \<Rightarrow> request_host_timeout st4)))"
    using f w by (simp add: flush_work_def Let_def st1_def [symmetric] st2_def [symmetric] st3_def [symmetric]
        fin_def split: if_splits)
  have f4: "sched_wf clk (fin s) = sched_wf clk s" "sched_wf clk (request_host_timeout s) = sched_wf clk s" for s
    by (simp_all add: sched_wf_def fin_def request_host_timeout_def)
  have p: "sc_priority (fin s) = sc_priority st" for s by (simp add: fin_def b3)
  have fin: "\<exists>s. st' = fin s \<and> busy_inv clk s"
  proof -
    have "busy_inv clk (request_host_timeout st4)"
      using i by (simp add: busy_inv_def f4) (simp add: request_host_timeout_def)
    then show ?thesis using r i by (auto split: if_splits option.splits)
  qed
  then show "sched_wf clk st'" "\<not> sc_performing st'" "sc_messages st' = 0" "sc_running st'" "sc_host st'"
    "sc_current st' = None" "\<not> sc_scheduled st'" "sc_priority st' = sc_priority st"
    using p f4(1) by (auto simp: busy_inv_def, auto simp: fin_def)
  show "threw \<Longrightarrow> again" using r by (auto split: if_splits)
  show "\<not> again \<Longrightarrow> sc_queue st' = [] \<and> (sc_timers st' \<noteq> [] \<longrightarrow> sc_pending st' \<noteq> [])"
    using r i by (auto simp: fin_def request_host_timeout_def split: if_splits option.splits)
qed

lemma perform_work_idle:
  assumes i: "idle_inv clk st" and m: "0 < sc_messages st"
    and r: "perform_work fuel clk beh (st\<lparr>sc_messages := sc_messages st - 1\<rparr>) = Some st'"
  shows "idle_inv clk st'"
proof (cases "sc_host st")
  case False
  then have "st' = st\<lparr>sc_messages := 0, sc_running := False\<rparr>"
    using r i m by (auto simp: perform_work_def idle_inv_def split: if_splits)
  then show ?thesis using i m False by (auto simp: idle_inv_def sched_wf_def owed_def)
next
  case True
  define st2 where "st2 = st\<lparr>sc_messages := 0, sc_clock := sc_clock st + 1,
    sc_deadline := clk (sc_clock st) + sc_interval st\<rparr>"
  have z: "sc_messages st - 1 = 0" "sc_running st" using i m True by (auto simp: idle_inv_def split: if_splits)
  obtain threw again st3 where
      f: "flush_work fuel clk beh True (clk (sc_clock st)) st2 = Some (threw, again, st3)"
      and st': "st' = (if threw \<or> again then st3\<lparr>sc_messages := sc_messages st3 + 1\<rparr>
                       else st3\<lparr>sc_running := False, sc_host := False\<rparr>)"
    using r True z by (auto simp: perform_work_def unstable_now_def st2_def split: option.splits if_splits)
  have wf: "sched_wf clk st2"
    using i queues_wf_clock by (fastforce simp: idle_inv_def sched_wf_def st2_def)
  have "\<exists>k < sc_clock st2. clk (sc_clock st) \<le> clk k"
    by (rule exI [of _ "sc_clock st"]) (simp add: st2_def)
  note fl = flush_work_inv [OF f wf _ _ _ _ this]
  have h: "\<not> sc_performing st2" "sc_messages st2 = 0" "sc_running st2" "sc_host st2"
    using i True z by (simp_all add: st2_def idle_inv_def)
  note fl = fl [OF h]
  show ?thesis
  proof (cases "threw \<or> again")
    case True
    then show ?thesis using fl(1-7) st' by (simp add: idle_inv_def sched_wf_def owed_def)
  next
    case False
    then show ?thesis using fl(1-7) fl(9) st' by (simp add: idle_inv_def sched_wf_def owed_def)
  qed
qed

lemma handle_timeout_idle:
  assumes wf: "sched_wf clk st" and e: "\<exists>k < sc_clock st. e \<le> clk k"
    and st: "\<not> sc_performing st" "sc_current st = None"
      "sc_messages st = (if sc_running st then 1 else 0)" "sc_host st \<longrightarrow> sc_running st"
      "sc_scheduled st \<longrightarrow> sc_host st"
  shows "idle_inv clk (handle_timeout e st)"
proof -
  define st1 where "st1 = advance_timers e (st\<lparr>sc_timeout := False\<rparr>)"
  have "sched_wf clk (st\<lparr>sc_timeout := False\<rparr>)" "\<exists>k < sc_clock (st\<lparr>sc_timeout := False\<rparr>). e \<le> clk k"
    using wf e by (simp_all add: sched_wf_def)
  note a = advance_timers_ok [OF this]
  have wf1: "sched_wf clk st1" using a by (simp add: st1_def)
  note f = advanced_frame [OF conjunct2 [OF a], folded st1_def]
  show ?thesis
  proof (cases "sc_scheduled st")
    case True
    then have "handle_timeout e st = st1" by (simp add: handle_timeout_def st1_def [symmetric] f)
    then show ?thesis using st True wf1 by (auto simp: idle_inv_def f owed_def)
  next
    case sc: False
    show ?thesis
    proof (cases "sc_queue st1 = []")
      case False
      then have "handle_timeout e st = request_host_callback (st1\<lparr>sc_scheduled := True\<rparr>)"
        using sc by (simp add: handle_timeout_def st1_def [symmetric] f)
      then show ?thesis
        using st wf1 request_host_callback_idle [of clk "st1\<lparr>sc_scheduled := True\<rparr>"]
        by (simp add: f sched_wf_def)
    next
      case True
      then have "handle_timeout e st =
          (if sc_timers st1 = [] then st1 else request_host_timeout st1)"
        using sc by (simp add: handle_timeout_def st1_def [symmetric] f split: option.split)
      then show ?thesis
        using st True wf1 sc
        by (auto simp: idle_inv_def owed_def request_host_timeout_def sched_wf_def f)
    qed
  qed
qed

lemma fire_timer_idle:
  assumes "idle_inv clk st"
  shows "idle_inv clk (fire_timer clk h st)"
proof -
  let ?st2 = "st\<lparr>sc_pending := removeAll h (sc_pending st), sc_clock := sc_clock st + 1\<rparr>"
  have "sched_wf clk ?st2"
    using assms queues_wf_clock by (fastforce simp: idle_inv_def sched_wf_def)
  moreover have "\<exists>k < sc_clock ?st2. clk (sc_clock st) \<le> clk k"
    by (rule exI [of _ "sc_clock st"]) simp
  ultimately have "idle_inv clk (handle_timeout (clk (sc_clock st)) ?st2)"
    using assms by (intro handle_timeout_idle) (simp_all add: idle_inv_def)
  then show ?thesis by (simp add: fire_timer_def unstable_now_def)
qed

lemma reach_idle: "sched_reach clk beh st \<Longrightarrow> idle_inv clk st"
proof (induction rule: sched_reach.induct)
  case reach_init
  show ?case
    by (simp add: idle_inv_def sched_wf_def queues_wf_def sched_init_def task_blank_def heap_ordered_def)
next
  case (reach_api st as)
  then show ?case by (simp add: exec_apis_idle)
next
  case (reach_message st fuel st')
  then show ?case by (blast intro: perform_work_idle)
next
  case (reach_timer st h)
  then show ?case by (simp add: fire_timer_idle)
qed

section \<open>Termination of a message\<close>

text \<open>Operations that schedule nothing.\<close>

fun schedules_nothing :: "'c api \<Rightarrow> bool" where
  "schedules_nothing (ApiSchedule e n opts) = False"
| "schedules_nothing (ApiRunWithPriority e body) = list_all schedules_nothing body"
| "schedules_nothing (ApiNext body) = list_all schedules_nothing body"
| "schedules_nothing a = True"

definition queued :: "'c sched \<Rightarrow> nat set" where
  "queued st = set (sc_queue st) \<union> set (sc_timers st)"

definition less_work :: "'c sched \<Rightarrow> 'c sched \<Rightarrow> bool" where
  "less_work st st' \<longleftrightarrow>
     queued st' \<subseteq> queued st \<and>
     (\<forall>i. tk_callback (sc_tasks st' i) \<noteq> None \<longrightarrow> tk_callback (sc_tasks st i) \<noteq> None)"

lemma less_work_refl [simp]: "less_work st st"
  by (simp add: less_work_def)

lemma less_work_priority [simp]:
  "less_work (st\<lparr>sc_priority := p\<rparr>) st' = less_work st st'"
  "less_work st (st'\<lparr>sc_priority := p\<rparr>) = less_work st st'"
  by (simp_all add: less_work_def queued_def)

lemma less_work_trans: "less_work st st' \<Longrightarrow> less_work st' st'' \<Longrightarrow> less_work st st''"
  unfolding less_work_def by blast

lemma less_work_same:
  "sc_queue st' = sc_queue st \<Longrightarrow> sc_timers st' = sc_timers st \<Longrightarrow> sc_tasks st' = sc_tasks st \<Longrightarrow>
     less_work st st'"
  by (simp add: less_work_def queued_def)

lemma advanced_less_work: "advanced st st' \<Longrightarrow> less_work st st'"
proof -
  assume a: "advanced st st'"
  have "tk_callback (sc_tasks st' i) = tk_callback (sc_tasks st i)" for i
    by (rule same_task_simps(1)) (use a in \<open>simp add: advanced_def\<close>)
  moreover have "queued st' \<subseteq> queued st"
    using a unfolding advanced_def queued_def by blast
  ultimately show ?thesis by (simp add: less_work_def)
qed

lemma yield_less_work:
  assumes "sched_wf clk st"
  shows "less_work st (snd (sched_should_yield clk st))"
proof -
  let ?st1 = "snd (unstable_now clk st)"
  let ?e = "fst (unstable_now clk st)"
  have "\<exists>j < sc_clock ?st1. ?e \<le> clk j"
    by (rule exI [of _ "sc_clock st"]) (simp add: unstable_now_def)
  then have "less_work ?st1 (advance_timers ?e ?st1)"
    using advance_timers_ok [OF now_wf [OF assms]] advanced_less_work by blast
  then have "less_work st (advance_timers ?e ?st1)"
    by (rule less_work_trans [OF less_work_same, rotated 3]) (simp_all add: unstable_now_def)
  then show ?thesis
    by (auto simp: sched_should_yield_def should_yield_to_host_def unstable_now_def Let_def
        less_work_def queued_def)
qed

lemma with_priority_less:
  assumes "\<And>s. busy_inv clk s \<Longrightarrow> busy_inv clk (snd (body s)) \<and> less_work s (snd (body s))"
    and "busy_inv clk st"
  shows "busy_inv clk (snd (with_priority e body st)) \<and> less_work st (snd (with_priority e body st))"
  using assms(1) [of "st\<lparr>sc_priority := e\<rparr>"] assms(2) by (simp add: snd_with_priority)

lemma exec_less_work:
  "busy_inv clk st \<Longrightarrow> schedules_nothing a \<Longrightarrow>
     busy_inv clk (snd (exec_api clk a st)) \<and> less_work st (snd (exec_api clk a st))"
  "busy_inv clk st \<Longrightarrow> list_all schedules_nothing as \<Longrightarrow>
     busy_inv clk (snd (exec_apis clk as st)) \<and> less_work st (snd (exec_apis clk as st))"
proof (induction clk a st and clk as st rule: exec_api_exec_apis.induct)
  case (2 clk e st)
  then show ?case
    by (simp add: cancel_invs)
      (auto simp: less_work_def queued_def cancel_callback_def task_update_def)
next
  case (3 clk st)
  then show ?case
    by (simp add: continue_invs) (simp add: continue_execution_def busy_inv_def)
next
  case (4 clk st)
  then show ?case by (simp add: yield_invs) (simp add: yield_less_work busy_inv_def)
next
  case (5 clk st)
  then show ?case by simp (simp add: less_work_def queued_def unstable_now_def)
next
  case (6 clk e body st)
  then show ?case
    unfolding exec_api.simps run_with_priority_def by (intro with_priority_less) simp_all
next
  case (7 clk body st)
  then show ?case
    unfolding exec_api.simps sched_next_def by (intro with_priority_less) simp_all
next
  case (10 clk a as st)
  then show ?case
    by (cases "exec_api clk a st"; cases "fst (exec_api clk a st)") (auto intro: less_work_trans)
qed simp_all

definition workload :: "'c sched \<Rightarrow> nat" where
  "workload st = card (queued st) + card {i \<in> queued st. tk_callback (sc_tasks st i) \<noteq> None}"

lemma finite_queued [simp]: "finite (queued st)"
  by (simp add: queued_def)

lemma less_work_workload: "less_work st st' \<Longrightarrow> workload st' \<le> workload st"
  unfolding workload_def less_work_def by (intro add_mono card_mono) auto

lemma less_work_cleared:
  assumes "less_work st st'" "m \<in> queued st" "tk_callback (sc_tasks st m) \<noteq> None"
    "tk_callback (sc_tasks st' m) = None"
  shows "workload st' < workload st"
proof -
  have "{i \<in> queued st'. tk_callback (sc_tasks st' i) \<noteq> None} \<subset>
      {i \<in> queued st. tk_callback (sc_tasks st i) \<noteq> None}"
    using assms unfolding less_work_def by blast
  then show ?thesis
    unfolding workload_def using assms(1) unfolding less_work_def
    by (intro add_le_less_mono card_mono psubset_card_mono) auto
qed

lemma less_work_popped:
  assumes "less_work st st'" "m \<in> queued st" "m \<notin> queued st'"
  shows "workload st' < workload st"
  unfolding workload_def using assms unfolding less_work_def
  by (intro add_less_le_mono card_mono psubset_card_mono) auto

lemma queue_pop_less:
  assumes wf: "sched_wf clk st" and p: "heap_peek (sc_queue st) = Some m"
  shows "less_work st (queue_pop st)" "m \<in> queued st" "m \<notin> queued (queue_pop st)"
proof -
  note d = queues_wfD(1,3) [OF wf [unfolded sched_wf_def]]
  note s = task_order.heap.pop_set [OF d p]
  show "less_work st (queue_pop st)" by (auto simp: less_work_def queued_def queue_pop_def s)
  show "m \<in> queued st" using queue_member [OF wf p] by (simp add: queued_def)
  then show "m \<notin> queued (queue_pop st)"
    using queues_wfD(5) [OF wf [unfolded sched_wf_def]] queue_member [OF wf p]
    by (auto simp: queued_def queue_pop_def s)
qed

lemma run_task_less:
  assumes b: "busy_inv clk st" and p: "m \<in> set (sc_queue st)" "tk_callback (sc_tasks st m) \<noteq> None"
    and q: "\<And>k c x. list_all schedules_nothing (fst (beh k c x)) \<and> snd (beh k c x) = None"
    and r: "run_task clk beh n m s st = (False, n1, st')"
  shows "workload st' < workload st"
proof -
  define st2 where "st2 = (task_update m (\<lambda>k. k\<lparr>tk_callback := None\<rparr>) st)
    \<lparr>sc_priority := tk_priority (sc_tasks (task_update m (\<lambda>k. k\<lparr>tk_callback := None\<rparr>) st) m)\<rparr>"
  define ac where "ac = beh (sc_clock st2) s (tk_expiration (sc_tasks st2 m) \<le> n)"
  define ex where "ex = exec_apis clk (fst ac) st2"
  define st4 where "st4 = snd (unstable_now clk (snd ex))"
  define st5 where "st5 = (if heap_peek (sc_queue st4) = Some m then queue_pop st4 else st4)"
  have ac: "list_all schedules_nothing (fst ac)" "snd ac = None" using q by (simp_all add: ac_def)
  have "run_task clk beh n m s st =
      (if fst ex then (True, n, snd ex)
       else (False, clk (sc_clock (snd ex)),
         advance_timers (clk (sc_clock (snd ex)))
           (case snd ac of
              Some c \<Rightarrow> task_update m (\<lambda>k. k\<lparr>tk_callback := Some c\<rparr>) st4
            | None \<Rightarrow> if heap_peek (sc_queue st4) = Some m then queue_pop st4 else st4)))"
    unfolding run_task_def st4_def ex_def ac_def st2_def unstable_now_def Let_def split_beta
    by (simp only: prod.sel)
  then have st': "n1 = clk (sc_clock (snd ex))" "st' = advance_timers n1 st5"
    using r ac(2) by (auto simp: st5_def split: if_splits)
  have b2: "busy_inv clk st2"
    using cancel_invs(3) [OF b, of m] by (simp add: st2_def cancel_callback_def)
  have l2: "less_work st st2" "tk_callback (sc_tasks st2 m) = None"
    by (auto simp: st2_def less_work_def queued_def task_update_def)
  have b3: "busy_inv clk (snd ex)" "less_work st2 (snd ex)"
    using exec_less_work(2) [OF b2 ac(1)] by (simp_all add: ex_def)
  have t: "task_taken m st2" using p by (simp add: st2_def task_taken_def task_update_def)
  have "busy_inv clk st4" using b3 by (simp add: st4_def)
  moreover have "less_work (snd ex) st4" by (simp add: st4_def less_work_def queued_def unstable_now_def)
  moreover have "task_taken m st4"
    using task_taken_steps(5) [OF b3(1)] exec_apis_busy [OF b2 t, of "fst ac"] by (simp add: st4_def ex_def)
  ultimately have b4: "busy_inv clk st4" "less_work (snd ex) st4" "task_taken m st4" by blast+
  have b5: "busy_inv clk st5" "less_work st4 st5"
    using b4 queue_pop_busy [OF b4(1)] queue_pop_less(1) [of clk st4 m]
    by (auto simp: st5_def task_taken_def busy_inv_def)
  have "sc_clock st5 = Suc (sc_clock (snd ex))"
    by (simp add: st5_def st4_def unstable_now_def queue_pop_def)
  then have "\<exists>k < sc_clock st5. n1 \<le> clk k" using st'(1) by auto
  then have "less_work st5 st'"
    using advance_timers_ok [of clk st5 n1] b5(1) advanced_less_work by (auto simp: busy_inv_def st'(2))
  then have "less_work st2 st'"
    using b3(2) b4(2) b5(2) less_work_trans by blast
  then have "less_work st st'" "tk_callback (sc_tasks st' m) = None"
    using l2 less_work_trans by (blast, auto simp: less_work_def)
  then show ?thesis
    using p by (intro less_work_cleared [of st st' m]) (auto simp: queued_def)
qed

lemma work_loop_returns:
  assumes q: "\<And>k c x. list_all schedules_nothing (fst (beh k c x)) \<and> snd (beh k c x) = None"
    and b: "busy_inv clk st" and f: "workload st < fuel"
  shows "\<exists>r. work_loop fuel clk beh e n st = Some r"
  using b f
proof (induction fuel arbitrary: n st)
  case (Suc fuel)
  show ?case
  proof (cases "heap_peek (sc_queue st)")
    case None
    then show ?thesis by auto
  next
    case (Some m)
    obtain go st1 where g: "work_guard clk e n m (st\<lparr>sc_current := Some m\<rparr>) = (go, st1)"
      by (metis surj_pair)
    have b1: "busy_inv clk st1" using work_guard_frame(5) [OF g] Suc.prems(1) by simp
    then have wf1: "sched_wf clk st1" by (simp add: busy_inv_def)
    have q1: "heap_peek (sc_queue st1) = Some m" using work_guard_frame(1) [OF g] Some by simp
    have mem: "m \<in> set (sc_queue st1)" by (rule queue_member [OF wf1 q1])
    have w1: "workload st1 = workload st"
      using work_guard_frame(1-3) [OF g] by (simp add: workload_def queued_def)
    show ?thesis
    proof (cases go)
      case False
      then show ?thesis using Some g by auto
    next
      case go: True
      show ?thesis
      proof (cases "tk_callback (sc_tasks st1 m)")
        case None
        have "workload (queue_pop st1) < fuel"
          using less_work_popped [OF queue_pop_less [OF wf1 q1]] Suc.prems(2) w1 by simp
        from Suc.IH [OF queue_pop_busy [OF b1 q1 None] this] show ?thesis using Some g go None by simp
      next
        case cb: (Some s)
        obtain th n1 st2 where rt: "run_task clk beh n m s st1 = (th, n1, st2)" by (metis prod_cases3)
        show ?thesis
        proof (cases th)
          case True
          then show ?thesis using Some g go cb rt by auto
        next
          case False
          have "run_task clk beh n m s st1 = (False, n1, st2)" using rt False by simp
          then have "workload st2 < workload st1"
            using cb by (intro run_task_less [OF b1 mem _ q]) simp_all
          then have "workload st2 < fuel" using Suc.prems(2) w1 by simp
          from Suc.IH [OF run_task_busy(1) [OF b1 mem rt] this] show ?thesis
            using Some g go cb rt False by simp
        qed
      qed
    qed
  qed
qed simp

section \<open>Properties\<close>

lemma reach_wf: "sched_reach clk beh st \<Longrightarrow> sched_wf clk st"
  using reach_idle by (auto simp: idle_inv_def)

lemma exec_priority:
  "sc_priority (snd (exec_api clk a st)) = sc_priority st"
  "sc_priority (snd (exec_apis clk as st)) = sc_priority st"
proof -
  have now: "sc_priority (snd (unstable_now clk st)) = sc_priority st" for clk and st :: "'a sched"
    by (simp add: unstable_now_def)
  have adv: "sc_priority (advance_timers e st) = sc_priority st" for e and st :: "'a sched"
    by (induction e st rule: advance_timers.induct)
      (subst advance_timers.simps,
        auto simp: timers_pop_def queue_push_def task_update_def Let_def split: option.split)
  have sched: "sc_priority (snd (schedule_callback clk e n opts st)) = sc_priority st"
    for clk e n opts and st :: "'a sched"
    by (auto simp: schedule_callback_def unstable_now_def timers_push_def queue_push_def task_update_def
        request_host_timeout_def cancel_host_timeout_def request_host_callback_def Let_def split: option.split)
  show "sc_priority (snd (exec_api clk a st)) = sc_priority st"
    "sc_priority (snd (exec_apis clk as st)) = sc_priority st"
  proof (induction clk a st and clk as st rule: exec_api_exec_apis.induct)
    case (10 clk a as st)
    then show ?case by (cases "exec_api clk a st") auto
  qed (auto simp: sched cancel_callback_def task_update_def continue_execution_def request_host_callback_def
      sched_should_yield_def should_yield_to_host_def now adv unstable_now_def Let_def
      run_with_priority_def sched_next_def snd_with_priority)
qed

text \<open>A concrete run: three tasks of different priorities, one of them delayed.\<close>

definition sample_clk :: "nat \<Rightarrow> rat" where "sample_clk k = of_nat k"

definition blank_tasks :: "nat \<Rightarrow> nat task" where "blank_tasks i = task_blank"

definition sample_beh :: "nat behaviour" where "sample_beh k c x = ([], None)"

definition sample_tasks :: "nat api list" where
  "sample_tasks =
     [ApiSchedule 3 7 None, ApiSchedule 2 8 None, ApiSchedule 3 9 (Some \<lparr>so_delay = Some 100, so_timeout = None\<rparr>)]"

definition sample_sched :: "nat sched" where
  "sample_sched = snd (exec_apis sample_clk sample_tasks sched_init)"

lemma sample_reach: "sched_reach sample_clk sample_beh sample_sched"
  unfolding sample_sched_def by (intro reach_api reach_init)

lemma sample_queue:
  "sc_queue sample_sched = [2, 1]" "sc_timers sample_sched = [3]" "sc_messages sample_sched = 1"
  "sc_host sample_sched" "tk_callback (sc_tasks sample_sched 2) = Some 8"
  by (simp_all add: sample_sched_def sample_tasks_def schedule_callback_def unstable_now_def sched_init_def
      sample_clk_def Let_def timers_push_def queue_push_def task_update_def request_host_callback_def
      heap_push_def sift_up.simps js_nth_def heap_peek_def heap_parent_def sort_cmp_def priority_timeout_def)



text \<open>
  C26: the array heap is a priority queue for tasks: a push adds the task and keeps the heap order,
  and a pop of a queue without repetition removes exactly one task, one that sorts before every
  task it leaves, and leaves a heap.
\<close>

theorem task_heap_is_priority_queue:
  assumes "heap_ordered (sort_cmp ts) q" "distinct q"
  shows "heap_ordered (sort_cmp ts) (heap_push (sort_cmp ts) q x) \<and>
      mset (heap_push (sort_cmp ts) q x) = add_mset x (mset q) \<and>
    (q = [] \<and> heap_pop (sort_cmp ts) q = (None, []) \<or>
     (\<exists>t q'. heap_pop (sort_cmp ts) q = (Some t, q') \<and> mset q = add_mset t (mset q') \<and>
        heap_ordered (sort_cmp ts) q' \<and>
        (\<forall>y \<in> set q'. tk_sort (ts t) < tk_sort (ts y) \<or> tk_sort (ts t) = tk_sort (ts y) \<and> t < y)))"
proof (cases "q = []")
  case True
  then show ?thesis
    using task_order.heap.push_ordered [OF assms(1), of x] by (simp add: heap_pop_def)
next
  case False
  obtain t where p: "heap_peek q = Some t" using False heap_peek_None [of q] by fastforce
  obtain q' where pop: "heap_pop (sort_cmp ts) q = (Some t, q')"
    using task_order.heap.pop_fst [of ts q] p by (cases "heap_pop (sort_cmp ts) q") auto
  have s: "set q' = set q - {t}" using task_order.heap.pop_set [OF assms p] pop by simp
  have "tk_sort (ts t) < tk_sort (ts y) \<or> tk_sort (ts t) = tk_sort (ts y) \<and> t < y" if "y \<in> set q'" for y
  proof -
    have "sort_cmp ts t y \<le> 0" "y \<noteq> t"
      using task_order.heap.peek_least [OF assms(1) p] that s by auto
    then show ?thesis by (auto simp: sort_cmp_le)
  qed
  then show ?thesis
    using task_order.heap.push_ordered [OF assms(1), of x] pop
      task_order.heap.pop_mset [OF assms p] task_order.heap.pop_ordered [OF assms] by auto
qed

theorem task_heap_is_priority_queue_witness:
  "heap_ordered (sort_cmp blank_tasks) (heap_push (sort_cmp blank_tasks) [1, 2] 3) \<and>
    (\<exists>t q'. heap_pop (sort_cmp blank_tasks) [1, 2] = (Some t, q') \<and> mset [1, 2] = add_mset t (mset q') \<and>
        heap_ordered (sort_cmp blank_tasks) q')"
proof -
  have "heap_ordered (sort_cmp blank_tasks) [1, 2]" "distinct [1, 2 :: nat]"
    by (simp_all add: heap_ordered_def sort_cmp_def less_Suc_eq heap_parent_def blank_tasks_def)
  from task_heap_is_priority_queue [OF this, of 3] show ?thesis by auto
qed

text \<open>
  C28: no scheduled work is forgotten: in every reachable state a task that still has a callback is
  in exactly one of the two queues, and while any task is queued the browser owes the scheduler a
  message that will perform work, or a timeout.
\<close>

theorem scheduler_forgets_nothing:
  assumes "sched_reach clk beh st" "tk_callback (sc_tasks st i) \<noteq> None"
  shows "(i \<in> set (sc_queue st)) \<noteq> (i \<in> set (sc_timers st)) \<and>
    (sc_host st \<and> sc_running st \<and> sc_messages st = 1 \<or> sc_pending st \<noteq> [])"
proof -
  note d = queues_wfD [OF reach_wf [OF assms(1), unfolded sched_wf_def]]
  have q: "(i \<in> set (sc_queue st)) \<noteq> (i \<in> set (sc_timers st))" using d(5) d(11) [OF assms(2)] by auto
  then have "sc_queue st \<noteq> [] \<or> sc_timers st \<noteq> []" by auto
  then show ?thesis
    using reach_idle [OF assms(1)] q by (auto simp: idle_inv_def owed_def split: if_splits)
qed

theorem scheduler_forgets_nothing_witness:
  "((2::nat) \<in> set (sc_queue sample_sched)) \<noteq> (2 \<in> set (sc_timers sample_sched))"
  by (rule conjunct1 [OF scheduler_forgets_nothing [OF sample_reach]]) (simp add: sample_queue)

text \<open>
  a delayed task never becomes runnable early: in every reachable state each task of the task
  queue has a start time that some past reading of the clock had reached.
\<close>

theorem scheduler_never_early:
  assumes "sched_reach clk beh st" "i \<in> set (sc_queue st)"
  shows "\<exists>k < sc_clock st. tk_start (sc_tasks st i) \<le> clk k"
  by (rule queues_wfD(9) [OF reach_wf [OF assms(1), unfolded sched_wf_def] assms(2)])

theorem scheduler_never_early_witness:
  "\<exists>k < sc_clock sample_sched. tk_start (sc_tasks sample_sched 1) \<le> sample_clk k"
  by (rule scheduler_never_early [OF sample_reach]) (simp add: sample_queue)

text \<open>
  C29: handling a message of the channel returns whenever the callbacks schedule nothing and return
  no continuation: twice the number of queued tasks, and one, bounds the turns of the work loop.
\<close>

theorem scheduler_message_returns:
  assumes "sched_reach clk beh st" "0 < sc_messages st"
    and "\<forall>k c x. list_all schedules_nothing (fst (beh k c x)) \<and> snd (beh k c x) = None"
    and "fuel = 2 * (length (sc_queue st) + length (sc_timers st)) + 1"
  shows "\<exists>st'. perform_work fuel clk beh (st\<lparr>sc_messages := sc_messages st - 1\<rparr>) = Some st'"
proof (cases "sc_host st")
  case True
  have i: "idle_inv clk st" by (rule reach_idle [OF assms(1)])
  define st2 where "st2 = st\<lparr>sc_messages := 0, sc_clock := sc_clock st + 1,
    sc_deadline := clk (sc_clock st) + sc_interval st\<rparr>"
  define st3 where "st3 = (if sc_timeout st
      then cancel_host_timeout (st2\<lparr>sc_scheduled := False, sc_timeout := False\<rparr>)
      else st2\<lparr>sc_scheduled := False\<rparr>)\<lparr>sc_performing := True\<rparr>"
  have z: "sc_messages st - 1 = 0" "sc_running st" using i True by (auto simp: idle_inv_def split: if_splits)
  have "queues_wf clk (sc_clock st + 1) (sc_tasks st) (sc_queue st) (sc_timers st) (sc_next st)"
    using i by (auto simp: idle_inv_def sched_wf_def intro: queues_wf_clock)
  then have b3: "busy_inv clk st3"
    using True z by (simp add: st3_def st2_def busy_inv_def sched_wf_def cancel_host_timeout_def)
  have e: "\<exists>k < sc_clock st3. clk (sc_clock st) \<le> clk k"
    by (rule exI [of _ "sc_clock st"]) (simp add: st3_def st2_def cancel_host_timeout_def)
  let ?s = "advance_timers (clk (sc_clock st)) st3"
  have b: "busy_inv clk ?s" by (rule advance_invs(2) [OF e b3])
  have "less_work st3 ?s"
    using advance_timers_ok [OF _ e] b3 advanced_less_work by (auto simp: busy_inv_def)
  then have "workload ?s \<le> workload st3" by (rule less_work_workload)
  also have "workload st3 \<le> 2 * card (queued st)"
  proof -
    have "card {i \<in> queued st. tk_callback (sc_tasks st i) \<noteq> None} \<le> card (queued st)"
      by (intro card_mono) auto
    then have "workload st \<le> 2 * card (queued st)" by (simp add: workload_def)
    then show ?thesis by (simp add: workload_def st3_def st2_def queued_def cancel_host_timeout_def)
  qed
  also have "card (queued st) \<le> length (sc_queue st) + length (sc_timers st)"
    unfolding queued_def by (rule order_trans [OF card_Un_le add_mono [OF card_length card_length]])
  finally have "workload ?s < fuel" using assms(4) by simp
  from work_loop_returns [OF _ b this, of beh True "clk (sc_clock st)"] assms(3)
  obtain r where "work_loop fuel clk beh True (clk (sc_clock st)) ?s = Some r" by blast
  moreover have "st\<lparr>sc_messages := sc_messages st - 1, sc_clock := sc_clock st + 1,
      sc_deadline := clk (sc_clock st) + sc_interval st\<rparr> = st2"
    by (simp only: st2_def z)
  ultimately show ?thesis
    using True
    by (cases r) (auto simp: perform_work_def unstable_now_def flush_work_def Let_def st3_def st2_def z
        split: option.split if_splits)
qed (auto simp: perform_work_def)

theorem scheduler_message_returns_witness:
  "\<exists>st'. perform_work 7 sample_clk sample_beh (sample_sched\<lparr>sc_messages := sc_messages sample_sched - 1\<rparr>) = Some st'"
  by (rule scheduler_message_returns [OF sample_reach]) (simp_all add: sample_queue sample_beh_def)

text \<open>
  Whatever code does through the interface, with any nesting of \<open>runWithPriority\<close> and \<open>next\<close> and
  whether or not it throws, the current priority is afterwards what it was before.
\<close>

theorem scheduler_priority_restored:
  "sc_priority (snd (exec_apis clk as st)) = sc_priority st"
  by (rule exec_priority(2))

end
