(* ===== verification/Web_Popper.thy ===== *)
theory Web_Popper
  imports Complex_Main
begin

text \<open>
  The placement engine of the admin UI's tooltips and drop-downs (\<open>web/bundle.js\<close>, lines 81 to 105:
  the module of Popper 1.16.0 the bundle carries). A placement is a side and a variation; an offsets
  object is the record \<open>rect\<close>, whose \<open>right\<close> and \<open>bottom\<close> are fields of their own, brought up to date
  only by \<open>getClientRect\<close>. Numbers are rationals. What is read from the page (outer and client sizes
  of the popper, the boundaries computed for a modifier, the reference's offsets, the numbers of the
  \<open>offset\<close> option, the box of the arrow) is the record \<open>page\<close>, the same during one update.
\<close>

section \<open>Placements\<close>

datatype side = SAuto | STop | SRight | SBottom | SLeft

datatype variation = VStart | VEnd

type_synonym placement = "side \<times> variation option"

definition placements :: "placement list" where
  "placements =
     [(SAuto, Some VStart), (SAuto, None), (SAuto, Some VEnd),
      (STop, Some VStart), (STop, None), (STop, Some VEnd),
      (SRight, Some VStart), (SRight, None), (SRight, Some VEnd),
      (SBottom, Some VEnd), (SBottom, None), (SBottom, Some VStart),
      (SLeft, Some VEnd), (SLeft, None), (SLeft, Some VStart)]"

definition valid_placements :: "placement list" where
  "valid_placements = drop 3 placements"

fun index_of :: "'a \<Rightarrow> 'a list \<Rightarrow> nat option" where
  "index_of x [] = None"
| "index_of x (y # ys) = (if x = y then Some 0 else map_option Suc (index_of x ys))"

text \<open>\<open>slice(0, -1)\<close> drops the last element: the index of an unknown placement is \<open>-1\<close>.\<close>

definition clockwise :: "placement \<Rightarrow> bool \<Rightarrow> placement list" where
  "clockwise e reversed =
     (let i = (case index_of e valid_placements of
                 Some n \<Rightarrow> drop (n + 1) valid_placements @ take n valid_placements
               | None \<Rightarrow> valid_placements @ butlast valid_placements)
      in if reversed then rev i else i)"

fun opposite_side :: "side \<Rightarrow> side" where
  "opposite_side SLeft = SRight"
| "opposite_side SRight = SLeft"
| "opposite_side SBottom = STop"
| "opposite_side STop = SBottom"
| "opposite_side SAuto = SAuto"

definition opposite_placement :: "placement \<Rightarrow> placement" where
  "opposite_placement p = (opposite_side (fst p), snd p)"

section \<open>Rectangles\<close>

record rect =
  rc_left :: rat
  rc_top :: rat
  rc_width :: rat
  rc_height :: rat
  rc_right :: rat
  rc_bottom :: rat

definition client_rect :: "rect \<Rightarrow> rect" where
  "client_rect r = r\<lparr>rc_right := rc_left r + rc_width r, rc_bottom := rc_top r + rc_height r\<rparr>"

definition fl :: "rat \<Rightarrow> rat" where "fl x = of_int \<lfloor>x\<rfloor>"

text \<open>\<open>Math.round\<close>: half way goes up.\<close>

definition js_round :: "rat \<Rightarrow> rat" where "js_round x = of_int \<lfloor>x + 1 / 2\<rfloor>"

definition is_horizontal :: "side \<Rightarrow> bool" where
  "is_horizontal s = (s = SLeft \<or> s = SRight)"

definition is_vertical :: "side \<Rightarrow> bool" where
  "is_vertical s = (s = STop \<or> s = SBottom)"

section \<open>Options and state\<close>

datatype modifier_name =
  MShift | MOffset | MPreventOverflow | MKeepTogether | MArrow | MFlip | MInner | MHide
| MComputeStyle | MApplyStyle

record modifier =
  md_name :: modifier_name
  md_order :: rat
  md_enabled :: bool

datatype behavior = BFlip | BClockwise | BCounterclockwise | BCustom "side list"

record flip_options =
  fo_behavior :: behavior
  fo_variations :: bool
  fo_variations_by_content :: bool

text \<open>The measured arrow: its outer size along the popper, the popper's margin and border there.\<close>

record arrow_box =
  ab_size :: rat
  ab_margin :: rat
  ab_border :: rat

record page =
  pg_outer_width :: rat
  pg_outer_height :: rat
  pg_client_width :: rat
  pg_client_height :: rat
  pg_reference :: rect
  pg_overflow_bounds :: rect
  pg_flip_bounds :: rect
  pg_auto_bounds :: rect
  pg_offset :: "rat \<times> rat"
  pg_arrow :: "arrow_box option"

record popper_options =
  op_placement :: placement
  op_modifiers :: "modifier list"
  op_flip :: flip_options
  op_priority :: "side list"
  op_escape_with_reference :: bool

record popper_data =
  pd_placement :: placement
  pd_original :: placement
  pd_flipped :: bool
  pd_popper :: rect
  pd_reference :: rect
  pd_boundaries :: "rect option"
  pd_arrow :: "rat option"
  pd_hide :: "bool option"

section \<open>Computing a placement\<close>

text \<open>The areas around the reference, in the order of the keys, and the stable sort by area.\<close>

definition side_areas :: "rect \<Rightarrow> rect \<Rightarrow> (side \<times> rat \<times> rat) list" where
  "side_areas s t =
     [(STop, rc_width s, rc_top t - rc_top s), (SRight, rc_right s - rc_right t, rc_height s),
      (SBottom, rc_width s, rc_bottom s - rc_bottom t), (SLeft, rc_left t - rc_left s, rc_height s)]"

definition area_of :: "side \<times> rat \<times> rat \<Rightarrow> rat" where
  "area_of a = fst (snd a) * snd (snd a)"

definition compute_auto_placement :: "page \<Rightarrow> placement \<Rightarrow> rect \<Rightarrow> placement" where
  "compute_auto_placement pg e t =
     (if fst e \<noteq> SAuto then e
      else
        (let l = sort_key (\<lambda>a. - area_of a) (side_areas (pg_auto_bounds pg) t);
             c = filter (\<lambda>a. fst (snd a) \<ge> pg_client_width pg \<and> snd (snd a) \<ge> pg_client_height pg) l;
             u = (if length c > 0 then fst (c ! 0) else fst (l ! 0))
         in (u, snd e)))"

definition popper_offsets :: "page \<Rightarrow> rect \<Rightarrow> side \<Rightarrow> rect \<Rightarrow> rect" where
  "popper_offsets pg t n r0 =
     (let w = pg_outer_width pg; h = pg_outer_height pg;
          r = r0\<lparr>rc_width := w, rc_height := h\<rparr>
      in
      if is_horizontal n then
        r\<lparr>rc_top := rc_top t + rc_height t / 2 - h / 2,
          rc_left := (if n = SLeft then rc_left t - w else rc_right t)\<rparr>
      else
        r\<lparr>rc_left := rc_left t + rc_width t / 2 - w / 2,
          rc_top := (if n = STop then rc_top t - h else rc_bottom t)\<rparr>)"

section \<open>The modifiers\<close>

definition modifier_shift :: "popper_data \<Rightarrow> popper_data" where
  "modifier_shift d =
     (case snd (pd_placement d) of
        None \<Rightarrow> d
      | Some v \<Rightarrow>
          (let o1 = pd_reference d; s = pd_popper d in
           if is_vertical (fst (pd_placement d)) then
             d\<lparr>pd_popper := s\<lparr>rc_left :=
                 (case v of VStart \<Rightarrow> rc_left o1 | VEnd \<Rightarrow> rc_left o1 + rc_width o1 - rc_width s)\<rparr>\<rparr>
           else
             d\<lparr>pd_popper := s\<lparr>rc_top :=
                 (case v of VStart \<Rightarrow> rc_top o1 | VEnd \<Rightarrow> rc_top o1 + rc_height o1 - rc_height s)\<rparr>\<rparr>))"

definition modifier_offset :: "page \<Rightarrow> popper_data \<Rightarrow> popper_data" where
  "modifier_offset pg d =
     (let (l0, l1) = pg_offset pg; p = pd_popper d in
      case fst (pd_placement d) of
        SLeft \<Rightarrow> d\<lparr>pd_popper := p\<lparr>rc_top := rc_top p + l0, rc_left := rc_left p - l1\<rparr>\<rparr>
      | SRight \<Rightarrow> d\<lparr>pd_popper := p\<lparr>rc_top := rc_top p + l0, rc_left := rc_left p + l1\<rparr>\<rparr>
      | STop \<Rightarrow> d\<lparr>pd_popper := p\<lparr>rc_left := rc_left p + l0, rc_top := rc_top p - l1\<rparr>\<rparr>
      | SBottom \<Rightarrow> d\<lparr>pd_popper := p\<lparr>rc_left := rc_left p + l0, rc_top := rc_top p + l1\<rparr>\<rparr>
      | SAuto \<Rightarrow> d)"

text \<open>One side of the priority list: \<open>primary\<close> for left and top, \<open>secondary\<close> for right and bottom.\<close>

definition overflow_side :: "rect \<Rightarrow> bool \<Rightarrow> side \<Rightarrow> rect \<Rightarrow> rect" where
  "overflow_side c escape e h =
     (case e of
        SLeft \<Rightarrow>
          h\<lparr>rc_left := (if rc_left h < rc_left c \<and> \<not> escape
                        then max (rc_left h) (rc_left c) else rc_left h)\<rparr>
      | STop \<Rightarrow>
          h\<lparr>rc_top := (if rc_top h < rc_top c \<and> \<not> escape
                       then max (rc_top h) (rc_top c) else rc_top h)\<rparr>
      | SRight \<Rightarrow>
          h\<lparr>rc_left := (if rc_right h > rc_right c \<and> \<not> escape
                        then min (rc_left h) (rc_right c - rc_width h) else rc_left h)\<rparr>
      | SBottom \<Rightarrow>
          h\<lparr>rc_top := (if rc_bottom h > rc_bottom c \<and> \<not> escape
                       then min (rc_top h) (rc_bottom c - rc_height h) else rc_top h)\<rparr>
      | SAuto \<Rightarrow> h)"

definition modifier_prevent_overflow :: "page \<Rightarrow> popper_options \<Rightarrow> popper_data \<Rightarrow> popper_data" where
  "modifier_prevent_overflow pg opt d =
     (let c = pg_overflow_bounds pg in
      d\<lparr>pd_boundaries := Some c,
        pd_popper := fold (overflow_side c (op_escape_with_reference opt)) (op_priority opt) (pd_popper d)\<rparr>)"

definition modifier_keep_together :: "popper_data \<Rightarrow> popper_data" where
  "modifier_keep_together d =
     (let i = pd_reference d; n0 = pd_popper d in
      if is_vertical (fst (pd_placement d)) then
        (let n1 = (if rc_right n0 < fl (rc_left i)
                   then n0\<lparr>rc_left := fl (rc_left i) - rc_width n0\<rparr> else n0);
             n2 = (if rc_left n1 > fl (rc_right i) then n1\<lparr>rc_left := fl (rc_right i)\<rparr> else n1)
         in d\<lparr>pd_popper := n2\<rparr>)
      else
        (let n1 = (if rc_bottom n0 < fl (rc_top i)
                   then n0\<lparr>rc_top := fl (rc_top i) - rc_height n0\<rparr> else n0);
             n2 = (if rc_top n1 > fl (rc_bottom i) then n1\<lparr>rc_top := fl (rc_bottom i)\<rparr> else n1)
         in d\<lparr>pd_popper := n2\<rparr>))"

text \<open>\<open>isModifierRequired\<close>: the requesting modifier exists and an enabled one of smaller order does too.\<close>

definition modifier_required :: "modifier list \<Rightarrow> modifier_name \<Rightarrow> modifier_name \<Rightarrow> bool" where
  "modifier_required ms t n =
     (case find (\<lambda>m. md_name m = t) ms of
        None \<Rightarrow> False
      | Some i \<Rightarrow> list_ex (\<lambda>m. md_name m = n \<and> md_enabled m \<and> md_order m < md_order i) ms)"

definition modifier_enabled :: "modifier list \<Rightarrow> modifier_name \<Rightarrow> bool" where
  "modifier_enabled ms t = list_ex (\<lambda>m. md_enabled m \<and> md_name m = t) ms"

definition modifier_arrow :: "page \<Rightarrow> popper_options \<Rightarrow> popper_data \<Rightarrow> popper_data" where
  "modifier_arrow pg opt d =
     (if \<not> modifier_required (op_modifiers opt) MArrow MKeepTogether then d
      else
        (case pg_arrow pg of
           None \<Rightarrow> d
         | Some ab \<Rightarrow>
             (let a = pd_popper d; l = pd_reference d; m = ab_size ab in
              if is_horizontal (fst (pd_placement d)) then
                (let t0 = rc_top a;
                     t1 = (if rc_bottom l - m < t0 then t0 - (t0 - (rc_bottom l - m)) else t0);
                     t2 = (if rc_top l + m > rc_bottom a then t1 + (rc_top l + m - rc_bottom a) else t1);
                     p = client_rect (a\<lparr>rc_top := t2\<rparr>);
                     v = rc_top l + rc_height l / 2 - m / 2;
                     c = v - rc_top p - ab_margin ab - ab_border ab
                 in d\<lparr>pd_popper := p,
                      pd_arrow := Some (js_round (max (min (rc_height a - m) c) 0))\<rparr>)
              else
                (let t0 = rc_left a;
                     t1 = (if rc_right l - m < t0 then t0 - (t0 - (rc_right l - m)) else t0);
                     t2 = (if rc_left l + m > rc_right a then t1 + (rc_left l + m - rc_right a) else t1);
                     p = client_rect (a\<lparr>rc_left := t2\<rparr>);
                     v = rc_left l + rc_width l / 2 - m / 2;
                     c = v - rc_left p - ab_margin ab - ab_border ab
                 in d\<lparr>pd_popper := p,
                      pd_arrow := Some (js_round (max (min (rc_width a - m) c) 0))\<rparr>))))"

definition modifier_inner :: "popper_data \<Rightarrow> popper_data" where
  "modifier_inner d =
     (let n = fst (pd_placement d); r = pd_popper d; o1 = pd_reference d;
          edge = (case n of SLeft \<Rightarrow> rc_left o1 | SRight \<Rightarrow> rc_right o1 | STop \<Rightarrow> rc_top o1
                  | SBottom \<Rightarrow> rc_bottom o1 | SAuto \<Rightarrow> 0);
          a = (n \<noteq> STop \<and> n \<noteq> SLeft);
          r1 = (if is_horizontal n
                then r\<lparr>rc_left := edge - (if a then rc_width r else 0)\<rparr>
                else r\<lparr>rc_top := edge - (if a then rc_height r else 0)\<rparr>)
      in d\<lparr>pd_placement := opposite_placement (pd_placement d), pd_popper := client_rect r1\<rparr>)"

definition modifier_hide :: "popper_options \<Rightarrow> popper_data \<Rightarrow> popper_data" where
  "modifier_hide opt d =
     (if \<not> modifier_required (op_modifiers opt) MHide MPreventOverflow then d
      else
        (let t = pd_reference d in
         case pd_boundaries d of
           None \<Rightarrow> d
         | Some n \<Rightarrow>
             if rc_bottom t < rc_top n \<or> rc_left t > rc_right n \<or> rc_top t > rc_bottom n
                \<or> rc_right t < rc_left n
             then (if pd_hide d = Some True then d else d\<lparr>pd_hide := Some True\<rparr>)
             else (if pd_hide d = Some False then d else d\<lparr>pd_hide := Some False\<rparr>)))"

text \<open>The positions \<open>computeStyle\<close> writes, with and without rounding to whole pixels.\<close>

definition rounded_offsets :: "bool \<Rightarrow> popper_data \<Rightarrow> rect" where
  "rounded_offsets t d =
     (let i = pd_popper d; l = js_round (rc_width (pd_reference d)); c = js_round (rc_width i);
          odd1 = (\<lambda>x. x - 2 * fl (x / 2) = 1);
          u = is_horizontal (fst (pd_placement d)); h = (snd (pd_placement d) \<noteq> None);
          same_parity = (odd1 l = odd1 c);
          horizontal = (\<lambda>x. if t then (if u \<or> h \<or> same_parity then js_round x else fl x) else x);
          vertical = (\<lambda>x. if t then js_round x else x)
      in i\<lparr>rc_left := horizontal (if odd1 l \<and> odd1 c \<and> \<not> h \<and> t then rc_left i - 1 else rc_left i),
           rc_top := vertical (rc_top i), rc_bottom := vertical (rc_bottom i),
           rc_right := horizontal (rc_right i)\<rparr>)"

section \<open>Running the modifiers\<close>

text \<open>Every modifier but \<open>flip\<close>. The last two write styles only.\<close>

definition basic_modifier :: "page \<Rightarrow> popper_options \<Rightarrow> modifier_name \<Rightarrow> popper_data \<Rightarrow> popper_data" where
  "basic_modifier pg opt m d =
     (case m of
        MShift \<Rightarrow> modifier_shift d
      | MOffset \<Rightarrow> modifier_offset pg d
      | MPreventOverflow \<Rightarrow> modifier_prevent_overflow pg opt d
      | MKeepTogether \<Rightarrow> modifier_keep_together d
      | MArrow \<Rightarrow> modifier_arrow pg opt d
      | MFlip \<Rightarrow> d
      | MInner \<Rightarrow> modifier_inner d
      | MHide \<Rightarrow> modifier_hide opt d
      | MComputeStyle \<Rightarrow> d
      | MApplyStyle \<Rightarrow> d)"

definition run_modifier ::
    "(modifier_name \<Rightarrow> popper_data \<Rightarrow> popper_data) \<Rightarrow> modifier \<Rightarrow> popper_data \<Rightarrow> popper_data" where
  "run_modifier f m d =
     (if md_enabled m
      then f (md_name m)
             (d\<lparr>pd_popper := client_rect (pd_popper d), pd_reference := client_rect (pd_reference d)\<rparr>)
      else d)"

text \<open>\<open>runModifiers(modifiers, data, 'flip')\<close>: those before the first \<open>flip\<close>.\<close>

definition run_before_flip :: "page \<Rightarrow> popper_options \<Rightarrow> popper_data \<Rightarrow> popper_data" where
  "run_before_flip pg opt d =
     fold (run_modifier (basic_modifier pg opt))
       (takeWhile (\<lambda>m. md_name m \<noteq> MFlip) (op_modifiers opt)) d"

definition flip_order :: "behavior \<Rightarrow> side \<Rightarrow> placement list" where
  "flip_order b i =
     (case b of
        BFlip \<Rightarrow> [(i, None), (opposite_side i, None)]
      | BClockwise \<Rightarrow> clockwise (i, None) False
      | BCounterclockwise \<Rightarrow> clockwise (i, None) True
      | BCustom ss \<Rightarrow> map (\<lambda>s. (s, None)) ss)"

definition swap_variation :: "variation option \<Rightarrow> variation option" where
  "swap_variation v = map_option (\<lambda>x. case x of VStart \<Rightarrow> VEnd | VEnd \<Rightarrow> VStart) v"

text \<open>
  The state of the loop of \<open>flip\<close>: the placement \<open>i\<close>, the variation \<open>o\<close> and the data. The code
  compares and joins strings: a side taken from the flip order with a variation of its own keeps it.
\<close>

definition join_variation :: "placement \<Rightarrow> variation option \<Rightarrow> placement" where
  "join_variation i o1 = (fst i, (case snd i of Some v \<Rightarrow> Some v | None \<Rightarrow> o1))"

text \<open>The popper overlaps the reference, or leaves the boundaries on its own side.\<close>

definition needs_flip :: "page \<Rightarrow> popper_data \<Rightarrow> bool" where
  "needs_flip pg d =
     (let i = fst (pd_placement d); c = pd_popper d; u = pd_reference d; n = pg_flip_bounds pg in
      (i = SLeft \<and> fl (rc_right c) > fl (rc_left u) \<or> i = SRight \<and> fl (rc_left c) < fl (rc_right u)
       \<or> i = STop \<and> fl (rc_bottom c) > fl (rc_top u) \<or> i = SBottom \<and> fl (rc_top c) < fl (rc_bottom u))
      \<or> (i = SLeft \<and> fl (rc_left c) < fl (rc_left n) \<or> i = SRight \<and> fl (rc_right c) > fl (rc_right n)
         \<or> i = STop \<and> fl (rc_top c) < fl (rc_top n) \<or> i = SBottom \<and> fl (rc_bottom c) > fl (rc_bottom n)))"

definition needs_swap :: "page \<Rightarrow> flip_options \<Rightarrow> variation option \<Rightarrow> popper_data \<Rightarrow> bool" where
  "needs_swap pg fo o0 d =
     (let y = is_vertical (fst (pd_placement d)); c = pd_popper d; n = pg_flip_bounds pg;
          f = (fl (rc_left c) < fl (rc_left n)); p = (fl (rc_right c) > fl (rc_right n));
          g = (fl (rc_top c) < fl (rc_top n)); m = (fl (rc_bottom c) > fl (rc_bottom n))
      in
      fo_variations fo \<and>
        (y \<and> o0 = Some VStart \<and> f \<or> y \<and> o0 = Some VEnd \<and> p
         \<or> \<not> y \<and> o0 = Some VStart \<and> g \<or> \<not> y \<and> o0 = Some VEnd \<and> m)
      \<or> fo_variations_by_content fo \<and>
        (y \<and> o0 = Some VStart \<and> p \<or> y \<and> o0 = Some VEnd \<and> f
         \<or> \<not> y \<and> o0 = Some VStart \<and> m \<or> \<not> y \<and> o0 = Some VEnd \<and> g))"

definition flip_turn ::
    "page \<Rightarrow> popper_options \<Rightarrow> placement list \<Rightarrow> nat \<Rightarrow> placement \<times> variation option \<times> popper_data
       \<Rightarrow> placement \<times> variation option \<times> popper_data" where
  "flip_turn pg opt s l st =
     (let (i0, o0, d) = st in
      if i0 \<noteq> s ! l \<or> length s = l + 1 then st
      else
        (let i = (fst (pd_placement d), None);
             flip = needs_flip pg d; swap = needs_swap pg (op_flip opt) o0 d
         in
         if flip \<or> swap then
           (let i1 = (if flip then s ! (l + 1) else i);
                o1 = (if swap then swap_variation o0 else o0);
                pl = join_variation i1 o1;
                d1 = d\<lparr>pd_flipped := True, pd_placement := pl,
                       pd_popper := popper_offsets pg (pd_reference d) (fst pl) (pd_popper d)\<rparr>
            in (i1, o1, run_before_flip pg opt d1))
         else (i, o0, d)))"

definition modifier_flip :: "page \<Rightarrow> popper_options \<Rightarrow> popper_data \<Rightarrow> popper_data" where
  "modifier_flip pg opt d =
     (if modifier_enabled (op_modifiers opt) MInner then d
      else if pd_flipped d \<and> pd_placement d = pd_original d then d
      else
        (let i = fst (pd_placement d); s = flip_order (fo_behavior (op_flip opt)) i
         in snd (snd (fold (flip_turn pg opt s) [0..<length s] ((i, None), snd (pd_placement d), d)))))"

definition full_modifier :: "page \<Rightarrow> popper_options \<Rightarrow> modifier_name \<Rightarrow> popper_data \<Rightarrow> popper_data" where
  "full_modifier pg opt m d =
     (if m = MFlip then modifier_flip pg opt d else basic_modifier pg opt m d)"

definition run_modifiers :: "page \<Rightarrow> popper_options \<Rightarrow> popper_data \<Rightarrow> popper_data" where
  "run_modifiers pg opt d = fold (run_modifier (full_modifier pg opt)) (op_modifiers opt) d"

section \<open>The instance\<close>

definition default_modifiers :: "modifier list" where
  "default_modifiers =
     [\<lparr>md_name = MShift, md_order = 100, md_enabled = True\<rparr>,
      \<lparr>md_name = MOffset, md_order = 200, md_enabled = True\<rparr>,
      \<lparr>md_name = MPreventOverflow, md_order = 300, md_enabled = True\<rparr>,
      \<lparr>md_name = MKeepTogether, md_order = 400, md_enabled = True\<rparr>,
      \<lparr>md_name = MArrow, md_order = 500, md_enabled = True\<rparr>,
      \<lparr>md_name = MFlip, md_order = 600, md_enabled = True\<rparr>,
      \<lparr>md_name = MInner, md_order = 700, md_enabled = False\<rparr>,
      \<lparr>md_name = MHide, md_order = 800, md_enabled = True\<rparr>,
      \<lparr>md_name = MComputeStyle, md_order = 850, md_enabled = True\<rparr>,
      \<lparr>md_name = MApplyStyle, md_order = 900, md_enabled = True\<rparr>]"

text \<open>The options of the caller for one modifier override the defaults; the list is sorted by order.\<close>

record modifier_override =
  mo_order :: "rat option"
  mo_enabled :: "bool option"

definition popper_modifiers :: "(modifier_name \<Rightarrow> modifier_override option) \<Rightarrow> modifier list" where
  "popper_modifiers ov =
     sort_key md_order
       (map (\<lambda>m. case ov (md_name m) of
                   None \<Rightarrow> m
                 | Some x \<Rightarrow>
                     m\<lparr>md_order := (case mo_order x of Some r \<Rightarrow> r | None \<Rightarrow> md_order m),
                       md_enabled := (case mo_enabled x of Some b \<Rightarrow> b | None \<Rightarrow> md_enabled m)\<rparr>)
          default_modifiers)"

record popper_state =
  ps_destroyed :: bool
  ps_created :: bool

definition popper_state_new :: popper_state where
  "popper_state_new = \<lparr>ps_destroyed = False, ps_created = False\<rparr>"

datatype popper_event = OnCreate popper_data | OnUpdate popper_data

text \<open>The fields \<open>right\<close> and \<open>bottom\<close> of the popper are undefined until a modifier runs.\<close>

definition rect_blank :: rect where
  "rect_blank = \<lparr>rc_left = 0, rc_top = 0, rc_width = 0, rc_height = 0, rc_right = 0, rc_bottom = 0\<rparr>"

definition initial_data :: "page \<Rightarrow> popper_options \<Rightarrow> popper_data" where
  "initial_data pg opt =
     (let ref1 = client_rect (pg_reference pg);
          pl = compute_auto_placement pg (op_placement opt) ref1
      in \<lparr>pd_placement = pl, pd_original = pl, pd_flipped = False,
          pd_popper = popper_offsets pg ref1 (fst pl) rect_blank, pd_reference = ref1,
          pd_boundaries = None, pd_arrow = None, pd_hide = None\<rparr>)"

definition popper_update ::
    "page \<Rightarrow> popper_options \<Rightarrow> popper_state \<Rightarrow> popper_state \<times> popper_event option" where
  "popper_update pg opt st =
     (if ps_destroyed st then (st, None)
      else
        (let d = run_modifiers pg opt (initial_data pg opt) in
         if ps_created st then (st, Some (OnUpdate d))
         else (st\<lparr>ps_created := True\<rparr>, Some (OnCreate d))))"

definition popper_destroy :: "popper_state \<Rightarrow> popper_state" where
  "popper_destroy st = st\<lparr>ps_destroyed := True\<rparr>"

section \<open>Lemmas\<close>

lemma client_rect_simps [simp]:
  "rc_left (client_rect r) = rc_left r" "rc_top (client_rect r) = rc_top r"
  "rc_width (client_rect r) = rc_width r" "rc_height (client_rect r) = rc_height r"
  "rc_right (client_rect r) = rc_left r + rc_width r"
  "rc_bottom (client_rect r) = rc_top r + rc_height r"
  "client_rect (client_rect r) = client_rect r"
  by (simp_all add: client_rect_def)

lemma fl_mono: "x \<le> y \<Longrightarrow> fl x \<le> fl y"
  by (simp add: fl_def floor_mono)

lemma clockwise_omits: "(i, None) \<notin> set (clockwise (i, None) False)"
  by (cases i) (simp_all add: clockwise_def valid_placements_def placements_def)

lemma flip_turn_no_match:
  assumes "(i, None) \<notin> set s" "l < length s"
  shows "flip_turn pg opt s l ((i, None), o0, d) = ((i, None), o0, d)"
proof -
  have "(i, None) \<noteq> s ! l" using assms nth_mem by metis
  then show ?thesis by (simp add: flip_turn_def)
qed

lemma flip_loop_no_match:
  assumes "(i, None) \<notin> set s" "set ls \<subseteq> {..<length s}"
  shows "fold (flip_turn pg opt s) ls ((i, None), o0, d) = ((i, None), o0, d)"
  using assms(2) by (induction ls) (simp_all add: flip_turn_no_match [OF assms(1)])

text \<open>What no modifier before \<open>flip\<close> changes.\<close>

definition kept :: "popper_data \<Rightarrow> popper_data \<Rightarrow> bool" where
  "kept d d' \<longleftrightarrow>
     pd_placement d' = pd_placement d \<and> pd_original d' = pd_original d \<and> pd_flipped d' = pd_flipped d \<and>
     pd_reference d' = pd_reference d \<and> rc_width (pd_popper d') = rc_width (pd_popper d) \<and>
     rc_height (pd_popper d') = rc_height (pd_popper d)"

lemma kept_refl [simp]: "kept d d" by (simp add: kept_def)

lemma kept_trans: "kept d d' \<Longrightarrow> kept d' d'' \<Longrightarrow> kept d d''" by (simp add: kept_def)

lemma overflow_side_size [simp]:
  "rc_width (overflow_side c x e h) = rc_width h" "rc_height (overflow_side c x e h) = rc_height h"
  by (cases e; simp add: overflow_side_def)+

lemma overflow_fold_size [simp]:
  "rc_width (fold (overflow_side c x) es h) = rc_width h"
  "rc_height (fold (overflow_side c x) es h) = rc_height h"
  by (induction es arbitrary: h) simp_all

lemma modifier_kept:
  "kept d (modifier_shift d)" "kept d (modifier_offset pg d)"
  "kept d (modifier_prevent_overflow pg opt d)" "kept d (modifier_keep_together d)"
  by (auto simp: kept_def modifier_shift_def modifier_offset_def modifier_prevent_overflow_def
      modifier_keep_together_def Let_def split: option.split variation.split prod.split side.split)

text \<open>The popper touches or overlaps the reference along the axis of its edge.\<close>

definition attached :: "popper_data \<Rightarrow> bool" where
  "attached d \<longleftrightarrow>
     (let p = client_rect (pd_popper d); r = pd_reference d in
      if is_vertical (fst (pd_placement d))
      then fl (rc_left r) \<le> rc_right p \<and> rc_left p \<le> fl (rc_right r)
      else fl (rc_top r) \<le> rc_bottom p \<and> rc_top p \<le> fl (rc_bottom r))"

lemma keep_together_attached:
  assumes "client_rect (pd_popper d) = pd_popper d" "client_rect (pd_reference d) = pd_reference d"
    and "0 \<le> rc_width (pd_popper d)" "0 \<le> rc_height (pd_popper d)"
    and "0 \<le> rc_width (pd_reference d)" "0 \<le> rc_height (pd_reference d)"
  shows "attached (modifier_keep_together d)"
proof -
  let ?p = "pd_popper d" and ?r = "pd_reference d"
  have e: "rc_right ?p = rc_left ?p + rc_width ?p" "rc_bottom ?p = rc_top ?p + rc_height ?p"
    "rc_right ?r = rc_left ?r + rc_width ?r" "rc_bottom ?r = rc_top ?r + rc_height ?r"
    using assms(1,2) by (metis client_rect_simps(5), metis client_rect_simps(6),
      metis client_rect_simps(5), metis client_rect_simps(6))
  have f: "fl (rc_left ?r) \<le> fl (rc_right ?r)" "fl (rc_top ?r) \<le> fl (rc_bottom ?r)"
    using e assms(5,6) by (auto intro: fl_mono)
  show ?thesis
    using e f assms(3-6) by (auto simp: attached_def modifier_keep_together_def Let_def)
qed

text \<open>The data during an update: the reference is up to date and no size is negative.\<close>

definition sane :: "popper_data \<Rightarrow> bool" where
  "sane d \<longleftrightarrow>
     client_rect (pd_reference d) = pd_reference d \<and>
     0 \<le> rc_width (pd_popper d) \<and> 0 \<le> rc_height (pd_popper d) \<and>
     0 \<le> rc_width (pd_reference d) \<and> 0 \<le> rc_height (pd_reference d)"

lemma kept_sane: "kept d d' \<Longrightarrow> sane d \<Longrightarrow> sane d'"
  by (simp add: kept_def sane_def)

definition fresh :: "popper_data \<Rightarrow> popper_data" where
  "fresh d = d\<lparr>pd_popper := client_rect (pd_popper d), pd_reference := client_rect (pd_reference d)\<rparr>"

lemma fresh_kept: "sane d \<Longrightarrow> kept d (fresh d)"
  by (simp add: kept_def fresh_def sane_def)

lemma attached_fresh: "attached d \<Longrightarrow> sane d \<Longrightarrow> attached (fresh d)"
  by (simp add: attached_def fresh_def sane_def Let_def)

lemma run_before_flip_default:
  assumes "op_modifiers opt = default_modifiers" "pg_arrow pg = None"
  shows "run_before_flip pg opt d =
    fresh (modifier_keep_together (fresh
      (modifier_prevent_overflow pg opt (fresh (modifier_offset pg (fresh (modifier_shift (fresh d))))))))"
proof -
  have "takeWhile (\<lambda>m. md_name m \<noteq> MFlip) (op_modifiers opt) =
     [\<lparr>md_name = MShift, md_order = 100, md_enabled = True\<rparr>,
      \<lparr>md_name = MOffset, md_order = 200, md_enabled = True\<rparr>,
      \<lparr>md_name = MPreventOverflow, md_order = 300, md_enabled = True\<rparr>,
      \<lparr>md_name = MKeepTogether, md_order = 400, md_enabled = True\<rparr>,
      \<lparr>md_name = MArrow, md_order = 500, md_enabled = True\<rparr>]"
    by (simp add: assms(1) default_modifiers_def)
  then show ?thesis
    by (simp add: run_before_flip_def run_modifier_def basic_modifier_def fresh_def [symmetric]
        modifier_arrow_def assms(2))
qed

lemma run_before_flip_attached:
  assumes "op_modifiers opt = default_modifiers" "pg_arrow pg = None" "sane d"
  shows "attached (run_before_flip pg opt d)" "kept d (run_before_flip pg opt d)"
proof -
  define d1 where "d1 = modifier_shift (fresh d)"
  define d2 where "d2 = modifier_offset pg (fresh d1)"
  define d3 where "d3 = modifier_prevent_overflow pg opt (fresh d2)"
  define d4 where "d4 = modifier_keep_together (fresh d3)"
  have eq: "run_before_flip pg opt d = fresh d4"
    using run_before_flip_default [OF assms(1,2)] by (simp add: d1_def d2_def d3_def d4_def)
  note step = fresh_kept modifier_kept kept_trans kept_sane
  have k1: "kept d d1" using assms(3) step by (metis d1_def)
  have s1: "sane d1" using k1 assms(3) kept_sane by blast
  have k2: "kept d d2" using k1 s1 step by (metis d2_def)
  have s2: "sane d2" using k2 assms(3) kept_sane by blast
  have k3: "kept d d3" using k2 s2 step by (metis d3_def)
  have s3: "sane d3" using k3 assms(3) kept_sane by blast
  have k4: "kept d d4" using k3 s3 step by (metis d4_def)
  have s4: "sane d4" using k4 assms(3) kept_sane by blast
  show "kept d (run_before_flip pg opt d)"
    unfolding eq using k4 fresh_kept [OF s4] by (rule kept_trans)
  have "attached d4"
    unfolding d4_def using s3 by (intro keep_together_attached) (simp_all add: fresh_def sane_def)
  then show "attached (run_before_flip pg opt d)"
    unfolding eq using s4 by (rule attached_fresh)
qed


lemma hide_attached:
  "attached (modifier_hide opt d) = attached d" "kept d (modifier_hide opt d)"
  by (auto simp: modifier_hide_def attached_def kept_def Let_def split: option.split)

lemma popper_offsets_size [simp]:
  "rc_width (popper_offsets pg t n r) = pg_outer_width pg"
  "rc_height (popper_offsets pg t n r) = pg_outer_height pg"
  by (simp_all add: popper_offsets_def Let_def)

text \<open>What the loop of \<open>flip\<close> preserves: the popper stays attached and the reference the same.\<close>

definition steady :: "rect \<Rightarrow> popper_data \<Rightarrow> bool" where
  "steady r d \<longleftrightarrow> attached d \<and> sane d \<and> pd_reference d = r"

lemma flip_turn_steady:
  assumes "op_modifiers opt = default_modifiers" "pg_arrow pg = None"
    and "0 \<le> pg_outer_width pg" "0 \<le> pg_outer_height pg"
    and "steady r (snd (snd st))"
  shows "steady r (snd (snd (flip_turn pg opt s l st)))"
proof -
  obtain i0 o0 d where st: "st = (i0, o0, d)" by (cases st)
  have d: "steady r d" using assms(5) by (simp add: st)
  have run: "steady r (run_before_flip pg opt (d\<lparr>pd_flipped := True, pd_placement := pl,
      pd_popper := popper_offsets pg (pd_reference d) (fst pl) (pd_popper d)\<rparr>))"
    (is "steady r (run_before_flip pg opt ?d1)") for pl
  proof -
    have s: "sane ?d1" using d assms(3,4) by (auto simp: steady_def sane_def)
    have "kept ?d1 (run_before_flip pg opt ?d1)" by (rule run_before_flip_attached [OF assms(1,2) s])
    then show ?thesis
      using run_before_flip_attached(1) [OF assms(1,2) s] kept_sane [OF _ s] d
      by (simp add: steady_def kept_def)
  qed
  show ?thesis
    unfolding st flip_turn_def by (simp add: Let_def d run)
qed

lemma modifier_flip_steady:
  assumes "op_modifiers opt = default_modifiers" "pg_arrow pg = None"
    and "0 \<le> pg_outer_width pg" "0 \<le> pg_outer_height pg" and "steady r d"
  shows "steady r (modifier_flip pg opt d)"
proof -
  have "steady r (snd (snd (fold (flip_turn pg opt s) ls st)))" if "steady r (snd (snd st))" for s ls st
    using that by (induction ls arbitrary: st) (simp_all add: flip_turn_steady [OF assms(1-4)])
  then show ?thesis using assms(5) by (simp add: modifier_flip_def Let_def)
qed

lemma fresh_steady: "steady r d \<Longrightarrow> steady r (fresh d)"
  using attached_fresh [of d] fresh_kept [of d] kept_sane [OF fresh_kept, of d]
  by (simp add: steady_def kept_def)

lemma hide_steady: "steady r d \<Longrightarrow> steady r (modifier_hide opt d)"
  using hide_attached [where opt = opt and d = d] kept_sane [OF hide_attached(2)] by (simp add: steady_def kept_def)

lemma run_modifiers_default:
  assumes "op_modifiers opt = default_modifiers" "pg_arrow pg = None"
  shows "run_modifiers pg opt d =
    fresh (fresh (modifier_hide opt (fresh (modifier_flip pg opt (fresh (run_before_flip pg opt d))))))"
  unfolding run_before_flip_default [OF assms] run_modifiers_def assms(1)
  by (simp add: default_modifiers_def run_modifier_def full_modifier_def basic_modifier_def
      fresh_def [symmetric] modifier_arrow_def assms(2))

lemma run_modifiers_steady:
  assumes "op_modifiers opt = default_modifiers" "pg_arrow pg = None"
    and "0 \<le> pg_outer_width pg" "0 \<le> pg_outer_height pg" and "sane d"
  shows "steady (pd_reference d) (run_modifiers pg opt d)"
proof -
  have "steady (pd_reference d) (run_before_flip pg opt d)"
    using run_before_flip_attached [OF assms(1,2,5)] kept_sane [OF _ assms(5)]
    by (simp add: steady_def kept_def)
  then show ?thesis
    unfolding run_modifiers_default [OF assms(1,2)]
    by (intro fresh_steady hide_steady modifier_flip_steady [OF assms(1-4)])
qed

lemma popper_modifiers_default: "popper_modifiers (\<lambda>_. None) = default_modifiers"
  by (simp add: popper_modifiers_def default_modifiers_def)

text \<open>No modifier but \<open>inner\<close> moves the popper to another side.\<close>

lemma basic_modifier_placement:
  assumes "m \<noteq> MInner"
  shows "pd_placement (basic_modifier pg opt m d) = pd_placement d \<and>
    pd_original (basic_modifier pg opt m d) = pd_original d \<and>
    pd_flipped (basic_modifier pg opt m d) = pd_flipped d"
  using assms modifier_kept [of d] hide_attached(2) [where opt = opt and d = d]
  by (cases m) (auto simp: basic_modifier_def kept_def modifier_arrow_def Let_def split: option.split)

lemma run_before_flip_placement:
  assumes "\<not> modifier_enabled (op_modifiers opt) MInner"
  shows "pd_placement (run_before_flip pg opt d) = pd_placement d \<and>
    pd_original (run_before_flip pg opt d) = pd_original d \<and>
    pd_flipped (run_before_flip pg opt d) = pd_flipped d"
proof -
  have "pd_placement (fold (run_modifier (basic_modifier pg opt)) ms d) = pd_placement d \<and>
      pd_original (fold (run_modifier (basic_modifier pg opt)) ms d) = pd_original d \<and>
      pd_flipped (fold (run_modifier (basic_modifier pg opt)) ms d) = pd_flipped d"
    if "\<forall>m \<in> set ms. md_enabled m \<longrightarrow> md_name m \<noteq> MInner" for ms
    using that
    by (induction ms arbitrary: d) (auto simp: run_modifier_def basic_modifier_placement)
  moreover have "\<forall>m \<in> set (takeWhile (\<lambda>m. md_name m \<noteq> MFlip) (op_modifiers opt)).
      md_enabled m \<longrightarrow> md_name m \<noteq> MInner"
    using assms by (auto simp: modifier_enabled_def list_ex_iff dest: set_takeWhileD)
  ultimately show ?thesis unfolding run_before_flip_def by blast
qed

lemma overflow_left_right:
  assumes "rc_right h = rc_left h + rc_width h" "rc_width h \<le> rc_right c - rc_left c"
  shows "rc_left c \<le> rc_left (overflow_side c False SRight (overflow_side c False SLeft h))"
    and "rc_left (overflow_side c False SRight (overflow_side c False SLeft h)) + rc_width h \<le> rc_right c"
  using assms by (auto simp: overflow_side_def max_def min_def)

lemma overflow_top_bottom:
  assumes "rc_bottom h = rc_top h + rc_height h" "rc_height h \<le> rc_bottom c - rc_top c"
  shows "rc_top c \<le> rc_top (overflow_side c False SBottom (overflow_side c False STop h))"
    and "rc_top (overflow_side c False SBottom (overflow_side c False STop h)) + rc_height h \<le> rc_bottom c"
  using assms by (auto simp: overflow_side_def max_def min_def)


section \<open>Properties\<close>

definition rect_at :: "rat \<Rightarrow> rat \<Rightarrow> rat \<Rightarrow> rat \<Rightarrow> rect" where
  "rect_at x y w h = \<lparr>rc_left = x, rc_top = y, rc_width = w, rc_height = h, rc_right = x + w, rc_bottom = y + h\<rparr>"

definition sample_page :: page where
  "sample_page =
     \<lparr>pg_outer_width = 40, pg_outer_height = 20, pg_client_width = 40, pg_client_height = 20,
      pg_reference = rect_at 0 10 30 10, pg_overflow_bounds = rect_at 5 5 400 300,
      pg_flip_bounds = rect_at 5 5 400 300, pg_auto_bounds = rect_at 0 0 400 300,
      pg_offset = (0, 4), pg_arrow = None\<rparr>"

definition sample_options :: "behavior \<Rightarrow> popper_options" where
  "sample_options b =
     \<lparr>op_placement = (STop, None), op_modifiers = default_modifiers,
      op_flip = \<lparr>fo_behavior = b, fo_variations = False, fo_variations_by_content = False\<rparr>,
      op_priority = [SLeft, SRight, STop, SBottom], op_escape_with_reference = False\<rparr>"



text \<open>
  C31: The preventOverflow modifier with the default priority, not allowed to escape with the
  reference, moves a popper that fits into the boundaries inside them on all four sides, keeps its
  size, and leaves it where it is when it was inside already.\<close>

theorem prevent_overflow_inside:
  assumes "op_priority opt = [SLeft, SRight, STop, SBottom]" "\<not> op_escape_with_reference opt"
    and "rc_width (pd_popper d) \<le> rc_right (pg_overflow_bounds pg) - rc_left (pg_overflow_bounds pg)"
    and "rc_height (pd_popper d) \<le> rc_bottom (pg_overflow_bounds pg) - rc_top (pg_overflow_bounds pg)"
    and "client_rect (pd_popper d) = pd_popper d"
  shows "let c = pg_overflow_bounds pg; p = pd_popper d;
             p' = client_rect (pd_popper (modifier_prevent_overflow pg opt d)) in
    rc_left c \<le> rc_left p' \<and> rc_right p' \<le> rc_right c \<and> rc_top c \<le> rc_top p' \<and> rc_bottom p' \<le> rc_bottom c \<and>
    rc_width p' = rc_width p \<and> rc_height p' = rc_height p \<and>
    (rc_left c \<le> rc_left p \<and> rc_right p \<le> rc_right c \<and> rc_top c \<le> rc_top p \<and> rc_bottom p \<le> rc_bottom c
       \<longrightarrow> p' = p)"
proof -
  define c where "c = pg_overflow_bounds pg"
  define h where "h = pd_popper d"
  have e: "rc_right h = rc_left h + rc_width h" "rc_bottom h = rc_top h + rc_height h"
    using assms(5) client_rect_simps(5,6) [of h] by (simp_all add: h_def)
  note fits = assms(3,4) [folded c_def h_def]
  define h2 where "h2 = overflow_side c False SRight (overflow_side c False SLeft h)"
  define h4 where "h4 = overflow_side c False SBottom (overflow_side c False STop h2)"
  have vert: "rc_top h2 = rc_top h" "rc_bottom h2 = rc_bottom h" "rc_height h2 = rc_height h"
    "rc_width h2 = rc_width h"
    by (simp_all add: h2_def overflow_side_def)
  have horiz: "rc_left h4 = rc_left h2" by (simp add: h4_def overflow_side_def)
  have sizes: "rc_width h4 = rc_width h" "rc_height h4 = rc_height h"
    by (simp_all add: h4_def h2_def)
  have lr: "rc_left c \<le> rc_left h2" "rc_left h2 + rc_width h \<le> rc_right c"
    using overflow_left_right [OF e(1) fits(1)] by (simp_all add: h2_def)
  have e2: "rc_bottom h2 = rc_top h2 + rc_height h2" using e(2) by (simp add: vert)
  have tb: "rc_top c \<le> rc_top h4" "rc_top h4 + rc_height h \<le> rc_bottom c"
    using overflow_top_bottom [OF e2, of c] fits(2) by (simp_all add: vert h4_def)
  have same: "h4 = h" if "rc_left c \<le> rc_left h" "rc_right h \<le> rc_right c" "rc_top c \<le> rc_top h" "rc_bottom h \<le> rc_bottom c"
    using that by (simp add: h4_def h2_def overflow_side_def)
  have p: "pd_popper (modifier_prevent_overflow pg opt d) = h4"
    using assms(1,2) by (simp add: modifier_prevent_overflow_def h4_def h2_def h_def c_def Let_def)
  show ?thesis
    unfolding Let_def p c_def [symmetric] h_def [symmetric]
    using lr tb same assms(5) by (auto simp: horiz sizes h_def)
qed

theorem prevent_overflow_inside_witness:
  "let c = rect_at 5 5 400 300;
       p' = client_rect (pd_popper (modifier_prevent_overflow sample_page (sample_options BFlip)
              \<lparr>pd_placement = (STop, None), pd_original = (STop, None), pd_flipped = False,
               pd_popper = rect_at (-5) (-10) 40 20, pd_reference = rect_at 0 10 30 10,
               pd_boundaries = None, pd_arrow = None, pd_hide = None\<rparr>)) in
   rc_left c \<le> rc_left p' \<and> rc_right p' \<le> rc_right c \<and> rc_top c \<le> rc_top p' \<and> rc_bottom p' \<le> rc_bottom c"
  using prevent_overflow_inside [of "sample_options BFlip"
      "\<lparr>pd_placement = (STop, None), pd_original = (STop, None), pd_flipped = False,
        pd_popper = rect_at (-5) (-10) 40 20, pd_reference = rect_at 0 10 30 10,
        pd_boundaries = None, pd_arrow = None, pd_hide = None\<rparr>" sample_page]
  by (simp add: sample_options_def sample_page_def rect_at_def client_rect_def Let_def)

text \<open>
  C32: Under the flip behaviour of the default options the loop turns the popper at most once: it goes
  to the opposite side exactly when it overlaps the reference or leaves the boundaries on its own
  side, otherwise it stays on its side, and the data is marked as flipped exactly when it was before
  or a flip or a swap of the variation was needed.\<close>

theorem flip_once:
  assumes "fo_behavior (op_flip opt) = BFlip" "\<not> modifier_enabled (op_modifiers opt) MInner"
    and "\<not> (pd_flipped d \<and> pd_placement d = pd_original d)"
  shows "fst (pd_placement (modifier_flip pg opt d)) =
           (if needs_flip pg d then opposite_side (fst (pd_placement d)) else fst (pd_placement d)) \<and>
         pd_flipped (modifier_flip pg opt d) =
           (pd_flipped d \<or> needs_flip pg d \<or> needs_swap pg (op_flip opt) (snd (pd_placement d)) d)"
proof -
  let ?i = "fst (pd_placement d)" and ?o = "snd (pd_placement d)"
  let ?s = "[(?i, None), (opposite_side ?i, None)] :: placement list"
  let ?t = "flip_turn pg opt ?s"
  let ?st = "((?i, None), ?o, d)"
  have last: "?t (Suc 0) st = st" for st by (cases st) (simp add: flip_turn_def)
  have m: "modifier_flip pg opt d = snd (snd (?t 0 ?st))"
    using assms by (auto simp: modifier_flip_def flip_order_def Let_def last)
  show ?thesis
    unfolding m flip_turn_def
    by (simp add: Let_def run_before_flip_placement [OF assms(2)] join_variation_def)
qed

theorem flip_once_witness:
  "fst (pd_placement (modifier_flip sample_page (sample_options BFlip)
      \<lparr>pd_placement = (STop, None), pd_original = (STop, None), pd_flipped = False,
       pd_popper = rect_at 5 (-10) 40 20, pd_reference = rect_at 0 10 30 10,
       pd_boundaries = None, pd_arrow = None, pd_hide = None\<rparr>)) = SBottom"
  using flip_once [of "sample_options BFlip"
      "\<lparr>pd_placement = (STop, None), pd_original = (STop, None), pd_flipped = False,
       pd_popper = rect_at 5 (-10) 40 20, pd_reference = rect_at 0 10 30 10,
       pd_boundaries = None, pd_arrow = None, pd_hide = None\<rparr>" sample_page]
  by (simp add: sample_options_def sample_page_def rect_at_def modifier_enabled_def default_modifiers_def
      needs_flip_def fl_def Let_def)

text \<open>
  With the behaviours clockwise and counterclockwise the flip modifier never flips anything:
  the order it walks leaves out the current placement, and a turn acts only at an entry equal to the
  current side, so the data comes back unchanged wherever the popper is.\<close>

theorem flip_clockwise_inert:
  assumes "fo_behavior (op_flip opt) \<in> {BClockwise, BCounterclockwise}"
  shows "modifier_flip pg opt d = d"
proof -
  let ?i = "fst (pd_placement d)"
  have "(?i, None) \<notin> set (flip_order (fo_behavior (op_flip opt)) ?i)"
    using assms clockwise_omits [of ?i] by (auto simp: flip_order_def clockwise_def Let_def)
  then show ?thesis
    by (simp add: modifier_flip_def Let_def flip_loop_no_match lessThan_atLeast0)
qed

theorem flip_clockwise_inert_witness:
  "needs_flip sample_page
     \<lparr>pd_placement = (STop, None), pd_original = (STop, None), pd_flipped = False,
      pd_popper = rect_at 5 (-10) 40 20, pd_reference = rect_at 0 10 30 10,
      pd_boundaries = None, pd_arrow = None, pd_hide = None\<rparr> \<and>
   modifier_flip sample_page (sample_options BClockwise)
     \<lparr>pd_placement = (STop, None), pd_original = (STop, None), pd_flipped = False,
      pd_popper = rect_at 5 (-10) 40 20, pd_reference = rect_at 0 10 30 10,
      pd_boundaries = None, pd_arrow = None, pd_hide = None\<rparr> =
     \<lparr>pd_placement = (STop, None), pd_original = (STop, None), pd_flipped = False,
      pd_popper = rect_at 5 (-10) 40 20, pd_reference = rect_at 0 10 30 10,
      pd_boundaries = None, pd_arrow = None, pd_hide = None\<rparr>"
  using flip_clockwise_inert [of "sample_options BClockwise" sample_page
     "\<lparr>pd_placement = (STop, None), pd_original = (STop, None), pd_flipped = False,
      pd_popper = rect_at 5 (-10) 40 20, pd_reference = rect_at 0 10 30 10,
      pd_boundaries = None, pd_arrow = None, pd_hide = None\<rparr>"]
  by (simp add: sample_options_def sample_page_def rect_at_def needs_flip_def fl_def Let_def)

text \<open>
  The automatic placement takes a side whose area is the largest among those the popper's client
  size fits into, or among all four when it fits into none, keeps the variation, and leaves a
  placement that names a side alone.\<close>

theorem auto_placement_largest:
  "let l = side_areas (pg_auto_bounds pg) t;
       fit = filter (\<lambda>a. pg_client_width pg \<le> fst (snd a) \<and> pg_client_height pg \<le> snd (snd a)) l;
       cand = (if fit = [] then l else fit);
       p = compute_auto_placement pg e t in
   if fst e = SAuto
   then snd p = snd e \<and> (\<exists>a \<in> set cand. fst a = fst p \<and> area_of a = Max (area_of ` set cand))
   else p = e"
proof (cases "fst e = SAuto")
  case True
  define l where "l = side_areas (pg_auto_bounds pg) t"
  define P where "P a = (pg_client_width pg \<le> fst (snd a) \<and> pg_client_height pg \<le> snd (snd a))"
    for a :: "side \<times> rat \<times> rat"
  define cand where "cand = (if filter P l = [] then l else filter P l)"
  define s where "s = sort_key (\<lambda>a. - area_of a) cand"
  have "cand \<noteq> []" by (auto simp: cand_def l_def side_areas_def)
  then have ne: "s \<noteq> []" unfolding s_def by (metis length_0_conv length_sort)
  have set_s: "set s = set cand" by (simp add: s_def)
  have sorted: "sorted (map (\<lambda>a. - area_of a) s)" by (simp add: s_def)
  have u: "compute_auto_placement pg e t = (fst (hd s), snd e)"
  proof -
    have "filter P (sort_key (\<lambda>a. - area_of a) l) = sort_key (\<lambda>a. - area_of a) (filter P l)"
      by (rule filter_sort)
    moreover have "filter P (sort_key (\<lambda>a. - area_of a) l) = [] \<longleftrightarrow> filter P l = []"
      by (simp add: filter_empty_conv)
    ultimately show ?thesis
      using True ne
      by (auto simp: compute_auto_placement_def Let_def l_def [symmetric] P_def [abs_def, symmetric]
          s_def cand_def hd_conv_nth)
  qed
  have "area_of a \<le> area_of (hd s)" if "a \<in> set cand" for a
  proof -
    obtain y ys where s: "s = y # ys" using ne by (cases s) auto
    show ?thesis using sorted that unfolding set_s [symmetric] s by auto
  qed
  moreover have "hd s \<in> set cand" using ne set_s by (metis hd_in_set)
  ultimately have "area_of (hd s) = Max (area_of ` set cand)"
    by (intro Max_eqI [symmetric]) auto
  with \<open>hd s \<in> set cand\<close> True show ?thesis
    unfolding Let_def u l_def [symmetric] P_def [abs_def, symmetric] cand_def [symmetric] by auto
next
  case False
  then show ?thesis by (simp add: compute_auto_placement_def Let_def)
qed

end
