(* ===== verification/Web_Classnames.thy ===== *)
theory Web_Classnames
  imports Main
begin

text \<open>
  Two small modules of the admin UI bundle (\<open>web/bundle.js\<close>): classnames (lines 37 to 47), which
  joins the class names of its arguments, and object-assign (lines 47 to 52), the stand-in for
  \<open>Object.assign\<close> the views are built on. JavaScript values are the datatype \<open>js\<close>: a number is kept
  as the text \<open>String(n)\<close>, an object as its own properties in enumeration order and the keys it
  inherits. Properties are plain data properties, without getters, setters or frozen targets.
\<close>

section \<open>classnames\<close>

datatype js =
  Undefined
| Null
| JBool bool
| JNum string
| JStr string
| JArr "js list"
| JObj "(string \<times> js) list" "string list"
| JFunc

text \<open>The falsy numbers are zero and not-a-number.\<close>

fun truthy :: "js \<Rightarrow> bool" where
  "truthy Undefined = False"
| "truthy Null = False"
| "truthy (JBool b) = b"
| "truthy (JNum s) = (s \<noteq> ''0'' \<and> s \<noteq> ''NaN'')"
| "truthy (JStr s) = (s \<noteq> [])"
| "truthy (JArr xs) = True"
| "truthy (JObj own inherited) = True"
| "truthy JFunc = True"

fun join_space :: "string list \<Rightarrow> string" where
  "join_space [] = []"
| "join_space [s] = s"
| "join_space (s # ss) = s @ '' '' @ join_space ss"

text \<open>The loop \<open>for (a in i)\<close> visits inherited keys as well; \<open>hasOwnProperty\<close> drops them.\<close>

definition for_in :: "(string \<times> js) list \<Rightarrow> string list \<Rightarrow> string list" where
  "for_in own inherited = map fst own @ filter (\<lambda>k. k \<notin> fst ` set own) inherited"

definition object_names :: "(string \<times> js) list \<Rightarrow> string list \<Rightarrow> string list" where
  "object_names own inherited =
     filter (\<lambda>a. case map_of own a of None \<Rightarrow> False | Some v \<Rightarrow> truthy v) (for_in own inherited)"

fun class_parts :: "js list \<Rightarrow> string list" and class_part :: "js \<Rightarrow> string list" where
  "class_parts [] = []"
| "class_parts (x # xs) = class_part x @ class_parts xs"
| "class_part (JStr s) = (if truthy (JStr s) then [s] else [])"
| "class_part (JNum s) = (if truthy (JNum s) then [s] else [])"
| "class_part (JArr xs) =
     (if xs = [] then []
      else (let s = join_space (class_parts xs) in if truthy (JStr s) then [s] else []))"
| "class_part (JObj own inherited) = object_names own inherited"
| "class_part Undefined = []"
| "class_part Null = []"
| "class_part (JBool b) = []"
| "class_part JFunc = []"

definition class_names :: "js list \<Rightarrow> string" where
  "class_names args = join_space (class_parts args)"

section \<open>object-assign\<close>

datatype prop_key = PStr string | PSym nat

text \<open>An own property: its key, its content and whether it is enumerable.\<close>

type_synonym 'v object = "(prop_key \<times> 'v \<times> bool) list"

datatype 'v source = Nullish | Boxed "'v object" "prop_key list"

datatype type_error = TypeError string

fun is_string_key :: "prop_key \<Rightarrow> bool" where
  "is_string_key (PStr s) = True"
| "is_string_key (PSym n) = False"

definition own_keys :: "'v object \<Rightarrow> prop_key list" where
  "own_keys ob = filter is_string_key (map fst ob) @ filter (\<lambda>k. \<not> is_string_key k) (map fst ob)"

definition enumerable_in :: "'v object \<Rightarrow> prop_key \<Rightarrow> bool" where
  "enumerable_in ob k = (case map_of ob k of Some (v, en) \<Rightarrow> en | None \<Rightarrow> False)"

text \<open>\<open>a[k] = v\<close>: an existing property keeps its place, a new one comes last and is enumerable.\<close>

fun put_prop :: "prop_key \<Rightarrow> 'v \<Rightarrow> 'v object \<Rightarrow> 'v object" where
  "put_prop k v [] = [(k, v, True)]"
| "put_prop k v (p # ps) = (if fst p = k then (k, v, snd (snd p)) # ps else p # put_prop k v ps)"

definition copy_prop :: "'v object \<Rightarrow> prop_key \<Rightarrow> 'v object \<Rightarrow> 'v object" where
  "copy_prop n k a = (case map_of n k of Some (v, en) \<Rightarrow> put_prop k v a | None \<Rightarrow> a)"

text \<open>\<open>Object(e)\<close> of a missing source is an object with no properties.\<close>

definition source_object :: "'v source \<Rightarrow> 'v object \<times> prop_key list" where
  "source_object s = (case s of Nullish \<Rightarrow> ([], []) | Boxed ob inherited \<Rightarrow> (ob, inherited))"

text \<open>
  \<open>for (c in n)\<close> visits the enumerable string keys, first the object's own, then the inherited ones
  it does not shadow. \<open>syms\<close>: the engine has \<open>getOwnPropertySymbols\<close>.
\<close>

definition assign_source :: "bool \<Rightarrow> 'v source \<Rightarrow> 'v object \<Rightarrow> 'v object" where
  "assign_source syms s a =
     (let (n, inherited) = source_object s;
          visited = filter (\<lambda>k. is_string_key k \<and> enumerable_in n k) (map fst n) @
            filter (\<lambda>k. is_string_key k \<and> k \<notin> fst ` set n) inherited;
          a1 = fold (\<lambda>k. if k \<in> fst ` set n then copy_prop n k else (\<lambda>x. x)) visited a;
          symbols = filter (\<lambda>k. \<not> is_string_key k) (map fst n)
      in if syms then fold (\<lambda>k. if enumerable_in n k then copy_prop n k else (\<lambda>x. x)) symbols a1
         else a1)"

definition assign_polyfill ::
    "bool \<Rightarrow> 'v source \<Rightarrow> 'v source list \<Rightarrow> type_error + 'v object" where
  "assign_polyfill syms e ss =
     (case e of
        Nullish \<Rightarrow> Inl (TypeError ''Object.assign cannot be called with null or undefined'')
      | Boxed t inherited \<Rightarrow> Inr (fold (assign_source syms) ss t))"

text \<open>
  The engine: its \<open>Object.assign\<close>, if it has one, the names it lists for the string \<open>abc\<close> with a sixth
  character set, the digits it reads back from ten keys set in order, and the keys it lists after a
  copy of the letters \<open>a\<close> to \<open>t\<close>; \<open>None\<close> is an exception.
\<close>

record 'v js_engine =
  en_assign :: "('v source \<Rightarrow> 'v source list \<Rightarrow> type_error + 'v object) option"
  en_symbols :: bool
  en_string_names :: "string list option"
  en_digits :: "string option"
  en_letters :: "string option"

definition should_use_native :: "'v js_engine \<Rightarrow> bool" where
  "should_use_native en =
     (if en_assign en = None then False
      else (case en_string_names en of
              None \<Rightarrow> False
            | Some ns \<Rightarrow>
                if ns \<noteq> [] \<and> ns ! 0 = ''5'' then False
                else (case en_digits en of
                        None \<Rightarrow> False
                      | Some ds \<Rightarrow>
                          if ds \<noteq> ''0123456789'' then False
                          else (case en_letters en of
                                  None \<Rightarrow> False
                                | Some ls \<Rightarrow> ls = ''abcdefghijklmnopqrst''))))"

definition object_assign ::
    "'v js_engine \<Rightarrow> 'v source \<Rightarrow> 'v source list \<Rightarrow> type_error + 'v object" where
  "object_assign en =
     (case en_assign en of
        Some native \<Rightarrow> if should_use_native en then native else assign_polyfill (en_symbols en)
      | None \<Rightarrow> assign_polyfill (en_symbols en))"

section \<open>The classes of an element\<close>

text \<open>The white space at which a class attribute is split.\<close>

definition html_space :: "char \<Rightarrow> bool" where
  "html_space c = (c \<in> {CHR '' '', CHR 0x09, CHR 0x0A, CHR 0x0C, CHR 0x0D})"

function class_list :: "string \<Rightarrow> string list" where
  "class_list [] = []"
| "class_list (c # cs) =
     (if html_space c then class_list cs
      else (c # takeWhile (\<lambda>x. \<not> html_space x) cs) # class_list (dropWhile (\<lambda>x. \<not> html_space x) cs))"
  by pat_completeness auto
termination
  by (relation "measure length") (auto simp: le_imp_less_Suc length_dropWhile_le)

lemma class_list_join2: "class_list (s @ CHR '' '' # t) = class_list s @ class_list t"
proof (induction s rule: class_list.induct)
  case 1
  show ?case by (simp add: html_space_def)
next
  case (2 c cs)
  show ?case
  proof (cases "html_space c")
    case True
    then show ?thesis using 2(1) by simp
  next
    case False
    let ?P = "\<lambda>x. \<not> html_space x"
    have sp: "html_space CHR '' ''" by (simp add: html_space_def)
    have tw: "takeWhile ?P (cs @ CHR '' '' # t) = takeWhile ?P cs"
      by (induction cs) (simp_all add: sp)
    have dw: "dropWhile ?P (cs @ CHR '' '' # t) = dropWhile ?P cs @ CHR '' '' # t"
      by (induction cs) (simp_all add: sp)
    show ?thesis using False 2(2) by (simp add: tw dw)
  qed
qed

lemma class_list_join: "class_list (join_space ss) = concat (map class_list ss)"
  by (induction ss rule: join_space.induct) (simp_all add: class_list_join2)

lemma class_list_part:
  "concat (map class_list (if truthy (JStr s) then [s] else [])) = class_list s"
  by simp

text \<open>The flat reading: every string, number and truthy own key, at whatever depth it stands.\<close>

fun flat_names :: "js list \<Rightarrow> string list" and flat_name :: "js \<Rightarrow> string list" where
  "flat_names [] = []"
| "flat_names (x # xs) = flat_name x @ flat_names xs"
| "flat_name (JStr s) = [s]"
| "flat_name (JNum s) = (if s = ''0'' \<or> s = ''NaN'' then [] else [s])"
| "flat_name (JArr xs) = flat_names xs"
| "flat_name (JObj own inherited) = map fst (filter (\<lambda>p. truthy (snd p)) own)"
| "flat_name Undefined = []"
| "flat_name Null = []"
| "flat_name (JBool b) = []"
| "flat_name JFunc = []"

text \<open>No object has two properties of one key, at any depth.\<close>

fun keys_distinct :: "js list \<Rightarrow> bool" and keys_distinct1 :: "js \<Rightarrow> bool" where
  "keys_distinct [] = True"
| "keys_distinct (x # xs) = (keys_distinct1 x \<and> keys_distinct xs)"
| "keys_distinct1 (JArr xs) = keys_distinct xs"
| "keys_distinct1 (JObj own inherited) = distinct (map fst own)"
| "keys_distinct1 Undefined = True"
| "keys_distinct1 Null = True"
| "keys_distinct1 (JBool b) = True"
| "keys_distinct1 (JNum s) = True"
| "keys_distinct1 (JStr s) = True"
| "keys_distinct1 JFunc = True"

lemma object_names_own:
  assumes "distinct (map fst own)"
  shows "object_names own inherited = map fst (filter (\<lambda>p. truthy (snd p)) own)"
proof -
  let ?t = "\<lambda>a. case map_of own a of None \<Rightarrow> False | Some v \<Rightarrow> truthy v"
  have "filter ?t (filter (\<lambda>k. k \<notin> fst ` set own) inherited) = []"
    by (auto simp: filter_empty_conv map_of_eq_None_iff [symmetric] split: option.split)
  moreover have "filter ?t (map fst own) = map fst (filter (\<lambda>p. truthy (snd p)) own)"
  proof -
    have "filter (?t \<circ> fst) own = filter (\<lambda>p. truthy (snd p)) own"
      using assms by (intro filter_cong) auto
    then show ?thesis by (simp add: filter_map)
  qed
  ultimately show ?thesis by (simp add: object_names_def for_in_def)
qed

lemma class_parts_flat:
  "keys_distinct xs \<Longrightarrow> concat (map class_list (class_parts xs)) = concat (map class_list (flat_names xs))"
  "keys_distinct1 x \<Longrightarrow> concat (map class_list (class_part x)) = concat (map class_list (flat_name x))"
proof (induction xs and x rule: class_parts_class_part.induct)
  case (5 xs)
  show ?case
  proof (cases "xs = []")
    case False
    with 5 have "concat (map class_list (class_parts xs)) = concat (map class_list (flat_names xs))"
      by simp
    with False show ?thesis
      by (simp only: class_part.simps flat_name.simps Let_def class_list_part class_list_join if_False)
  qed simp
qed (simp_all add: object_names_own)

section \<open>Copying properties\<close>

lemma fold_const_if:
  "fold (\<lambda>k. if P k then f k else (\<lambda>x. x)) ks a = fold f (filter P ks) a"
  by (induction ks arbitrary: a) simp_all

lemma put_prop_lookup:
  "map_option fst (map_of (put_prop k v ob) k') = (if k' = k then Some v else map_option fst (map_of ob k'))"
  by (induction ob) auto

lemma assign_source_spec:
  "assign_source True s a =
     fold (copy_prop (fst (source_object s)))
       (filter (enumerable_in (fst (source_object s))) (own_keys (fst (source_object s)))) a"
proof -
  obtain n inh where so: "source_object s = (n, inh)" by (cases "source_object s")
  have own: "filter (\<lambda>k. is_string_key k \<and> enumerable_in n k \<and> k \<in> fst ` set n) (map fst n) =
      filter (\<lambda>k. is_string_key k \<and> enumerable_in n k) (map fst n)"
    by (rule filter_cong) auto
  show ?thesis
    by (simp add: assign_source_def so Let_def fold_const_if own own_keys_def)
qed

lemma copies_lookup:
  "map_option fst (map_of (fold (copy_prop n) ks a) k) =
     (if k \<in> set ks \<and> map_of n k \<noteq> None then map_option fst (map_of n k)
      else map_option fst (map_of a k))"
proof (induction ks arbitrary: a)
  case (Cons k1 ks)
  show ?case
  proof (cases "map_of n k1")
    case None
    then show ?thesis using Cons [of a] by (auto simp: copy_prop_def)
  next
    case (Some p)
    then show ?thesis
      using Cons [of "put_prop k1 (fst p) a"] put_prop_lookup [of k1 "fst p" a k]
      by (cases p) (auto simp: copy_prop_def)
  qed
qed simp


text \<open>What the language promises of \<open>Object.assign\<close>: every own enumerable property, source by source.\<close>

definition assign_spec :: "'v source \<Rightarrow> 'v source list \<Rightarrow> type_error + 'v object" where
  "assign_spec e ss =
     (case e of
        Nullish \<Rightarrow> Inl (TypeError ''Object.assign cannot be called with null or undefined'')
      | Boxed t inherited \<Rightarrow>
          Inr (fold (\<lambda>s. let n = fst (source_object s) in
                          fold (copy_prop n) (filter (enumerable_in n) (own_keys n))) ss t))"

lemma polyfill_spec: "assign_polyfill True e ss = assign_spec e ss"
proof -
  have "assign_source True s = (let n = fst (source_object s) in
      fold (copy_prop n) (filter (enumerable_in n) (own_keys n)))" for s :: "'a source"
    by (rule ext) (simp add: assign_source_spec Let_def)
  then have "assign_source True = (\<lambda>s :: 'a source. let n = fst (source_object s) in
      fold (copy_prop n) (filter (enumerable_in n) (own_keys n)))" by (rule ext)
  then show ?thesis by (simp add: assign_polyfill_def assign_spec_def split: source.split)
qed

lemma set_own_keys: "set (own_keys n) = fst ` set n"
  by (auto simp: own_keys_def)

lemma enumerable_own: "enumerable_in n k \<Longrightarrow> k \<in> fst ` set n \<and> map_of n k \<noteq> None"
  by (cases "map_of n k") (auto simp: enumerable_in_def dest: map_of_SomeD intro: rev_image_eqI)

lemma assign_fold_lookup:
  "map_option fst (map_of
     (fold (\<lambda>s. let n = fst (source_object s) in
                 fold (copy_prop n) (filter (enumerable_in n) (own_keys n))) ss t) k) =
   (case find (\<lambda>s. enumerable_in (fst (source_object s)) k) (rev ss) of
      Some s \<Rightarrow> map_option fst (map_of (fst (source_object s)) k)
    | None \<Rightarrow> map_option fst (map_of t k))"
  by (induction ss rule: rev_induct)
    (auto simp: Let_def copies_lookup set_own_keys dest: enumerable_own)

section \<open>Properties\<close>

text \<open>
  C33: The class attribute built from any arguments, split at white space, is the flat sequence of
  the classes of every string, every number but zero and not-a-number, and every truthy own key, at
  whatever depth of nested arrays they stand: inherited keys, booleans, null, undefined, functions
  and empty arrays add nothing, and nesting neither adds, drops nor reorders a class.\<close>

theorem class_names_flat:
  assumes "keys_distinct args"
  shows "class_list (class_names args) = concat (map class_list (flat_names args))"
  using class_parts_flat(1) [OF assms] by (simp add: class_names_def class_list_join)

theorem class_names_flat_witness:
  "class_list (class_names
     [JStr ''btn'', JArr [Null, JArr [JStr ''btn-primary active'', JObj [(''on'', JBool True), (''off'', JNum ''0'')] [''toString'']]],
      JNum ''3'']) = [''btn'', ''btn-primary'', ''active'', ''on'', ''3'']"
  using class_names_flat [of
    "[JStr ''btn'', JArr [Null, JArr [JStr ''btn-primary active'', JObj [(''on'', JBool True), (''off'', JNum ''0'')] [''toString'']]],
      JNum ''3'']"]
  by (simp add: html_space_def)

text \<open>
  In an engine with symbols, and whose own \<open>Object.assign\<close> follows the language where the probes
  pass, the exported function is \<open>Object.assign\<close> of the language whether or not the stand-in is used:
  a missing target is a TypeError, and otherwise every key reads as in the last source that has it as
  an own enumerable property, and as in the target when none has.\<close>

theorem object_assign_spec:
  assumes "en_symbols en"
    and "\<And>native. en_assign en = Some native \<Longrightarrow> should_use_native en \<Longrightarrow> native = assign_spec"
  shows "object_assign en Nullish ss = Inl (TypeError ''Object.assign cannot be called with null or undefined'') \<and>
    (\<exists>a. object_assign en (Boxed t inherited) ss = Inr a \<and>
      (\<forall>k. map_option fst (map_of a k) =
         (case find (\<lambda>s. enumerable_in (fst (source_object s)) k) (rev ss) of
            Some s \<Rightarrow> map_option fst (map_of (fst (source_object s)) k)
          | None \<Rightarrow> map_option fst (map_of t k))))"
proof -
  have "object_assign en e ss = assign_spec e ss" for e
    using assms by (cases "en_assign en") (auto simp: object_assign_def polyfill_spec)
  then show ?thesis by (simp add: assign_spec_def assign_fold_lookup)
qed

theorem object_assign_spec_witness:
  "\<exists>a. object_assign \<lparr>en_assign = None, en_symbols = True, en_string_names = None, en_digits = None, en_letters = None\<rparr>
         (Boxed [(PStr ''x'', 1 :: nat, True)] [])
         [Nullish, Boxed [(PStr ''x'', 2, True), (PSym 0, 5, True)] [], Boxed [(PStr ''x'', 3, False)] []] = Inr a \<and>
       map_option fst (map_of a (PStr ''x'')) = Some 2 \<and> map_option fst (map_of a (PSym 0)) = Some 5"
proof -
  let ?en = "\<lparr>en_assign = None, en_symbols = True, en_string_names = None, en_digits = None, en_letters = None\<rparr>"
  let ?ss = "[Nullish, Boxed [(PStr ''x'', 2, True), (PSym 0, 5, True)] [], Boxed [(PStr ''x'', 3, False)] []]"
  obtain a where a: "object_assign ?en (Boxed [(PStr ''x'', 1 :: nat, True)] []) ?ss = Inr a"
    and l: "\<forall>k. map_option fst (map_of a k) =
       (case find (\<lambda>s. enumerable_in (fst (source_object s)) k) (rev ?ss) of
          Some s \<Rightarrow> map_option fst (map_of (fst (source_object s)) k)
        | None \<Rightarrow> map_option fst (map_of [(PStr ''x'', 1, True)] k))"
    using object_assign_spec [of ?en ?ss "[(PStr ''x'', 1 :: nat, True)]" "[]"] by auto
  show ?thesis
  proof (intro exI conjI)
    show "object_assign ?en (Boxed [(PStr ''x'', 1 :: nat, True)] []) ?ss = Inr a" by (rule a)
    show "map_option fst (map_of a (PStr ''x'')) = Some 2" "map_option fst (map_of a (PSym 0)) = Some 5"
      by (simp_all only: l [rule_format]) (simp_all add: enumerable_in_def source_object_def)
  qed
qed

end
