(* ===== verification/Web_History.thy ===== *)
theory Web_History
  imports Main
begin

text \<open>
  Locations and the memory history behind the admin UI's router (\<open>web/bundle.js\<close>: module 4 of the
  bundle on line 1, \<open>resolve-pathname\<close> on line 76). Texts are their UTF-8 bytes, one \<open>char\<close> each. A
  location key is the random text the caller of the model passes in, a prompt or a listener is named
  by a number, and what the code asks of the user is the function \<open>confirm\<close>, answered at once.
\<close>

section \<open>Decoding a path\<close>

text \<open>The language's \<open>decodeURI\<close>; \<open>None\<close> is a URIError.\<close>

definition hex_digit :: "char \<Rightarrow> nat option" where
  "hex_digit c =
     (let n = of_char c :: nat in
      if 48 \<le> n \<and> n \<le> 57 then Some (n - 48)
      else if 65 \<le> n \<and> n \<le> 70 then Some (n - 55)
      else if 97 \<le> n \<and> n \<le> 102 then Some (n - 87) else None)"

fun escaped_octet :: "string \<Rightarrow> (nat \<times> string) option" where
  "escaped_octet (p # a # b # rest) =
     (if p = CHR ''%'' then
        (case (hex_digit a, hex_digit b) of
           (Some x, Some y) \<Rightarrow> Some (16 * x + y, rest) | _ \<Rightarrow> None)
      else None)"
| "escaped_octet _ = None"

fun escaped_octets :: "nat \<Rightarrow> string \<Rightarrow> (nat list \<times> string) option" where
  "escaped_octets 0 s = Some ([], s)"
| "escaped_octets (Suc n) s =
     (case escaped_octet s of
        None \<Rightarrow> None
      | Some (b, rest) \<Rightarrow> map_option (\<lambda>(bs, r). (b # bs, r)) (escaped_octets n rest))"

definition utf8_extra :: "nat \<Rightarrow> nat option" where
  "utf8_extra b =
     (if 192 \<le> b \<and> b < 224 then Some 1 else if 224 \<le> b \<and> b < 240 then Some 2
      else if 240 \<le> b \<and> b < 248 then Some 3 else None)"

fun utf8_valid :: "nat list \<Rightarrow> bool" where
  "utf8_valid [a, b] = (128 \<le> b \<and> b < 192 \<and> 128 \<le> (a - 192) * 64 + (b - 128))"
| "utf8_valid [a, b, c] =
     (let cp = (a - 224) * 4096 + (b - 128) * 64 + (c - 128) in
      128 \<le> b \<and> b < 192 \<and> 128 \<le> c \<and> c < 192 \<and> 2048 \<le> cp \<and> \<not> (55296 \<le> cp \<and> cp \<le> 57343))"
| "utf8_valid [a, b, c, d] =
     (let cp = (a - 240) * 262144 + (b - 128) * 4096 + (c - 128) * 64 + (d - 128) in
      128 \<le> b \<and> b < 192 \<and> 128 \<le> c \<and> c < 192 \<and> 128 \<le> d \<and> d < 192 \<and> 65536 \<le> cp \<and> cp \<le> 1114111)"
| "utf8_valid _ = False"

definition uri_reserved :: "char \<Rightarrow> bool" where
  "uri_reserved c = (c \<in> set '';/?:@&=+$,#'')"

lemma escaped_octet_length: "escaped_octet s = Some (b, r) \<Longrightarrow> length r < length s"
  by (induction s rule: escaped_octet.induct) (auto split: if_splits option.splits)

lemma escaped_octets_length: "escaped_octets n s = Some (bs, r) \<Longrightarrow> length r \<le> length s"
  by (induction n arbitrary: s bs r) (fastforce dest: escaped_octet_length split: option.splits)+

function decode_uri :: "string \<Rightarrow> string option" where
  "decode_uri [] = Some []"
| "decode_uri (c # cs) =
     (if c \<noteq> CHR ''%'' then map_option (Cons c) (decode_uri cs)
      else
        (case escaped_octet (c # cs) of
           None \<Rightarrow> None
         | Some (b, rest) \<Rightarrow>
             if b < 128 then
               map_option ((@) (if uri_reserved (char_of b) then take 3 (c # cs) else [char_of b]))
                 (decode_uri rest)
             else
               (case utf8_extra b of
                  None \<Rightarrow> None
                | Some n \<Rightarrow>
                    (case escaped_octets n rest of
                       None \<Rightarrow> None
                     | Some (bs, rest') \<Rightarrow>
                         if utf8_valid (b # bs)
                         then map_option ((@) (map char_of (b # bs))) (decode_uri rest') else None))))"
  by pat_completeness auto
termination
proof (relation "measure length", goal_cases)
  case (4 c cs x b rest n y bs rest')
  then have "length rest < length (c # cs)" "length rest' \<le> length rest"
    using escaped_octet_length [of "c # cs" b rest] escaped_octets_length [of n rest bs rest'] by auto
  then show ?case by simp
qed (auto dest: escaped_octet_length)

section \<open>Paths\<close>

definition add_leading_slash :: "string \<Rightarrow> string" where
  "add_leading_slash e = (if take 1 e = ''/'' then e else CHR ''/'' # e)"

definition strip_leading_slash :: "string \<Rightarrow> string" where
  "strip_leading_slash e = (if take 1 e = ''/'' then drop 1 e else e)"

definition strip_trailing_slash :: "string \<Rightarrow> string" where
  "strip_trailing_slash e = (if e \<noteq> [] \<and> last e = CHR ''/'' then butlast e else e)"

record 's location =
  lc_pathname :: string
  lc_search :: string
  lc_hash :: string
  lc_state :: "'s option"
  lc_key :: "string option"

definition create_path :: "'s location \<Rightarrow> string" where
  "create_path e =
     (let r0 = (if lc_pathname e = [] then ''/'' else lc_pathname e);
          n = lc_search e; i = lc_hash e;
          r1 = (if n \<noteq> [] \<and> n \<noteq> ''?'' then r0 @ (if take 1 n = ''?'' then n else CHR ''?'' # n) else r0)
      in if i \<noteq> [] \<and> i \<noteq> ''#'' then r1 @ (if take 1 i = ''#'' then i else CHR ''#'' # i) else r1)"

text \<open>\<open>indexOf\<close> and \<open>substr\<close>: the text before the first \<open>c\<close>, and from it on.\<close>

definition cut_at :: "char \<Rightarrow> string \<Rightarrow> string \<times> string" where
  "cut_at c s = (takeWhile (\<lambda>x. x \<noteq> c) s, dropWhile (\<lambda>x. x \<noteq> c) s)"

definition parse_path :: "string \<Rightarrow> string \<times> string \<times> string" where
  "parse_path e =
     (let t0 = (if e = [] then ''/'' else e);
          (t1, i) = cut_at (CHR ''#'') t0;
          (t2, n) = cut_at (CHR ''?'') t1
      in (t2, (if n = ''?'' then [] else n), (if i = ''#'' then [] else i)))"

fun split_slash :: "string \<Rightarrow> string list" where
  "split_slash [] = [[]]"
| "split_slash (c # cs) =
     (if c = CHR ''/'' then [] # split_slash cs
      else (case split_slash cs of [] \<Rightarrow> [[c]] | s # ss \<Rightarrow> (c # s) # ss))"

fun join_slash :: "string list \<Rightarrow> string" where
  "join_slash [] = []"
| "join_slash [s] = s"
| "join_slash (s # ss) = s @ ''/'' @ join_slash ss"

definition is_absolute :: "string \<Rightarrow> bool" where
  "is_absolute e = (take 1 e = ''/'')"

text \<open>One turn of the loop from the last segment to the first; \<open>h\<close> counts the open \<open>..\<close>.\<close>

definition squash :: "string \<Rightarrow> string list \<times> nat \<Rightarrow> string list \<times> nat" where
  "squash f st =
     (let (s, h) = st in
      if f = ''.'' then (s, h) else if f = ''..'' then (s, h + 1)
      else if h > 0 then (s, h - 1) else (f # s, h))"

definition resolve_pathname :: "string \<Rightarrow> string \<Rightarrow> string" where
  "resolve_pathname e t =
     (let ps = (if e = [] then [] else split_slash e); s0 = (if t = [] then [] else split_slash t);
          c = (is_absolute e \<or> is_absolute t);
          s = (if is_absolute e then ps else if ps \<noteq> [] then butlast s0 @ ps else s0)
      in
      if s = [] then ''/''
      else
        (let u = last s; n = (u = ''.'' \<or> u = ''..'' \<or> u = []);
             (s1, h) = foldr squash s ([], 0);
             s2 = (if c then s1 else replicate h ''..'' @ s1);
             s3 = (if \<not> c \<or> take 1 s2 = [[]] \<or> (s2 \<noteq> [] \<and> is_absolute (hd s2)) then s2 else [] # s2);
             p = join_slash s3
         in if n \<and> (p = [] \<or> last p \<noteq> CHR ''/'') then p @ ''/'' else p))"

section \<open>Creating a location\<close>

text \<open>The argument of \<open>push\<close> and \<open>replace\<close>: a path, or an object with some of the fields.\<close>

record 's location_arg =
  la_pathname :: "string option"
  la_search :: "string option"
  la_hash :: "string option"
  la_state :: "'s option"
  la_key :: "string option"

datatype 's destination = Path string | Loc "'s location_arg"

datatype uri_error = UriError string

definition prefix_mark :: "char \<Rightarrow> string option \<Rightarrow> string" where
  "prefix_mark c v =
     (case v of None \<Rightarrow> [] | Some s \<Rightarrow> if s = [] then [] else if take 1 s = [c] then s else c # s)"

definition location_fields :: "'s destination \<Rightarrow> 's option \<Rightarrow> 's location" where
  "location_fields e t =
     (case e of
        Path s \<Rightarrow>
          (let (p, n, i) = parse_path s in
           \<lparr>lc_pathname = p, lc_search = n, lc_hash = i, lc_state = t, lc_key = None\<rparr>)
      | Loc a \<Rightarrow>
          \<lparr>lc_pathname = (case la_pathname a of None \<Rightarrow> [] | Some p \<Rightarrow> p),
           lc_search = prefix_mark (CHR ''?'') (la_search a), lc_hash = prefix_mark (CHR ''#'') (la_hash a),
           lc_state = (case la_state a of Some x \<Rightarrow> Some x | None \<Rightarrow> t), lc_key = la_key a\<rparr>)"

definition create_location ::
    "'s destination \<Rightarrow> 's option \<Rightarrow> string option \<Rightarrow> 's location option \<Rightarrow> uri_error + 's location" where
  "create_location e t n i =
     (let r0 = location_fields e t in
      case decode_uri (lc_pathname r0) of
        None \<Rightarrow> Inl (UriError (lc_pathname r0))
      | Some p \<Rightarrow>
          (let r1 = r0\<lparr>lc_pathname := p\<rparr>;
               r2 = (case n of Some k \<Rightarrow> if k = [] then r1 else r1\<lparr>lc_key := Some k\<rparr> | None \<Rightarrow> r1)
           in Inr (case i of
                Some cur \<Rightarrow>
                  if p = [] then r2\<lparr>lc_pathname := lc_pathname cur\<rparr>
                  else if take 1 p \<noteq> ''/'' then r2\<lparr>lc_pathname := resolve_pathname p (lc_pathname cur)\<rparr>
                  else r2
              | None \<Rightarrow> if p = [] then r2\<lparr>lc_pathname := ''/''\<rparr> else r2)))"

section \<open>Transitions\<close>

datatype action = Pop | Push | Replace

text \<open>What a prompt answers: a message for the user, or a value that is or is not \<open>false\<close>.\<close>

datatype answer = Message string | Answer bool

type_synonym 's prompt = "nat \<times> ('s location option \<Rightarrow> action \<Rightarrow> answer)"

record 's transitions =
  tm_prompt :: "'s prompt option"
  tm_listeners :: "nat list"

definition confirm_transition ::
    "'s transitions \<Rightarrow> (string \<Rightarrow> bool) option \<Rightarrow> 's location option \<Rightarrow> action \<Rightarrow> bool" where
  "confirm_transition tm confirm l a =
     (case tm_prompt tm of
        None \<Rightarrow> True
      | Some (k, f) \<Rightarrow>
          (case f l a of
             Message m \<Rightarrow> (case confirm of Some g \<Rightarrow> g m | None \<Rightarrow> True)
           | Answer b \<Rightarrow> b))"

definition set_prompt :: "'s prompt \<Rightarrow> 's transitions \<Rightarrow> 's transitions" where
  "set_prompt p tm = tm\<lparr>tm_prompt := Some p\<rparr>"

text \<open>The function \<open>setPrompt\<close> returns: it clears the prompt only while it is still the one set.\<close>

definition release_prompt :: "nat \<Rightarrow> 's transitions \<Rightarrow> 's transitions" where
  "release_prompt k tm =
     (case tm_prompt tm of Some (j, f) \<Rightarrow> if j = k then tm\<lparr>tm_prompt := None\<rparr> else tm | None \<Rightarrow> tm)"

definition append_listener :: "nat \<Rightarrow> 's transitions \<Rightarrow> 's transitions" where
  "append_listener k tm = tm\<lparr>tm_listeners := tm_listeners tm @ [k]\<rparr>"

definition remove_listener :: "nat \<Rightarrow> 's transitions \<Rightarrow> 's transitions" where
  "remove_listener k tm = tm\<lparr>tm_listeners := filter (\<lambda>x. x \<noteq> k) (tm_listeners tm)\<rparr>"

type_synonym 's notice = "nat \<times> 's location option \<times> action"

definition notify_listeners :: "'s transitions \<Rightarrow> 's location option \<Rightarrow> action \<Rightarrow> 's notice list" where
  "notify_listeners tm l a = map (\<lambda>k. (k, l, a)) (tm_listeners tm)"

section \<open>The memory history\<close>

record 's memory_history =
  mh_length :: nat
  mh_action :: action
  mh_location :: "'s location option"
  mh_index :: int
  mh_entries :: "'s location list"
  mh_transitions :: "'s transitions"

definition clamp :: "int \<Rightarrow> int \<Rightarrow> int \<Rightarrow> int" where
  "clamp e t n = min (max e t) n"

definition entry_at :: "'s location list \<Rightarrow> int \<Rightarrow> 's location option" where
  "entry_at es i = (if 0 \<le> i \<and> i < int (length es) then Some (es ! nat i) else None)"

text \<open>The entries an object was made of keep a key of their own; the others get the given ones.\<close>

definition initial_key :: "'s destination \<Rightarrow> string \<Rightarrow> string option" where
  "initial_key e k =
     (case e of Path s \<Rightarrow> Some k
      | Loc a \<Rightarrow> (case la_key a of None \<Rightarrow> Some k | Some own \<Rightarrow> if own = [] then Some k else Some own))"

fun initial_locations :: "'s destination list \<Rightarrow> string list \<Rightarrow> uri_error + 's location list" where
  "initial_locations [] ks = Inr []"
| "initial_locations (e # es) ks =
     (case create_location e None (initial_key e (case ks of [] \<Rightarrow> [] | k # r \<Rightarrow> k)) None of
        Inl x \<Rightarrow> Inl x
      | Inr l \<Rightarrow>
          (case initial_locations es (case ks of [] \<Rightarrow> [] | k # r \<Rightarrow> r) of
             Inl x \<Rightarrow> Inl x | Inr ls \<Rightarrow> Inr (l # ls)))"

definition create_memory_history ::
    "'s destination list \<Rightarrow> int \<Rightarrow> string list \<Rightarrow> uri_error + 's memory_history" where
  "create_memory_history a d ks =
     (let m = clamp d 0 (int (length a) - 1) in
      case initial_locations a ks of
        Inl x \<Rightarrow> Inl x
      | Inr v \<Rightarrow>
          Inr \<lparr>mh_length = length v, mh_action = Pop, mh_location = entry_at v m, mh_index = m,
               mh_entries = v, mh_transitions = \<lparr>tm_prompt = None, tm_listeners = []\<rparr>\<rparr>)"

text \<open>\<open>setState\<close>: the length is brought up to date and the listeners are called.\<close>

definition set_state :: "'s memory_history \<Rightarrow> 's memory_history \<times> 's notice list" where
  "set_state b =
     (b\<lparr>mh_length := length (mh_entries b)\<rparr>,
      notify_listeners (mh_transitions b) (mh_location b) (mh_action b))"

definition mh_push ::
    "(string \<Rightarrow> bool) option \<Rightarrow> string \<Rightarrow> 's destination \<Rightarrow> 's option \<Rightarrow> 's memory_history
       \<Rightarrow> uri_error + 's memory_history \<times> 's notice list" where
  "mh_push confirm key e st b =
     (case create_location e st (Some key) (mh_location b) of
        Inl x \<Rightarrow> Inl x
      | Inr r \<Rightarrow>
          if confirm_transition (mh_transitions b) confirm (Some r) Push then
            (let n = mh_index b + 1; i = mh_entries b;
                 i1 = (if int (length i) > n then take (nat n) i @ [r] else i @ [r])
             in Inr (set_state (b\<lparr>mh_action := Push, mh_location := Some r, mh_index := n, mh_entries := i1\<rparr>)))
          else Inr (b, []))"

text \<open>A write at an index outside the array (\<open>-1\<close>, of an empty history) adds no entry.\<close>

definition mh_replace ::
    "(string \<Rightarrow> bool) option \<Rightarrow> string \<Rightarrow> 's destination \<Rightarrow> 's option \<Rightarrow> 's memory_history
       \<Rightarrow> uri_error + 's memory_history \<times> 's notice list" where
  "mh_replace confirm key e st b =
     (case create_location e st (Some key) (mh_location b) of
        Inl x \<Rightarrow> Inl x
      | Inr r \<Rightarrow>
          if confirm_transition (mh_transitions b) confirm (Some r) Replace then
            (let i1 = (if 0 \<le> mh_index b then (mh_entries b)[nat (mh_index b) := r] else mh_entries b)
             in Inr (set_state (b\<lparr>mh_action := Replace, mh_location := Some r, mh_entries := i1\<rparr>)))
          else Inr (b, []))"

definition mh_go ::
    "(string \<Rightarrow> bool) option \<Rightarrow> int \<Rightarrow> 's memory_history \<Rightarrow> 's memory_history \<times> 's notice list" where
  "mh_go confirm e b =
     (let n = clamp (mh_index b + e) 0 (int (length (mh_entries b)) - 1);
          i = entry_at (mh_entries b) n
      in if confirm_transition (mh_transitions b) confirm i Pop
         then set_state (b\<lparr>mh_action := Pop, mh_location := i, mh_index := n\<rparr>)
         else set_state b)"

definition mh_can_go :: "int \<Rightarrow> 's memory_history \<Rightarrow> bool" where
  "mh_can_go e b = (let t = mh_index b + e in 0 \<le> t \<and> t < int (length (mh_entries b)))"

datatype 's history_op =
  OpPush "(string \<Rightarrow> bool) option" string "'s destination" "'s option"
| OpReplace "(string \<Rightarrow> bool) option" string "'s destination" "'s option"
| OpGo "(string \<Rightarrow> bool) option" int
| OpBlock "'s prompt"
| OpUnblock nat
| OpListen nat
| OpUnlisten nat

text \<open>One call on the history; a call that throws leaves it as it is.\<close>

definition mh_step :: "'s history_op \<Rightarrow> 's memory_history \<Rightarrow> 's memory_history \<times> 's notice list" where
  "mh_step op b =
     (case op of
        OpPush c k e s \<Rightarrow> (case mh_push c k e s b of Inl x \<Rightarrow> (b, []) | Inr r \<Rightarrow> r)
      | OpReplace c k e s \<Rightarrow> (case mh_replace c k e s b of Inl x \<Rightarrow> (b, []) | Inr r \<Rightarrow> r)
      | OpGo c n \<Rightarrow> mh_go c n b
      | OpBlock p \<Rightarrow> (b\<lparr>mh_transitions := set_prompt p (mh_transitions b)\<rparr>, [])
      | OpUnblock k \<Rightarrow> (b\<lparr>mh_transitions := release_prompt k (mh_transitions b)\<rparr>, [])
      | OpListen k \<Rightarrow> (b\<lparr>mh_transitions := append_listener k (mh_transitions b)\<rparr>, [])
      | OpUnlisten k \<Rightarrow> (b\<lparr>mh_transitions := remove_listener k (mh_transitions b)\<rparr>, []))"


section \<open>Lemmas on paths\<close>

lemma split_slash_nonempty [simp]: "split_slash s \<noteq> []"
  by (induction s) (auto split: list.split)

lemma join_split [simp]: "join_slash (split_slash s) = s"
proof (induction s)
  case (Cons c cs)
  obtain s ss where "split_slash cs = s # ss" by (cases "split_slash cs") auto
  with Cons show ?case by (cases ss) auto
qed simp

lemma split_slash_free: "s \<in> set (split_slash e) \<Longrightarrow> CHR ''/'' \<notin> set s"
  by (induction e arbitrary: s) (auto split: if_splits list.splits)

lemma split_slash_id: "CHR ''/'' \<notin> set s \<Longrightarrow> split_slash s = [s]"
  by (induction s) auto

lemma split_slash_append: "CHR ''/'' \<notin> set s \<Longrightarrow> split_slash (s @ CHR ''/'' # r) = s # split_slash r"
  by (induction s) auto

lemma split_join:
  "ss \<noteq> [] \<Longrightarrow> \<forall>s \<in> set ss. CHR ''/'' \<notin> set s \<Longrightarrow> split_slash (join_slash ss) = ss"
  by (induction ss rule: join_slash.induct) (simp_all add: split_slash_id split_slash_append)

lemma squash_apply:
  "squash f (s, h) =
     (if f = ''.'' then (s, h) else if f = ''..'' then (s, h + 1)
      else if h > 0 then (s, h - 1) else (f # s, h))"
  by (simp add: squash_def)

lemma squash_set:
  "set (fst (foldr squash ss ([], 0))) \<subseteq> set ss - {''.'', ''..''}"
proof (induction ss)
  case (Cons f ss)
  obtain s h where "foldr squash ss ([], 0) = (s, h)" by (cases "foldr squash ss ([], 0)")
  with Cons show ?case by (auto simp: squash_apply)
qed simp

lemma squash_last:
  assumes "ss \<noteq> []" "last ss \<noteq> ''.''" "last ss \<noteq> ''..''"
  shows "fst (foldr squash ss ([], 0)) \<noteq> [] \<and> last (fst (foldr squash ss ([], 0))) = last ss"
  using assms
proof (induction ss)
  case (Cons f ss)
  show ?case
  proof (cases "ss = []")
    case False
    obtain s h where "foldr squash ss ([], 0) = (s, h)" by (cases "foldr squash ss ([], 0)")
    with Cons False show ?thesis by (auto simp: squash_apply)
  qed (use Cons in \<open>simp add: squash_apply\<close>)
qed simp

lemma split_slash_snoc: "split_slash (p @ ''/'') = split_slash p @ [[]]"
  by (induction p) (auto split: list.split)

lemma split_absolute: "is_absolute p \<Longrightarrow> hd (split_slash p) = []"
  by (cases p) (auto simp: is_absolute_def)

lemma join_absolute: "join_slash ([] # ss) = (if ss = [] then [] else CHR ''/'' # join_slash ss)"
  by (cases ss) simp_all

text \<open>The segments of a resolved path: those the loop keeps, behind an empty one, before an empty one.\<close>

lemma resolve_absolute:
  assumes "is_absolute e \<or> is_absolute t"
  shows "is_absolute (resolve_pathname e t) \<and>
         set (split_slash (resolve_pathname e t)) \<inter> {''.'', ''..''} = {}"
proof -
  define ps where "ps = (if e = [] then [] else split_slash e)"
  define s0 where "s0 = (if t = [] then [] else split_slash t)"
  define s where "s = (if is_absolute e then ps else if ps \<noteq> [] then butlast s0 @ ps else s0)"
  have s_ne: "s \<noteq> []"
    using assms by (auto simp: s_def ps_def s0_def is_absolute_def)
  define s1 where "s1 = fst (foldr squash s ([], 0))"
  define h where "h = snd (foldr squash s ([], 0))"
  have sq: "foldr squash s ([], 0) = (s1, h)" by (simp add: s1_def h_def)
  define n where "n = (last s = ''.'' \<or> last s = ''..'' \<or> last s = [])"
  have free: "CHR ''/'' \<notin> set f" if "f \<in> set s" for f
    using that by (auto simp: s_def ps_def s0_def split: if_splits dest: split_slash_free in_set_butlastD)
  have s1_sub: "f \<in> set s \<and> f \<noteq> ''.'' \<and> f \<noteq> ''..''" if "f \<in> set s1" for f
    using squash_set [of s] that by (auto simp: s1_def)
  define s3 where "s3 = (if take 1 s1 = [[]] then s1 else [] # s1)"
  have no_abs: "\<not> is_absolute (hd s1)" if "s1 \<noteq> []"
  proof -
    have "CHR ''/'' \<notin> set (hd s1)" using free s1_sub hd_in_set [OF that] by blast
    then show ?thesis by (cases "hd s1") (auto simp: is_absolute_def)
  qed
  have no_abs': "(s1 \<noteq> [] \<and> is_absolute (hd s1)) = False" using no_abs by blast
  have res: "resolve_pathname e t =
      (let p = join_slash s3 in if n \<and> (p = [] \<or> last p \<noteq> CHR ''/'') then p @ ''/'' else p)"
    using assms s_ne
    by (simp add: resolve_pathname_def ps_def [symmetric] s0_def [symmetric] s_def [symmetric] sq
        n_def [symmetric] s3_def Let_def no_abs')
  have s3: "s3 \<noteq> []" "hd s3 = []" "set s3 \<subseteq> insert [] (set s1)"
    by (cases s1; auto simp: s3_def)+
  have s3_free: "\<forall>f \<in> set s3. CHR ''/'' \<notin> set f" using s3(3) s1_sub free by auto
  have segs: "split_slash (join_slash s3) = s3" by (rule split_join [OF s3(1) s3_free])
  have dots: "set s3 \<inter> {''.'', ''..''} = {}" using s3(3) s1_sub by auto
  obtain ss where ss: "s3 = [] # ss" using s3(1,2) by (cases s3) auto
  have abs: "is_absolute (join_slash s3)" if "ss \<noteq> []"
    using that by (simp add: ss join_absolute is_absolute_def)
  have n: "n" if "ss = []"
  proof (rule ccontr)
    assume "\<not> n"
    then have l: "last s \<noteq> ''.''" "last s \<noteq> ''..''" "last s \<noteq> []" by (auto simp: n_def)
    then have "s1 \<noteq> []" "last s1 = last s" using squash_last [OF s_ne] by (auto simp: s1_def)
    then show False using l(3) that ss by (cases s1) (auto simp: s3_def split: if_splits)
  qed
  show ?thesis
  proof (cases "ss = []")
    case True
    then show ?thesis using n by (simp add: res ss is_absolute_def)
  next
    case False
    have "is_absolute (join_slash s3 @ ''/'')"
      using abs [OF False] by (simp add: is_absolute_def) (cases "join_slash s3"; simp)
    then show ?thesis
      using abs [OF False] dots by (auto simp: res Let_def segs split_slash_snoc)
  qed
qed

section \<open>The history as a tape\<close>

text \<open>The abstract history: what is behind (nearest first), the current location, what is ahead.\<close>

type_synonym 's tape = "'s location list \<times> 's location \<times> 's location list"

fun tape_push :: "'s location \<Rightarrow> 's tape \<Rightarrow> 's tape" where
  "tape_push r (p, c, f) = (c # p, r, [])"

fun tape_replace :: "'s location \<Rightarrow> 's tape \<Rightarrow> 's tape" where
  "tape_replace r (p, c, f) = (p, r, f)"

fun tape_back :: "'s tape \<Rightarrow> 's tape" where
  "tape_back (x # p, c, f) = (p, x, c # f)"
| "tape_back ([], c, f) = ([], c, f)"

fun tape_forward :: "'s tape \<Rightarrow> 's tape" where
  "tape_forward (p, c, x # f) = (c # p, x, f)"
| "tape_forward (p, c, []) = (p, c, [])"

definition tape_go :: "int \<Rightarrow> 's tape \<Rightarrow> 's tape" where
  "tape_go n = (if 0 \<le> n then tape_forward ^^ nat n else tape_back ^^ nat (- n))"

definition tape_at :: "'s location list \<Rightarrow> nat \<Rightarrow> 's tape" where
  "tape_at es i = (rev (take i es), es ! i, drop (Suc i) es)"

definition tape_of :: "'s memory_history \<Rightarrow> 's tape" where
  "tape_of b = tape_at (mh_entries b) (nat (mh_index b))"

definition mh_wf :: "'s memory_history \<Rightarrow> bool" where
  "mh_wf b \<longleftrightarrow>
     0 \<le> mh_index b \<and> mh_index b < int (length (mh_entries b)) \<and>
     mh_length b = length (mh_entries b) \<and> mh_location b = Some (fst (snd (tape_of b)))"

lemma tape_forward_at:
  assumes "i < length es"
  shows "(tape_forward ^^ k) (tape_at es i) = tape_at es (min (i + k) (length es - 1))"
proof (induction k)
  case (Suc k)
  have step: "tape_forward (tape_at es j) = tape_at es (min (Suc j) (length es - 1))" if "j < length es" for j
  proof (cases "Suc j < length es")
    case True
    then have "drop (Suc j) es = es ! Suc j # drop (Suc (Suc j)) es" by (simp add: Cons_nth_drop_Suc)
    with True show ?thesis by (simp add: tape_at_def take_Suc_conv_app_nth)
  next
    case False
    with that have "length es = Suc j" by simp
    then show ?thesis by (simp add: tape_at_def)
  qed
  have "min (i + k) (length es - 1) < length es" using assms by auto
  then show ?case using Suc step by (simp add: min_def)
next
  case 0
  have "min i (length es - 1) = i" using assms by simp
  then show ?case by simp
qed

lemma tape_back_at:
  assumes "i < length es"
  shows "(tape_back ^^ k) (tape_at es i) = tape_at es (i - k)"
proof (induction k)
  case (Suc k)
  have step: "tape_back (tape_at es j) = tape_at es (j - 1)" if "j < length es" for j
  proof (cases j)
    case (Suc j')
    with that have "es ! j' # drop (Suc j') es = drop j' es" "drop (Suc j') es = es ! Suc j' # drop (Suc (Suc j')) es"
      by (simp_all add: Cons_nth_drop_Suc)
    with Suc that show ?thesis by (simp add: tape_at_def take_Suc_conv_app_nth)
  qed (simp add: tape_at_def)
  have "i - k < length es" using assms by auto
  then show ?case using Suc step by simp
qed simp


definition tape_step :: "'s history_op \<Rightarrow> 's transitions \<Rightarrow> 's tape \<Rightarrow> 's tape" where
  "tape_step op tm t =
     (case op of
        OpPush c k e s \<Rightarrow>
          (case create_location e s (Some k) (Some (fst (snd t))) of
             Inl x \<Rightarrow> t
           | Inr r \<Rightarrow> if confirm_transition tm c (Some r) Push then tape_push r t else t)
      | OpReplace c k e s \<Rightarrow>
          (case create_location e s (Some k) (Some (fst (snd t))) of
             Inl x \<Rightarrow> t
           | Inr r \<Rightarrow> if confirm_transition tm c (Some r) Replace then tape_replace r t else t)
      | OpGo c n \<Rightarrow>
          (let t' = tape_go n t in
           if confirm_transition tm c (Some (fst (snd t'))) Pop then t' else t)
      | _ \<Rightarrow> t)"

lemma tape_go_at:
  assumes "0 \<le> i" "i < int (length es)"
  shows "tape_go n (tape_at es (nat i)) = tape_at es (nat (clamp (i + n) 0 (int (length es) - 1)))"
proof (cases "0 \<le> n")
  case True
  have "nat (clamp (i + n) 0 (int (length es) - 1)) = min (nat i + nat n) (length es - 1)"
    using assms True by (auto simp: clamp_def min_def max_def)
  then show ?thesis using assms True by (simp add: tape_go_def tape_forward_at)
next
  case False
  have "nat (clamp (i + n) 0 (int (length es) - 1)) = nat i - nat (- n)"
    using assms False by (auto simp: clamp_def min_def max_def)
  then show ?thesis using assms False by (simp add: tape_go_def tape_back_at)
qed

lemma tape_at_current: "fst (snd (tape_at es i)) = es ! i"
  by (simp add: tape_at_def)

lemma push_at:
  assumes "i < length es"
  shows "tape_at (take (Suc i) es @ [r]) (Suc i) = tape_push r (tape_at es i)"
  using assms by (simp add: tape_at_def take_Suc_conv_app_nth nth_append min_def)

lemma replace_at:
  assumes "i < length es"
  shows "tape_at (es[i := r]) i = tape_replace r (tape_at es i)"
  using assms by (simp add: tape_at_def)

lemma clamp_bounds: "t \<le> n \<Longrightarrow> t \<le> clamp e t n \<and> clamp e t n \<le> n"
  by (auto simp: clamp_def min_def max_def)

lemma push_step:
  assumes "mh_wf b"
  shows "mh_wf (fst (mh_step (OpPush c k e s) b)) \<and>
         tape_of (fst (mh_step (OpPush c k e s) b)) = tape_step (OpPush c k e s) (mh_transitions b) (tape_of b)"
proof -
  define i where "i = nat (mh_index b)"
  have i: "mh_index b = int i" "i < length (mh_entries b)"
    using assms by (auto simp: mh_wf_def i_def)
  have l: "mh_location b = Some (fst (snd (tape_of b)))" using assms by (simp add: mh_wf_def)
  show ?thesis
  proof (cases "create_location e s (Some k) (mh_location b)")
    case (Inl x)
    then show ?thesis using assms by (simp add: mh_step_def mh_push_def tape_step_def l)
  next
    case (Inr r)
    have es: "(if int (length (mh_entries b)) > mh_index b + 1
        then take (nat (mh_index b + 1)) (mh_entries b) @ [r] else mh_entries b @ [r]) =
        take (Suc i) (mh_entries b) @ [r]"
      using i by (auto simp: nat_add_distrib)
    have n: "nat (1 + int i) = Suc i" by simp
    have "tape_at (take (Suc i) (mh_entries b) @ [r]) (Suc i) = tape_push r (tape_of b)"
      using push_at [OF i(2)] by (simp add: tape_of_def i_def)
    moreover have "fst (snd (tape_push r (tape_of b))) = r" by (cases "tape_of b") simp
    ultimately show ?thesis
      using Inr assms i l
      by (auto simp: mh_step_def mh_push_def tape_step_def es Let_def set_state_def mh_wf_def
          tape_of_def n add.commute)
  qed
qed

lemma replace_step:
  assumes "mh_wf b"
  shows "mh_wf (fst (mh_step (OpReplace c k e s) b)) \<and>
         tape_of (fst (mh_step (OpReplace c k e s) b)) =
           tape_step (OpReplace c k e s) (mh_transitions b) (tape_of b)"
proof -
  have i: "0 \<le> mh_index b" "nat (mh_index b) < length (mh_entries b)"
    using assms by (auto simp: mh_wf_def)
  have l: "mh_location b = Some (fst (snd (tape_of b)))" using assms by (simp add: mh_wf_def)
  show ?thesis
  proof (cases "create_location e s (Some k) (mh_location b)")
    case (Inl x)
    then show ?thesis using assms by (simp add: mh_step_def mh_replace_def tape_step_def l)
  next
    case (Inr r)
    have "tape_at ((mh_entries b)[nat (mh_index b) := r]) (nat (mh_index b)) = tape_replace r (tape_of b)"
      using replace_at [OF i(2)] by (simp add: tape_of_def)
    moreover have "fst (snd (tape_replace r (tape_of b))) = r" by (cases "tape_of b") simp
    ultimately show ?thesis
      using Inr assms i l
      by (auto simp: mh_step_def mh_replace_def tape_step_def Let_def set_state_def mh_wf_def tape_of_def)
  qed
qed

lemma go_step:
  assumes "mh_wf b"
  shows "mh_wf (fst (mh_step (OpGo c n) b)) \<and>
         tape_of (fst (mh_step (OpGo c n) b)) = tape_step (OpGo c n) (mh_transitions b) (tape_of b)"
proof -
  define j where "j = clamp (mh_index b + n) 0 (int (length (mh_entries b)) - 1)"
  have wf: "0 \<le> mh_index b" "mh_index b < int (length (mh_entries b))" using assms by (auto simp: mh_wf_def)
  have j: "0 \<le> j" "j < int (length (mh_entries b))"
    using clamp_bounds [of 0 "int (length (mh_entries b)) - 1" "mh_index b + n"] wf
    unfolding j_def by linarith+
  have go: "tape_go n (tape_of b) = tape_at (mh_entries b) (nat j)"
    unfolding tape_of_def j_def by (rule tape_go_at [OF wf])
  have at: "entry_at (mh_entries b) j = Some (mh_entries b ! nat j)" using j by (simp add: entry_at_def)
  show ?thesis
    using assms j
    by (auto simp: mh_step_def mh_go_def tape_step_def Let_def set_state_def mh_wf_def tape_of_def
        go [unfolded tape_of_def] at j_def [symmetric] tape_at_current)
qed

lemma mh_step_refines:
  assumes "mh_wf b"
  shows "mh_wf (fst (mh_step op b)) \<and>
         tape_of (fst (mh_step op b)) = tape_step op (mh_transitions b) (tape_of b)"
proof (cases op)
  case (OpPush c k e s) then show ?thesis using push_step [OF assms] by simp
next
  case (OpReplace c k e s) then show ?thesis using replace_step [OF assms] by simp
next
  case (OpGo c n) then show ?thesis using go_step [OF assms] by simp
qed (use assms in \<open>simp_all add: mh_step_def tape_step_def mh_wf_def tape_of_def\<close>)

lemma initial_locations_length: "initial_locations es ks = Inr v \<Longrightarrow> length v = length es"
  by (induction es ks arbitrary: v rule: initial_locations.induct) (auto split: sum.splits)

lemma create_wf:
  assumes "create_memory_history a d ks = Inr b" "a \<noteq> []"
  shows "mh_wf b"
proof -
  have "0 \<le> clamp d 0 (int (length a) - 1) \<and> clamp d 0 (int (length a) - 1) < int (length a)"
    using clamp_bounds [of 0 "int (length a) - 1" d] assms(2) by (cases a) auto
  then show ?thesis
    using assms(1)
    by (auto simp: create_memory_history_def Let_def mh_wf_def tape_of_def tape_at_current entry_at_def
        split: sum.splits dest: initial_locations_length)
qed

definition mh_run :: "'s history_op list \<Rightarrow> 's memory_history \<Rightarrow> 's memory_history" where
  "mh_run ops b = fold (\<lambda>op x. fst (mh_step op x)) ops b"

lemma mh_run_wf: "mh_wf b \<Longrightarrow> mh_wf (mh_run ops b)"
  unfolding mh_run_def by (induction ops arbitrary: b) (simp_all add: mh_step_refines)

lemma resolve_absolute_hd: "is_absolute t \<Longrightarrow> is_absolute (resolve_pathname e t)"
  using resolve_absolute by blast

section \<open>Properties\<close>

text \<open>
  C34: A history made with at least one entry is, after any calls, a position inside its entries: its
  location is the entry there and its length theirs, and each further call is the step of the tape
  of locations behind, at and ahead of it: push drops what is ahead, replace keeps both sides, go
  moves one by one and stops at the ends, a refused or failing transition moves nothing.\<close>

theorem memory_history_refines:
  assumes "create_memory_history a d ks = Inr b0" "a \<noteq> []"
  shows "let b = mh_run ops b0; b' = fst (mh_step op b) in
    0 \<le> mh_index b \<and> mh_index b < int (length (mh_entries b)) \<and>
    mh_location b = Some (mh_entries b ! nat (mh_index b)) \<and> mh_length b = length (mh_entries b) \<and>
    tape_of b' = tape_step op (mh_transitions b) (tape_of b)"
proof -
  have "mh_wf (mh_run ops b0)" by (rule mh_run_wf [OF create_wf [OF assms]])
  then show ?thesis
    using mh_step_refines [of "mh_run ops b0" op]
    by (simp add: mh_wf_def Let_def tape_of_def tape_at_current)
qed

definition sample_history :: "unit memory_history" where
  "sample_history =
     projr (create_memory_history [Path ''/'', Path ''/a?x=1'', Path ''/b''] 1 [''k0'', ''k1'', ''k2''])"

lemma sample_history_created:
  "create_memory_history [Path ''/'', Path ''/a?x=1'', Path ''/b''] 1 [''k0'', ''k1'', ''k2''] = Inr sample_history"
proof -
  have "\<not> isl (create_memory_history
      [Path ''/'' :: unit destination, Path ''/a?x=1'', Path ''/b''] 1 [''k0'', ''k1'', ''k2''])"
    by code_simp
  then show ?thesis by (simp add: sample_history_def)
qed

theorem memory_history_refines_witness:
  "mh_location (mh_run [OpPush None ''k3'' (Path ''../c'') None] sample_history) =
     Some (mh_entries (mh_run [OpPush None ''k3'' (Path ''../c'') None] sample_history) !
       nat (mh_index (mh_run [OpPush None ''k3'' (Path ''../c'') None] sample_history)))"
  using memory_history_refines [OF sample_history_created, where op = "OpGo None (- 7)" and
      ops = "[OpPush None ''k3'' (Path ''../c'') None]"]
  by (simp add: Let_def)

text \<open>
  The location made from a path or an object, while the current location is absolute, has an
  absolute path as soon as it is made at all; where the decoded path is relative it is resolved
  against the current one and keeps no segment \<open>.\<close> or \<open>..\<close>; it fails exactly when the path does not decode.\<close>

theorem create_location_absolute:
  assumes "is_absolute (lc_pathname cur)"
  shows "case create_location e st k (Some cur) of
      Inl x \<Rightarrow> decode_uri (lc_pathname (location_fields e st)) = None
    | Inr l \<Rightarrow> (\<exists>p. decode_uri (lc_pathname (location_fields e st)) = Some p \<and>
        is_absolute (lc_pathname l) \<and>
        (p = [] \<or> is_absolute p \<or> set (split_slash (lc_pathname l)) \<inter> {''.'', ''..''} = {}))"
proof (cases "decode_uri (lc_pathname (location_fields e st))")
  case None
  then show ?thesis by (simp add: create_location_def Let_def)
next
  case (Some p)
  have "is_absolute (resolve_pathname p (lc_pathname cur)) \<and>
      set (split_slash (resolve_pathname p (lc_pathname cur))) \<inter> {''.'', ''..''} = {}"
    using assms by (intro resolve_absolute) simp
  then show ?thesis
    using assms Some
    by (auto simp: create_location_def Let_def is_absolute_def split: option.split)
qed

theorem create_location_absolute_witness:
  "\<exists>l. create_location (Path ''../x/./y'') (None :: unit option) None
       (Some \<lparr>lc_pathname = ''/a/b'', lc_search = [], lc_hash = [], lc_state = None, lc_key = None\<rparr>) = Inr l \<and>
     is_absolute (lc_pathname l)"
proof -
  let ?cur = "\<lparr>lc_pathname = ''/a/b'', lc_search = [], lc_hash = [], lc_state = None :: unit option, lc_key = None\<rparr>"
  have "is_absolute (lc_pathname ?cur)" by (simp add: is_absolute_def)
  moreover have "decode_uri (lc_pathname (location_fields (Path ''../x/./y'') (None :: unit option))) \<noteq> None"
    by code_simp
  ultimately show ?thesis
    using create_location_absolute [of ?cur "Path ''../x/./y''" None None]
    by (auto split: sum.splits)
qed

text \<open>
  C35: Writing a location as a path and reading the path back gives its pathname, search and hash,
  when the pathname is not empty and has no \<open>?\<close> or \<open>#\<close>, and search and hash are empty or start with
  their mark, have something behind it, and the search has no \<open>#\<close>.\<close>

theorem path_round_trip:
  assumes "lc_pathname l \<noteq> []" "CHR ''?'' \<notin> set (lc_pathname l)" "CHR ''#'' \<notin> set (lc_pathname l)"
    and "lc_search l = [] \<or> (\<exists>x. lc_search l = CHR ''?'' # x \<and> x \<noteq> [] \<and> CHR ''#'' \<notin> set x)"
    and "lc_hash l = [] \<or> (\<exists>y. lc_hash l = CHR ''#'' # y \<and> y \<noteq> [])"
  shows "parse_path (create_path l) = (lc_pathname l, lc_search l, lc_hash l)"
proof -
  have cut: "cut_at c (p @ r) = (p, r)" if "c \<notin> set p" "r = [] \<or> (\<exists>x. r = c # x)" for c p r
    using that by (auto simp: cut_at_def takeWhile_append dropWhile_append)
  have cp: "create_path l = (lc_pathname l @ lc_search l) @ lc_hash l"
    using assms(1,4,5) by (auto simp: create_path_def Let_def)
  have "cut_at (CHR ''#'') (create_path l) = (lc_pathname l @ lc_search l, lc_hash l)"
    unfolding cp using assms(3,4,5) by (intro cut) auto
  moreover have "cut_at (CHR ''?'') (lc_pathname l @ lc_search l) = (lc_pathname l, lc_search l)"
    using assms(2,4) by (intro cut) auto
  moreover have "create_path l \<noteq> []" using assms(1) by (simp add: cp)
  ultimately show ?thesis using assms(4,5) by (auto simp: parse_path_def)
qed

theorem path_round_trip_witness:
  "parse_path (create_path \<lparr>lc_pathname = ''/a'', lc_search = ''?x=1'', lc_hash = ''#top?'',
      lc_state = None :: unit option, lc_key = None\<rparr>) = (''/a'', ''?x=1'', ''#top?'')"
  using path_round_trip [of "\<lparr>lc_pathname = ''/a'', lc_search = ''?x=1'', lc_hash = ''#top?'',
      lc_state = None :: unit option, lc_key = None\<rparr>"] by simp

end
