(* ===== verification/Web_Admin.thy ===== *)
theory Web_Admin
  imports Admin
begin

text \<open>
  The admin application itself (\<open>web/bundle.js\<close>, line 76: the App, Main, Login and Actions components;
  line 52: \<open>HumanSeconds\<close>; line 37: \<open>jQuery.param\<close>). One step of the model is one callback of the
  browser: a click, an answer to a request, a timer. Requests in flight and timers are lists; answers
  come in any order. The browser's storage is the two keys the code uses. A Main component is named by
  a number, since a request or timer of one that is gone may still call back.
\<close>

section \<open>Encoding a form\<close>

definition hex_upper :: "nat \<Rightarrow> char" where
  "hex_upper n = (if n < 10 then char_of (48 + n) else char_of (55 + n))"

text \<open>The characters \<open>encodeURIComponent\<close> leaves alone.\<close>

definition uri_unreserved :: "char \<Rightarrow> bool" where
  "uri_unreserved c =
     (let n = byte_of c in
      65 \<le> n \<and> n \<le> 90 \<or> 97 \<le> n \<and> n \<le> 122 \<or> 48 \<le> n \<and> n \<le> 57 \<or> n \<in> {45, 95, 46, 33, 126, 42, 39, 40, 41})"

definition encode_char :: "char \<Rightarrow> string" where
  "encode_char c =
     (if uri_unreserved c then [c]
      else [CHR ''%'', hex_upper (byte_of c div 16), hex_upper (byte_of c mod 16)])"

definition encode_uri_component :: "string \<Rightarrow> string" where
  "encode_uri_component s = concat (map encode_char s)"

text \<open>\<open>data.replace(/%20/g, "+")\<close>.\<close>

fun replace_20 :: "string \<Rightarrow> string" where
  "replace_20 (a # b # c # r) =
     (if a = CHR ''%'' \<and> b = CHR ''2'' \<and> c = CHR ''0'' then CHR ''+'' # replace_20 r
      else a # replace_20 (b # c # r))"
| "replace_20 s = s"

fun join_amp :: "string list \<Rightarrow> string" where
  "join_amp [] = []"
| "join_amp [s] = s"
| "join_amp (s # ss) = s @ ''&'' @ join_amp ss"

definition jquery_param :: "(string \<times> string) list \<Rightarrow> string" where
  "jquery_param form =
     join_amp (map (\<lambda>(k, v). encode_uri_component k @ ''='' @ encode_uri_component v) form)"

definition post_body :: "(string \<times> string) list \<Rightarrow> string" where
  "post_body form = replace_20 (jquery_param form)"

definition login_body :: "string \<Rightarrow> string" where
  "login_body password = post_body [(''password'', password)]"

section \<open>The command of the Actions form\<close>

definition method_fields :: "string \<Rightarrow> string list option" where
  "method_fields m =
     map_of [(''publish'', [''channel'', ''data'']), (''broadcast'', [''channels'', ''data'']),
             (''presence'', [''channel'']), (''presence_stats'', [''channel'']),
             (''history'', [''channel'']), (''history_remove'', [''channel'']),
             (''unsubscribe'', [''channel'', ''user'']), (''disconnect'', [''user'']),
             (''channels'', []), (''info'', [])] m"

datatype action_param = PText string | PJson string | PList "string list"

text \<open>
  \<open>handleSubmit\<close> up to sending: what the inputs hold, and the JSON the editor's text parses to, if it
  does. The select only offers names that have fields.
\<close>

definition build_action ::
    "string \<Rightarrow> (string \<Rightarrow> string) \<Rightarrow> string option \<Rightarrow> string + (string \<times> action_param) list" where
  "build_action name input data =
     (let with_data = (name = ''publish'' \<or> name = ''broadcast'') in
      if with_data \<and> data = None then Inl ''malformed JSON''
      else
        (case method_fields name of
           None \<Rightarrow> Inl ''TypeError''
         | Some a \<Rightarrow>
             if name = ''publish'' \<and> input ''channel'' = [] then Inl ''channel required''
             else Inr (map (\<lambda>k.
                 if k = ''data'' then (k, PJson (the data))
                 else if k = ''channels'' then (k, PList (split_char (CHR '' '') (input k)))
                 else (k, PText (input k))) a)))"

section \<open>The state of the page\<close>

datatype request =
  RqLogin string
| RqInfo nat "string option"
| RqAction nat "string option" string "(string \<times> action_param) list"

record ui =
  us_token :: "string option"
  us_insecure :: bool
  ui_auth :: bool
  ui_insecure :: bool
  ui_main :: nat
  ui_props :: "nat \<Rightarrow> bool"
  ui_nodes :: "string list"
  ui_timer :: "nat option"
  ui_timers :: "(nat \<times> nat) list"
  ui_requests :: "request list"
  ui_fresh :: nat

text \<open>A key that is not there reads as \<open>null\<close>, which the header spells out.\<close>

definition auth_header :: "nat \<Rightarrow> ui \<Rightarrow> string option" where
  "auth_header inst u =
     (if ui_props u inst then None
      else Some (''token '' @ (case us_token u of Some t \<Rightarrow> t | None \<Rightarrow> ''null'')))"

definition send_request :: "request \<Rightarrow> ui \<Rightarrow> ui" where
  "send_request r u = u\<lparr>ui_requests := ui_requests u @ [r]\<rparr>"

definition ask_info :: "nat \<Rightarrow> ui \<Rightarrow> ui" where
  "ask_info inst u = send_request (RqInfo inst (auth_header inst u)) u"

definition send_action :: "nat \<Rightarrow> string \<Rightarrow> (string \<times> action_param) list \<Rightarrow> ui \<Rightarrow> ui" where
  "send_action inst name params u = send_request (RqAction inst (auth_header inst u) name params) u"

definition handle_login :: "string \<Rightarrow> ui \<Rightarrow> ui" where
  "handle_login password u = send_request (RqLogin password) u"

text \<open>A Main that mounts has no nodes yet and asks for them.\<close>

definition mount_main :: "ui \<Rightarrow> ui" where
  "mount_main u =
     (let inst = ui_fresh u in
      ask_info inst (u\<lparr>ui_main := inst, ui_fresh := inst + 1, ui_nodes := [],
        ui_props := (ui_props u)(inst := ui_insecure u)\<rparr>))"

definition unmount_main :: "ui \<Rightarrow> ui" where
  "unmount_main u =
     (case ui_timer u of
        None \<Rightarrow> u
      | Some k \<Rightarrow> u\<lparr>ui_timers := filter (\<lambda>t. fst t \<noteq> k) (ui_timers u)\<rparr>)"

text \<open>\<open>setState\<close> of the App and the rendering it causes: Main while logged in, Login otherwise.\<close>

definition set_app :: "bool \<Rightarrow> bool \<Rightarrow> ui \<Rightarrow> ui" where
  "set_app auth insecure u =
     (let v = u\<lparr>ui_auth := auth, ui_insecure := insecure\<rparr> in
      if ui_auth u then
        if auth then v\<lparr>ui_props := (ui_props u)(ui_main u := insecure)\<rparr>
        else handle_login [] (unmount_main v)
      else if auth then mount_main v else v)"

definition handle_logout :: "ui \<Rightarrow> ui" where
  "handle_logout u = set_app False False (u\<lparr>us_token := None, us_insecure := False\<rparr>)"

definition login_done :: "string \<Rightarrow> ui \<Rightarrow> ui" where
  "login_done t u =
     (let n = (t = ''insecure'') in
      set_app True n (u\<lparr>us_token := Some t, us_insecure := us_insecure u \<or> n\<rparr>))"

definition poll_later :: "nat \<Rightarrow> ui \<Rightarrow> ui" where
  "poll_later inst u =
     (let k = ui_fresh u in
      u\<lparr>ui_fresh := k + 1, ui_timer := Some k, ui_timers := ui_timers u @ [(k, inst)]\<rparr>)"

text \<open>\<open>handleInfo\<close> sets the state of its component, which does nothing once that is gone.\<close>

definition handle_info :: "nat \<Rightarrow> string list \<Rightarrow> ui \<Rightarrow> ui" where
  "handle_info inst nodes u = (if ui_auth u \<and> ui_main u = inst then u\<lparr>ui_nodes := nodes\<rparr> else u)"

text \<open>The App's constructor reads the storage; the page then renders.\<close>

definition app_start :: "string option \<Rightarrow> bool \<Rightarrow> ui" where
  "app_start token insecure =
     (let auth = (token \<noteq> None \<and> token \<noteq> Some []);
          u = \<lparr>us_token = token, us_insecure = insecure, ui_auth = auth, ui_insecure = insecure,
               ui_main = 0, ui_props = (\<lambda>_. False), ui_nodes = [], ui_timer = None, ui_timers = [],
               ui_requests = [], ui_fresh = 1\<rparr>
      in if auth then mount_main u else handle_login [] u)"

section \<open>The callbacks\<close>

datatype ui_event =
  Submit string
| LoginOk nat string
| LoginFailed nat
| InfoOk nat "string list"
| InfoFailed nat nat
| ActionOk nat
| ActionFailed nat nat
| TimerFires nat
| Action string "string \<Rightarrow> string" "string option"
| Logout

definition drop_request :: "nat \<Rightarrow> ui \<Rightarrow> ui" where
  "drop_request k u = u\<lparr>ui_requests := take k (ui_requests u) @ drop (Suc k) (ui_requests u)\<rparr>"

definition request_at :: "nat \<Rightarrow> ui \<Rightarrow> request option" where
  "request_at k u = (if k < length (ui_requests u) then Some (ui_requests u ! k) else None)"

text \<open>\<open>None\<close>: nothing in the page can cause the event now.\<close>

definition ui_step :: "ui_event \<Rightarrow> ui \<Rightarrow> ui option" where
  "ui_step e u =
     (case e of
        Submit p \<Rightarrow> if ui_auth u then None else Some (handle_login p u)
      | LoginOk k t \<Rightarrow>
          (case request_at k u of
             Some (RqLogin p) \<Rightarrow> Some (login_done t (drop_request k u)) | _ \<Rightarrow> None)
      | LoginFailed k \<Rightarrow>
          (case request_at k u of Some (RqLogin p) \<Rightarrow> Some (drop_request k u) | _ \<Rightarrow> None)
      | InfoOk k nodes \<Rightarrow>
          (case request_at k u of
             Some (RqInfo inst h) \<Rightarrow> Some (poll_later inst (handle_info inst nodes (drop_request k u)))
           | _ \<Rightarrow> None)
      | InfoFailed k status \<Rightarrow>
          (case request_at k u of
             Some (RqInfo inst h) \<Rightarrow>
               Some (if status \<noteq> 401 then poll_later inst (drop_request k u)
                     else handle_logout (drop_request k u))
           | _ \<Rightarrow> None)
      | ActionOk k \<Rightarrow>
          (case request_at k u of Some (RqAction inst h name ps) \<Rightarrow> Some (drop_request k u) | _ \<Rightarrow> None)
      | ActionFailed k status \<Rightarrow>
          (case request_at k u of
             Some (RqAction inst h name ps) \<Rightarrow>
               Some (if status = 401 then handle_logout (drop_request k u) else drop_request k u)
           | _ \<Rightarrow> None)
      | TimerFires k \<Rightarrow>
          (case map_of (ui_timers u) k of
             Some inst \<Rightarrow> Some (ask_info inst (u\<lparr>ui_timers := filter (\<lambda>t. fst t \<noteq> k) (ui_timers u)\<rparr>))
           | None \<Rightarrow> None)
      | Action name input data \<Rightarrow>
          if ui_auth u then
            (case build_action name input data of
               Inl message \<Rightarrow> Some u | Inr ps \<Rightarrow> Some (send_action (ui_main u) name ps u))
          else None
      | Logout \<Rightarrow> if ui_auth u then Some (handle_logout u) else None)"

fun ui_run :: "ui_event list \<Rightarrow> ui \<Rightarrow> ui option" where
  "ui_run [] u = Some u"
| "ui_run (e # es) u = (case ui_step e u of None \<Rightarrow> None | Some v \<Rightarrow> ui_run es v)"

text \<open>Reached from a page load, whose storage holds what an earlier page left; tokens are not empty.\<close>

inductive ui_reach :: "ui \<Rightarrow> bool" where
  start: "token \<noteq> Some [] \<Longrightarrow> ui_reach (app_start token insecure)"
| step: "ui_reach u \<Longrightarrow> ui_step e u = Some v \<Longrightarrow> (\<forall>k. e \<noteq> LoginOk k []) \<Longrightarrow> ui_reach v"

section \<open>The Actions view\<close>

text \<open>
  The view waits for the answer to a command by comparing a \<open>uid\<close>: the one \<open>sendAction\<close> returned and
  the one of the latest answer. \<open>None\<close> is \<open>undefined\<close>.
\<close>

datatype action_answer = ActionAnswer (aa_uid: "string option") (aa_error: "string option")

datatype box = NoBox | SuccessBox | ErrorBox string

record actions =
  ac_loading :: bool
  ac_uid :: "string option"
  ac_box :: box
  ac_response :: "action_answer option"

definition actions_init :: actions where
  "actions_init = \<lparr>ac_loading = False, ac_uid = Some [], ac_box = NoBox, ac_response = None\<rparr>"

text \<open>\<open>UNSAFE_componentWillReceiveProps\<close>, called whenever Main renders again.\<close>

definition answered :: "actions \<Rightarrow> action_answer option" where
  "answered a =
     (case ac_response a of
        None \<Rightarrow> None
      | Some r \<Rightarrow> if ac_loading a \<and> ac_uid a = aa_uid r then Some r else None)"

definition receive_props :: "actions \<Rightarrow> actions" where
  "receive_props a =
     (case answered a of
        None \<Rightarrow> a
      | Some r \<Rightarrow>
          a\<lparr>ac_loading := False, ac_uid := Some [],
            ac_box := (case aa_error r of Some m \<Rightarrow> ErrorBox m | None \<Rightarrow> SuccessBox)\<rparr>)"

text \<open>
  \<open>handleSubmit\<close> once the form is accepted: the boxes are hidden, the command goes out, and Main and
  the view render together. The view's state when it receives the new properties is still the old
  one, and what it sets then comes after \<open>loading\<close> and \<open>uid\<close>, the \<open>undefined\<close> that \<open>sendAction\<close> returns.
\<close>

definition submit_action :: "actions \<Rightarrow> actions" where
  "submit_action a =
     (let b = a\<lparr>ac_box := NoBox\<rparr> in
      if answered b = None then b\<lparr>ac_loading := True, ac_uid := None\<rparr> else receive_props b)"

text \<open>The answer to a command arrives; the server's answers carry no \<open>uid\<close>. The poll renders again.\<close>

definition action_answered :: "action_answer \<Rightarrow> actions \<Rightarrow> actions" where
  "action_answered r a = receive_props (a\<lparr>ac_response := Some r\<rparr>)"

definition info_polled :: "actions \<Rightarrow> actions" where
  "info_polled a = receive_props a"

section \<open>Human-readable seconds\<close>

definition two_digits :: "nat \<Rightarrow> nat list" where
  "two_digits n = (if n < 10 then [0, n] else [n div 10 mod 10, n mod 10])"

datatype uptime_part = Years nat | Days nat | Hours "nat list" | Minutes "nat list" | Seconds "nat list"

definition human_seconds :: "nat \<Rightarrow> uptime_part list" where
  "human_seconds e =
     (let t = e div 31536000; n = e mod 31536000 div 86400;
          r = e mod 31536000 mod 86400 div 3600; o1 = e mod 31536000 mod 86400 mod 3600 div 60;
          s = e mod 31536000 mod 86400 mod 3600 mod 60
      in (if t > 0 then [Years t] else []) @ (if n > 0 then [Days n] else []) @
         (if r > 0 then [Hours (two_digits r)] else []) @
         (if o1 > 0 then [Minutes (two_digits o1)] else []) @
         (if s > 0 then [Seconds (two_digits s)] else []))"


section \<open>Lemmas: the posted form\<close>

lemma byte_of_bound: "byte_of c < 256"
  by (simp add: byte_of_def)

lemma byte_of_char [simp]: "char_of (byte_of c) = c"
  by (simp add: byte_of_def)

lemma byte_of_of_nat: "n < 256 \<Longrightarrow> byte_of (char_of n) = n"
  by (simp add: byte_of_def)

lemma hex_upper_byte: "n < 16 \<Longrightarrow> byte_of (hex_upper n) = (if n < 10 then 48 + n else 55 + n)"
  by (simp add: hex_upper_def byte_of_of_nat)

lemma hex_upper_digit: "n < 16 \<Longrightarrow> radix16_digit (hex_upper n) = Some n"
  by (auto simp: radix16_digit_def Let_def hex_upper_byte)

text \<open>The characters an encoded text is made of.\<close>

definition form_char :: "char \<Rightarrow> bool" where
  "form_char c = (uri_unreserved c \<or> c = CHR ''%'' \<or> c = CHR ''+'')"

lemma unreserved_not:
  "\<not> uri_unreserved (CHR ''%'')" "\<not> uri_unreserved (CHR ''+'')" "\<not> uri_unreserved (CHR ''&'')"
  "\<not> uri_unreserved (CHR ''='')" "\<not> uri_unreserved (CHR '' '')"
  by (simp_all add: uri_unreserved_def byte_of_def)

lemma unreserved_ascii: "uri_unreserved c \<Longrightarrow> byte_of c < 128"
  by (auto simp: uri_unreserved_def Let_def)

lemma hex_upper_unreserved: "n < 16 \<Longrightarrow> uri_unreserved (hex_upper n)"
  by (auto simp: uri_unreserved_def Let_def hex_upper_byte)

text \<open>The encoded text after blanks have become plus signs, one character at a time.\<close>

definition form_encode_char :: "char \<Rightarrow> string" where
  "form_encode_char c = (if c = CHR '' '' then ''+'' else encode_char c)"

lemma byte_split: "16 * (byte_of c div 16) + byte_of c mod 16 = byte_of c"
  by simp

lemma byte_div: "byte_of c div 16 < 16" "byte_of c mod 16 < 16"
  using byte_of_bound [of c] by simp_all

lemma hex_upper_inj: "m < 16 \<Longrightarrow> n < 16 \<Longrightarrow> hex_upper m = hex_upper n \<longleftrightarrow> m = n"
  by (metis hex_upper_digit option.inject)

lemma encode_blank: "encode_char (CHR '' '') = ''%20''"
  by code_simp

lemma encode_not_blank:
  assumes "c \<noteq> CHR '' ''" "\<not> uri_unreserved c"
  shows "\<not> (hex_upper (byte_of c div 16) = CHR ''2'' \<and> hex_upper (byte_of c mod 16) = CHR ''0'')"
proof
  assume a: "hex_upper (byte_of c div 16) = CHR ''2'' \<and> hex_upper (byte_of c mod 16) = CHR ''0''"
  have "CHR ''2'' = hex_upper 2" "CHR ''0'' = hex_upper 0" by code_simp+
  with a have "byte_of c div 16 = 2" "byte_of c mod 16 = 0"
    using hex_upper_inj byte_div by simp_all
  then have "byte_of c = 32" using byte_split [of c] by simp
  then have "char_of (byte_of c) = (char_of (32 :: nat) :: char)" by simp
  moreover have "char_of (32 :: nat) = CHR '' ''" by code_simp
  ultimately have "c = CHR '' ''" by simp
  with assms(1) show False by simp
qed


lemma replace_20_other: "a \<noteq> CHR ''%'' \<Longrightarrow> replace_20 (a # s) = a # replace_20 s"
proof (cases s)
  case (Cons b s')
  then show "a \<noteq> CHR ''%'' \<Longrightarrow> ?thesis" by (cases s') simp_all
qed simp

lemma replace_20_char: "replace_20 (encode_char c @ s) = form_encode_char c @ replace_20 s"
proof (cases "c = CHR '' ''")
  case True
  then show ?thesis by (simp add: encode_blank form_encode_char_def)
next
  case False
  show ?thesis
  proof (cases "uri_unreserved c")
    case True
    then have "c \<noteq> CHR ''%''" using unreserved_not by auto
    then show ?thesis using False True by (simp add: encode_char_def form_encode_char_def replace_20_other)
  next
    case unr: False
    let ?a = "hex_upper (byte_of c div 16)" and ?b = "hex_upper (byte_of c mod 16)"
    have n: "?a \<noteq> CHR ''%''" "?b \<noteq> CHR ''%''"
      using hex_upper_unreserved byte_div unreserved_not(1) by metis+
    have "\<not> (?a = CHR ''2'' \<and> ?b = CHR ''0'')" by (rule encode_not_blank [OF False unr])
    then have "replace_20 (CHR ''%'' # ?a # ?b # s) = CHR ''%'' # replace_20 (?a # ?b # s)" by simp
    then show ?thesis using False unr by (simp add: encode_char_def form_encode_char_def replace_20_other n)
  qed
qed

lemma replace_20_text:
  "replace_20 (encode_uri_component s @ r) = concat (map form_encode_char s) @ replace_20 r"
  by (induction s) (simp_all add: encode_uri_component_def replace_20_char)

lemma form_encode_chars: "x \<in> set (form_encode_char c) \<Longrightarrow> form_char x"
  using hex_upper_unreserved byte_div
  by (auto simp: form_encode_char_def encode_char_def form_char_def split: if_splits)

lemma form_char_ascii: "form_char x \<Longrightarrow> byte_of x < 128"
  by (auto simp: form_char_def byte_of_def dest: unreserved_ascii [unfolded byte_of_def])

lemma form_char_not: "form_char x \<Longrightarrow> x \<noteq> CHR ''&'' \<and> x \<noteq> CHR ''=''"
  using unreserved_not by (auto simp: form_char_def)

text \<open>What the server's decoder makes of it.\<close>

lemma urldecode_char:
  assumes "s = [] \<or> \<not> is_cont (hd s)"
  shows "urldecode_bytes (form_encode_char c @ s) = map_option (Cons c) (urldecode_bytes s)"
proof (cases "c = CHR '' ''")
  case True
  then show ?thesis by (simp add: form_encode_char_def)
next
  case False
  show ?thesis
  proof (cases "uri_unreserved c")
    case True
    then show ?thesis using False unreserved_not by (auto simp: form_encode_char_def encode_char_def)
  next
    case unr: False
    let ?a = "hex_upper (byte_of c div 16)" and ?b = "hex_upper (byte_of c mod 16)"
    have a: "uri_unreserved ?a" using hex_upper_unreserved byte_div by blast
    then have "\<not> is_cont ?a" "?a \<noteq> CHR ''+''"
      using unreserved_ascii [OF a] unreserved_not by (auto simp: is_cont_def)
    moreover have "radix16_digit ?a = Some (byte_of c div 16)" "radix16_digit ?b = Some (byte_of c mod 16)"
      using hex_upper_digit byte_div by blast+
    ultimately have "from_str_radix16 ?a ?b = Some (byte_of c)"
      by (simp add: from_str_radix16_def byte_split)
    with \<open>\<not> is_cont ?a\<close> assms False unr show ?thesis
      by (auto simp: form_encode_char_def encode_char_def)
  qed
qed

lemma form_encode_hd: "\<not> is_cont (hd (form_encode_char c @ s)) \<and> form_encode_char c @ s \<noteq> []"
proof -
  have ne: "form_encode_char c \<noteq> []" by (simp add: form_encode_char_def encode_char_def)
  then have "form_char (hd (form_encode_char c))" using form_encode_chars hd_in_set by metis
  then show ?thesis using form_char_ascii ne by (fastforce simp: is_cont_def)
qed

lemma urldecode_text: "urldecode_bytes (concat (map form_encode_char s)) = Some s"
proof (induction s)
  case (Cons c s)
  have "concat (map form_encode_char s) = [] \<or> \<not> is_cont (hd (concat (map form_encode_char s)))"
    using form_encode_hd by (cases s) auto
  from urldecode_char [OF this] Cons show ?case by simp
qed simp

lemma login_body_eq: "login_body p = ''password='' @ concat (map form_encode_char p)"
proof -
  have k: "encode_uri_component ''password'' = ''password''" by code_simp
  have "replace_20 (''password='' @ encode_uri_component p @ []) = ''password='' @ replace_20 (encode_uri_component p @ [])"
    by (simp add: replace_20_other)
  then show ?thesis
    using replace_20_text [of p "[]"] by (simp add: login_body_def post_body_def jquery_param_def k)
qed

lemma login_body_decodes:
  assumes "utf8_text p"
  shows "form_value (login_body p) ''password'' = Some (Some p)"
proof -
  have amp: "CHR ''&'' \<notin> set (login_body p)"
    unfolding login_body_eq using form_encode_chars form_char_not by fastforce
  have once: "split_once ''='' (login_body p) = Some (''password'', concat (map form_encode_char p))"
    unfolding login_body_eq using split_once_char_append [of "CHR ''=''" "''password''"] by simp
  have key: "urldecode ''password'' = Some ''password''" by code_simp
  have val: "urldecode (concat (map form_encode_char p)) = Some p"
    by (simp add: urldecode_def urldecode_text utf8_lossy_text [OF assms])
  show ?thesis
    by (simp add: form_value_def split_char_single [OF amp] once key val)
qed


section \<open>Lemmas: the page\<close>

lemmas ui_defs = send_request_def ask_info_def handle_login_def send_action_def unmount_main_def
  mount_main_def set_app_def handle_logout_def login_done_def poll_later_def handle_info_def
  drop_request_def

text \<open>The page and the storage agree, and timers have names of their own.\<close>

definition session_inv :: "ui \<Rightarrow> bool" where
  "session_inv u \<longleftrightarrow> ui_auth u = (us_token u \<noteq> None) \<and> us_token u \<noteq> Some [] \<and> (ui_insecure u \<longrightarrow> us_insecure u)"

definition timers_inv :: "ui \<Rightarrow> bool" where
  "timers_inv u \<longleftrightarrow> distinct (map fst (ui_timers u)) \<and> (\<forall>t \<in> set (ui_timers u). fst t < ui_fresh u)"

text \<open>The mounted Main has a request for the nodes in flight or a timer that will ask for them.\<close>

definition polling :: "ui \<Rightarrow> bool" where
  "polling u \<longleftrightarrow>
     (\<exists>h. RqInfo (ui_main u) h \<in> set (ui_requests u)) \<or> ui_main u \<in> snd ` set (ui_timers u)"

definition ui_inv :: "ui \<Rightarrow> bool" where
  "ui_inv u \<longleftrightarrow> session_inv u \<and> timers_inv u \<and> (ui_auth u \<longrightarrow> polling u)"

lemma timers_filter: "timers_inv u \<Longrightarrow> timers_inv (u\<lparr>ui_timers := filter P (ui_timers u)\<rparr>)"
  by (auto simp: timers_inv_def distinct_map inj_on_def)

lemma drop_request_set:
  assumes "request_at k u = Some r" "x \<in> set (ui_requests u)" "x \<noteq> r"
  shows "x \<in> set (ui_requests (drop_request k u))"
proof -
  have k: "k < length (ui_requests u)" "ui_requests u ! k = r"
    using assms(1) by (auto simp: request_at_def split: if_splits)
  have "ui_requests u = take k (ui_requests u) @ r # drop (Suc k) (ui_requests u)"
    using id_take_nth_drop [OF k(1)] k(2) by simp
  with assms(2,3) show ?thesis by (auto simp: drop_request_def) (metis Un_iff set_ConsD set_append)
qed

lemma drop_request_keeps [simp]:
  "us_token (drop_request k u) = us_token u" "us_insecure (drop_request k u) = us_insecure u"
  "ui_auth (drop_request k u) = ui_auth u" "ui_insecure (drop_request k u) = ui_insecure u"
  "ui_main (drop_request k u) = ui_main u" "ui_timers (drop_request k u) = ui_timers u"
  "ui_fresh (drop_request k u) = ui_fresh u" "ui_timer (drop_request k u) = ui_timer u"
  by (simp_all add: drop_request_def)

lemma inv_logout: "timers_inv u \<Longrightarrow> ui_inv (handle_logout u)"
  using timers_filter [of u]
  by (auto simp: ui_inv_def session_inv_def timers_inv_def ui_defs Let_def split: option.split)

lemma polling_mount: "polling (mount_main u)"
  by (auto simp: polling_def mount_main_def Let_def ask_info_def send_request_def)

lemma inv_login:
  assumes "timers_inv u" "ui_auth u \<longrightarrow> polling u" "t \<noteq> []"
  shows "ui_inv (login_done t u)"
proof (cases "ui_auth u")
  case True
  then show ?thesis
    using assms by (auto simp: ui_inv_def session_inv_def timers_inv_def polling_def login_done_def set_app_def Let_def)
next
  case False
  have "polling (login_done t u)" using False polling_mount by (simp add: login_done_def set_app_def Let_def)
  moreover have "session_inv (login_done t u)" "timers_inv (login_done t u)"
    using False assms(1,3)
    by (auto simp: session_inv_def timers_inv_def login_done_def set_app_def Let_def mount_main_def
        ask_info_def send_request_def less_Suc_eq)
  ultimately show ?thesis by (simp add: ui_inv_def)
qed

lemma inv_poll_later:
  assumes "timers_inv u" "session_inv u" "ui_auth u \<longrightarrow> polling u \<or> inst = ui_main u"
  shows "ui_inv (poll_later inst u)"
  using assms
  by (auto simp: ui_inv_def session_inv_def timers_inv_def polling_def poll_later_def Let_def less_Suc_eq)

lemma polling_drop:
  assumes "polling u" "request_at k u = Some r" "\<forall>h. r \<noteq> RqInfo (ui_main u) h"
  shows "polling (drop_request k u)"
  using assms drop_request_set [OF assms(2)] by (fastforce simp: polling_def)

lemma handle_info_keeps:
  "polling (handle_info i ns u) = polling u" "timers_inv (handle_info i ns u) = timers_inv u"
  "session_inv (handle_info i ns u) = session_inv u" "ui_auth (handle_info i ns u) = ui_auth u"
  "ui_main (handle_info i ns u) = ui_main u"
  by (simp_all add: handle_info_def polling_def timers_inv_def session_inv_def)

lemma drop_keeps:
  "session_inv (drop_request k u) = session_inv u" "timers_inv (drop_request k u) = timers_inv u"
  by (simp_all add: session_inv_def timers_inv_def)

lemma inv_timer:
  assumes "ui_inv u" "map_of (ui_timers u) k = Some inst"
  shows "ui_inv (ask_info inst (u\<lparr>ui_timers := filter (\<lambda>t. fst t \<noteq> k) (ui_timers u)\<rparr>))" (is "ui_inv ?v")
proof -
  have d: "timers_inv u" "session_inv u" using assms(1) by (simp_all add: ui_inv_def)
  have "polling ?v" if "ui_auth u"
  proof (cases "inst = ui_main u")
    case False
    have "polling u" using assms(1) that by (simp add: ui_inv_def)
    then consider h where "RqInfo (ui_main u) h \<in> set (ui_requests u)"
      | j where "(j, ui_main u) \<in> set (ui_timers u)"
      by (auto simp: polling_def)
    then show ?thesis
    proof cases
      case 2
      then have "map_of (ui_timers u) j = Some (ui_main u)"
        using d(1) by (simp add: timers_inv_def)
      with assms(2) False have "j \<noteq> k" by auto
      with 2 show ?thesis by (force simp: polling_def ask_info_def send_request_def)
    qed (auto simp: polling_def ask_info_def send_request_def)
  qed (auto simp: polling_def ask_info_def send_request_def)
  moreover have "timers_inv ?v"
    using timers_filter [OF d(1), of "\<lambda>t. fst t \<noteq> k"]
    by (simp add: timers_inv_def ask_info_def send_request_def)
  moreover have "session_inv ?v"
    using d(2) by (simp add: session_inv_def ask_info_def send_request_def)
  moreover have "ui_auth ?v = ui_auth u" by (simp add: ask_info_def send_request_def)
  ultimately show ?thesis by (simp add: ui_inv_def)
qed

lemma inv_send:
  assumes "ui_inv u"
  shows "ui_inv (send_request r u)"
  using assms by (auto simp: ui_inv_def session_inv_def timers_inv_def polling_def send_request_def)

lemma ui_step_inv:
  assumes "ui_inv u" "ui_step e u = Some v" "\<forall>k. e \<noteq> LoginOk k []"
  shows "ui_inv v"
proof -
  have d: "timers_inv u" "session_inv u" "ui_auth u \<longrightarrow> polling u" using assms(1) by (simp_all add: ui_inv_def)
  have other: "ui_inv (drop_request k u)" if "request_at k u = Some r" "\<forall>i h. r \<noteq> RqInfo i h" for k r
    using d polling_drop [OF _ that(1)] that(2) by (simp add: ui_inv_def drop_keeps)
  have info: "ui_auth u \<longrightarrow> polling (drop_request k u) \<or> inst = ui_main u"
    if "request_at k u = Some (RqInfo inst h)" for k inst h
    using d(3) polling_drop [OF _ that] by auto
  show ?thesis
  proof (cases e)
    case (Submit p)
    then show ?thesis using assms inv_send by (auto simp: ui_step_def handle_login_def split: if_splits)
  next
    case (LoginOk k t)
    then obtain p where r: "request_at k u = Some (RqLogin p)" and v: "v = login_done t (drop_request k u)"
      using assms(2) by (auto simp: ui_step_def split: option.splits request.splits)
    have "ui_inv (drop_request k u)" using other [OF r] by simp
    then have "timers_inv (drop_request k u)" "ui_auth (drop_request k u) \<longrightarrow> polling (drop_request k u)"
      unfolding ui_inv_def by blast+
    moreover have "t \<noteq> []" using assms(3) LoginOk by auto
    ultimately show ?thesis unfolding v by (rule inv_login)
  next
    case (LoginFailed k)
    then show ?thesis using assms(2) other
      by (auto simp: ui_step_def split: option.splits request.splits)
  next
    case (InfoOk k ns)
    then obtain i h where r: "request_at k u = Some (RqInfo i h)"
      and v: "v = poll_later i (handle_info i ns (drop_request k u))"
      using assms(2) by (auto simp: ui_step_def split: option.splits request.splits)
    show ?thesis unfolding v
      by (rule inv_poll_later) (use d info [OF r] in \<open>simp_all add: handle_info_keeps drop_keeps\<close>)
  next
    case (InfoFailed k s)
    then obtain i h where r: "request_at k u = Some (RqInfo i h)"
      and v: "v = (if s \<noteq> 401 then poll_later i (drop_request k u) else handle_logout (drop_request k u))"
      using assms(2) by (auto simp: ui_step_def split: option.splits request.splits)
    have "ui_inv (poll_later i (drop_request k u))"
      by (rule inv_poll_later) (use d info [OF r] in \<open>simp_all add: drop_keeps\<close>)
    then show ?thesis using v d(1) inv_logout by (simp add: drop_keeps)
  next
    case (ActionOk k)
    then show ?thesis using assms(2) other
      by (auto simp: ui_step_def split: option.splits request.splits)
  next
    case (ActionFailed k s)
    then show ?thesis using assms(2) other d(1) inv_logout
      by (auto simp: ui_step_def drop_keeps split: option.splits request.splits if_splits)
  next
    case (TimerFires k)
    then show ?thesis using assms(1,2) inv_timer by (auto simp: ui_step_def split: option.splits)
  next
    case (Action m input data)
    then show ?thesis using assms inv_send
      by (auto simp: ui_step_def send_action_def split: if_splits sum.splits)
  next
    case Logout
    then show ?thesis using assms(2) d(1) inv_logout by (auto simp: ui_step_def split: if_splits)
  qed
qed

lemma app_start_inv: "token \<noteq> Some [] \<Longrightarrow> ui_inv (app_start token insecure)"
  by (auto simp: app_start_def Let_def ui_inv_def session_inv_def timers_inv_def polling_def
      mount_main_def ask_info_def send_request_def handle_login_def)

lemma ui_reach_inv: "ui_reach u \<Longrightarrow> ui_inv u"
  by (induction rule: ui_reach.induct) (auto intro: app_start_inv ui_step_inv)


section \<open>Properties\<close>

definition sample_admin :: admin_config where
  "sample_admin =
     \<lparr>ad_enabled = True, ad_insecure = False, ad_password = ''p&=%+ w'', ad_secret = ''s'', ad_web_path = []\<rparr>"

definition sample_admin_jwt :: jwt where
  "sample_admin_jwt = sample_jwt\<lparr>jwt_decode_json := (\<lambda>t key va. if t = ''s'' then Some [] else None)\<rparr>"

text \<open>
  C36: Whatever the password is, the form the page posts is read back by the server as that password:
  logging in gives the token of the admin secret exactly when it is the configured one and status 400
  otherwise, and once the page has stored the token, its next request for the nodes carries a header
  the guard of the admin API lets through, for a JWT library that reads the tokens it writes.\<close>

theorem admin_login_end_to_end:
  assumes "ad_enabled cfg" "\<not> ad_insecure cfg" "ad_password cfg \<noteq> []" "ad_secret cfg \<noteq> []"
    and "gen_admin_token J (ad_secret cfg) = Inr tok" "verify_admin_token J (ad_secret cfg) tok"
    and "header_str tok = Some tok" "tok \<noteq> ''insecure''" "utf8_text p" "\<not> ui_auth u"
  shows "admin_auth J cfg query (login_body p) = (if p = ad_password cfg then AdminToken tok else AdminStatus 400) \<and>
    (\<exists>inst h. ui_requests (login_done tok u) = ui_requests u @ [RqInfo inst (Some h)] \<and>
       admin_api_guard J cfg (Some h) = None)"
proof
  show "admin_auth J cfg query (login_body p) = (if p = ad_password cfg then AdminToken tok else AdminStatus 400)"
    using assms(1-5) by (simp add: admin_auth_def login_body_decodes [OF assms(9)])
  let ?h = "''token '' @ tok"
  have req: "ui_requests (login_done tok u) = ui_requests u @ [RqInfo (ui_fresh u) (Some ?h)]"
    using assms(8,10)
    by (simp add: login_done_def set_app_def mount_main_def ask_info_def send_request_def auth_header_def Let_def)
  have "header_str ?h = Some ?h"
    using assms(7) by (auto simp: header_str_def byte_of_def split: if_splits)
  moreover have "split_once '' '' ?h = Some (''token'', tok)"
    using split_once_char_append [of "CHR '' ''" "''token''" tok] by simp
  ultimately have "admin_api_guard J cfg (Some ?h) = None"
    using assms(1,2,4,6) by (simp add: admin_api_guard_def eq_ignore_case_def)
  with req show "\<exists>inst h. ui_requests (login_done tok u) = ui_requests u @ [RqInfo inst (Some h)] \<and>
      admin_api_guard J cfg (Some h) = None" by blast
qed

theorem admin_login_end_to_end_witness:
  "admin_auth sample_admin_jwt sample_admin None (login_body ''p&=%+ w'') = AdminToken ''s'' \<and>
   (\<exists>inst h. ui_requests (login_done ''s'' (app_start None False)) =
        ui_requests (app_start None False) @ [RqInfo inst (Some h)] \<and>
      admin_api_guard sample_admin_jwt sample_admin (Some h) = None)"
proof -
  have "utf8_text ''p&=%+ w''" by code_simp
  moreover have "header_str ''s'' = Some ''s''" by code_simp
  moreover have "gen_admin_token sample_admin_jwt ''s'' = Inr ''s''"
    by (simp add: gen_admin_token_def sample_admin_jwt_def sample_jwt_def)
  moreover have "verify_admin_token sample_admin_jwt ''s'' ''s''"
    by (simp add: verify_admin_token_def sample_admin_jwt_def)
  moreover have "\<not> ui_auth (app_start None False)"
    by (simp add: app_start_def Let_def handle_login_def send_request_def)
  ultimately show ?thesis
    using admin_login_end_to_end [of sample_admin sample_admin_jwt "''s''" "''p&=%+ w''" "app_start None False" None]
    by (simp add: sample_admin_def)
qed

text \<open>
  C38: In every state the page can reach, it shows the application exactly when the browser stores a
  token, so that a reload comes back the same way; the insecure mode is one the storage knows of; and
  while the application is shown its polling never dies: a request for the nodes is in flight or a
  timer that sends the next one is pending.\<close>

theorem ui_session_alive:
  assumes "ui_reach u"
  shows "ui_auth u = (us_token u \<noteq> None) \<and> ui_auth (app_start (us_token u) (us_insecure u)) = ui_auth u \<and>
    (ui_insecure u \<longrightarrow> us_insecure u) \<and>
    (ui_auth u \<longrightarrow> (\<exists>h. RqInfo (ui_main u) h \<in> set (ui_requests u)) \<or>
       (\<exists>k. (k, ui_main u) \<in> set (ui_timers u)))"
proof -
  have inv: "ui_inv u" by (rule ui_reach_inv [OF assms])
  then have "ui_auth (app_start (us_token u) (us_insecure u)) = ui_auth u"
    by (auto simp: app_start_def Let_def ui_inv_def session_inv_def mount_main_def ask_info_def
        send_request_def handle_login_def)
  then show ?thesis using inv by (auto simp: ui_inv_def session_inv_def polling_def)
qed

theorem ui_session_alive_witness:
  "\<exists>u. ui_reach u \<and> ui_auth u \<and>
     ((\<exists>h. RqInfo (ui_main u) h \<in> set (ui_requests u)) \<or> (\<exists>k. (k, ui_main u) \<in> set (ui_timers u)))"
proof -
  let ?u = "login_done ''t'' (drop_request 0 (app_start None False))"
  have s: "ui_step (LoginOk 0 ''t'') (app_start None False) = Some ?u"
    by (simp add: ui_step_def request_at_def app_start_def Let_def handle_login_def send_request_def)
  have "ui_reach (app_start None False)" by (rule ui_reach.start) simp
  then have r: "ui_reach ?u" using s by (rule ui_reach.step) simp
  moreover have "ui_auth ?u"
    by (simp add: login_done_def set_app_def Let_def mount_main_def ask_info_def send_request_def
        app_start_def handle_login_def)
  ultimately show ?thesis using ui_session_alive [OF r] by blast
qed


text \<open>
  C40: The answer to one command is taken for the answer to the next: when a second command has been
  submitted and the nodes are polled before it is answered, the view stops waiting and shows the
  first answer's outcome, since both the awaited and the received \<open>uid\<close> are undefined.\<close>

theorem action_answer_reused:
  assumes "ac_response a = None" "aa_uid r = None"
  shows "let first = action_answered r (submit_action a); second = submit_action first in
    ac_loading second \<and> ac_box second = NoBox \<and>
    info_polled second = first"
  using assms
  by (cases r) (simp add: submit_action_def action_answered_def info_polled_def receive_props_def
      answered_def Let_def)

theorem action_answer_reused_witness:
  "let second = submit_action (action_answered (ActionAnswer None None) (submit_action actions_init)) in
   ac_loading second \<and> ac_box (info_polled second) = SuccessBox \<and> \<not> ac_loading (info_polled second)"
  using action_answer_reused [of actions_init "ActionAnswer None None"]
  by (simp add: actions_init_def submit_action_def action_answered_def info_polled_def receive_props_def
      answered_def Let_def)

definition digits_value :: "nat list \<Rightarrow> nat" where
  "digits_value ds = 10 * ds ! 0 + ds ! 1"

definition part_seconds :: "uptime_part \<Rightarrow> nat" where
  "part_seconds p =
     (case p of Years n \<Rightarrow> n * 31536000 | Days n \<Rightarrow> n * 86400
      | Hours ds \<Rightarrow> digits_value ds * 3600 | Minutes ds \<Rightarrow> digits_value ds * 60 | Seconds ds \<Rightarrow> digits_value ds)"

definition part_in_range :: "uptime_part \<Rightarrow> bool" where
  "part_in_range p =
     (case p of Years n \<Rightarrow> 0 < n | Days n \<Rightarrow> 0 < n \<and> n < 365
      | Hours ds \<Rightarrow> 0 < digits_value ds \<and> digits_value ds < 24
      | Minutes ds \<Rightarrow> 0 < digits_value ds \<and> digits_value ds < 60
      | Seconds ds \<Rightarrow> 0 < digits_value ds \<and> digits_value ds < 60)"

lemma two_digits_value: "n < 100 \<Longrightarrow> digits_value (two_digits n) = n"
  by (auto simp: digits_value_def two_digits_def)

text \<open>
  The uptime shown accounts for every second: its parts add up to the number of seconds, a part
  is shown only when it is not zero, and each stays below the next unit (days below 365, hours below
  24, minutes and seconds below 60), so that two digits always hold it.\<close>

theorem human_seconds_sum:
  "sum_list (map part_seconds (human_seconds e)) = e \<and> list_all part_in_range (human_seconds e)"
proof -
  define a where "a = e mod 31536000"
  define b where "b = a mod 86400"
  define c where "c = b mod 3600"
  have bounds: "a div 86400 < 365" "b div 3600 < 24" "c div 60 < 60" "c mod 60 < 60"
    by (auto simp: a_def b_def c_def less_mult_imp_div_less)
  have sum: "e div 31536000 * 31536000 + a = e" "a div 86400 * 86400 + b = a"
    "b div 3600 * 3600 + c = b" "c div 60 * 60 + c mod 60 = c"
    by (simp_all only: a_def b_def c_def div_mult_mod_eq)
  have digits: "digits_value (two_digits (b div 3600)) = b div 3600"
    "digits_value (two_digits (c div 60)) = c div 60" "digits_value (two_digits (c mod 60)) = c mod 60"
    using bounds by (intro two_digits_value; linarith)+
  have parts: "human_seconds e =
      (if e div 31536000 > 0 then [Years (e div 31536000)] else []) @
      (if a div 86400 > 0 then [Days (a div 86400)] else []) @
      (if b div 3600 > 0 then [Hours (two_digits (b div 3600))] else []) @
      (if c div 60 > 0 then [Minutes (two_digits (c div 60))] else []) @
      (if c mod 60 > 0 then [Seconds (two_digits (c mod 60))] else [])"
    by (simp only: human_seconds_def Let_def a_def b_def c_def)
  have one: "sum_list (map part_seconds (if x > 0 then [p] else [])) = part_seconds p"
    if "x = 0 \<longrightarrow> part_seconds p = 0" for x :: nat and p
    using that by simp
  have range: "list_all part_in_range (if x > 0 then [p] else [])"
    if "0 < x \<longrightarrow> part_in_range p" for x :: nat and p
    using that by simp
  have "sum_list (map part_seconds (human_seconds e)) =
      e div 31536000 * 31536000 + (a div 86400 * 86400 + (b div 3600 * 3600 + (c div 60 * 60 + c mod 60)))"
    unfolding parts map_append sum_list_append
    by (subst one, simp add: part_seconds_def digits two_digits_value [of 0, simplified])+
      (simp add: part_seconds_def digits)
  moreover have "list_all part_in_range (human_seconds e)"
    unfolding parts list_all_append
    by (intro conjI range) (simp_all add: part_in_range_def digits bounds)
  ultimately show ?thesis using sum by simp
qed

end
