(* ===== verification/Spec2Isabelle.thy ===== *)
theory Spec2Isabelle
  imports Origin Lifecycle Delivery Api_Contract Redis_Presence Web_Scheduler Web_Popper Web_Classnames Web_History
    Web_Admin
begin

text \<open>
  A model of centrifugo-rust, a real-time messaging server (a port of Centrifugo v2.8.6), and of the
  scripts of its admin page. Rust crates are under \<open>src/crates/\<close>; the admin page is the bundle
  \<open>src/crates/centrifugo-server/web/bundle.js\<close> (minified: one line of it holds several modules).

  \<^bold>\<open>The program.\<close> Clients connect over WebSocket or SockJS. A read loop per connection
  (\<open>ws.rs\<close>, \<open>sockjs.rs\<close>) decodes frames into commands (\<open>codec.rs\<close>) and runs each on the session
  (\<open>client.rs\<close>). The session works on the node (\<open>node.rs\<close>), which holds the hub of connections and
  subscriptions (\<open>hub.rs\<close>), the namespaces, the metrics and an engine (\<open>engine.rs\<close>) for history and
  presence; a publication goes through the engine, which hands it back to the node for the fan-out
  to the queues of the subscribers. Backends use the server API (\<open>api.rs\<close>, \<open>grpc.rs\<close>), operators the
  admin page (\<open>admin.rs\<close> and the bundle).

  \<^bold>\<open>Theories, bottom up.\<close>

  \<^item> \<open>Prelude\<close>: machine integers, hash maps and sets, the string functions of the standard library.
  \<^item> \<open>Protocol\<close>, \<open>Pb\<close>, \<open>Codec\<close> (\<open>centrifugo-protocol\<close>): the messages of the client protocol, their
    protobuf counterparts and the conversions, the frames of both formats.
  \<^item> \<open>Auth\<close> (\<open>centrifugo-auth\<close>): connection, subscription and admin tokens.
  \<^item> \<open>Engine\<close>, \<open>Hub\<close>, \<open>Memory\<close>, \<open>Metrics\<close>, \<open>Proxy\<close>, \<open>Node\<close>, \<open>Client\<close> (\<open>centrifugo-core\<close>), one
    theory per file of the crate.
  \<^item> \<open>Session\<close>, \<open>Origin\<close>, \<open>Admin\<close>, \<open>Api\<close>, \<open>Grpc\<close> (\<open>centrifugo-server\<close>): the read loops, origin
    checks, admin endpoints, the server API in JSON and protobuf, the gRPC service.
  \<^item> \<open>Redis\<close> (\<open>centrifugo-redis\<close>): the engine over a Redis server: the messages between nodes, the Lua
    scripts command by command, every method of the trait, addresses and the Sentinel watchdog.
  \<^item> \<open>Redis_Server\<close>: what Redis documents of the commands the scripts use, as a hypothesis
    (\<open>documented\<close>) over an abstract view of keys, deadlines and published messages, with an executable
    server of association lists that satisfies it. \<open>Redis_Contract\<close> and \<open>Redis_Presence\<close> prove the
    engine correct on every such server.
  \<^item> \<open>Samples\<close>: concrete instances of the parameters, for the witnesses.
  \<^item> \<open>Fanout\<close>, \<open>Isolation\<close>, \<open>Lifecycle\<close>, \<open>Delivery\<close>, \<open>Api_Contract\<close>: what holds of several of these
    together; they define specifications, not code.
  \<^item> \<open>Web_Heap\<close>, \<open>Web_Scheduler\<close>, \<open>Web_Popper\<close>, \<open>Web_Classnames\<close>, \<open>Web_History\<close>, \<open>Web_Admin\<close>: the
    modules of the bundle with logic of their own: the task heap and the cooperative scheduler, the
    placement of tooltips, class lists and \<open>Object.assign\<close>, locations and the memory history of the
    router, and the admin application itself.

  \<^bold>\<open>Interfaces.\<close> Each is a locale whose laws are discharged for the code's model in the theory of
  its provider: \<open>stream_store\<close> (a stream stands for the complete log of its publications; \<open>Memory\<close>
  and, for the frames of a Redis list, \<open>Redis_Contract\<close>), \<open>presence_store\<close> (\<open>Memory\<close>), the registry
  of connections (\<open>Hub\<close>), \<open>pb_conversion\<close>
  (every message type; \<open>Pb\<close>), \<open>api_front\<close> (JSON, protobuf and gRPC refine one call;
  \<open>Api_Contract\<close>), and the comparison and priority queue of the task heap (\<open>Web_Heap\<close>,
  \<open>Web_Scheduler\<close>).
\<close>

text \<open>
  \<^bold>\<open>How the code is modelled.\<close> A struct is a \<open>record\<close>, an enum a \<open>datatype\<close>; \<open>Result\<close> is a sum and
  \<open>Option\<close> an option; a panic is \<open>None\<close>. \<open>u8\<close>, \<open>u32\<close> and \<open>u64\<close> are words; \<open>i64\<close> is an integer whose
  additions wrap as written out in \<open>Prelude\<close> (release builds). A \<open>HashMap\<close> is a list of pairs with
  distinct keys: the order of iteration is fixed by the insertions, and no property depends on it.

  A handler takes and returns the session and the node (\<open>'e node\<close>, for an engine of state \<open>'e\<close> with
  the operations of the trait in a record of functions). What leaves the process is appended to the
  log \<open>nd_log\<close>: items put in the queues of connections, control signals, closings. Whether a queue is
  full or closed, what the clock shows, which id is drawn, and what the external services (proxies,
  token library, serializers) answer is in the record \<open>world\<close>; a queue's answer may depend on the
  whole log. One handler, or one frame with all its commands, sees one \<open>world\<close>: a handler is atomic
  and reads the clock once, and a second CONNECT in the frame of a refused one draws the same id.

  \<^bold>\<open>Third-party code\<close> is a parameter: \<open>serde_json\<close> and \<open>prost\<close> (the records \<open>wire\<close>, \<open>api_json\<close>,
  \<open>api_pb\<close>), \<open>jsonwebtoken\<close> and the base64 of key sets (\<open>jwt\<close>), UUIDs, hashing, the engine (its
  methods may fail), the commands of a Redis server and the state of its connection (\<open>redis\<close>,
  \<open>redis_link\<close>), and in the bundle the document's measurements, timers and transport. A property that
  needs a law of such code has it as a hypothesis: that \<open>prost\<close> reads back what it wrote, that a Redis
  command does what is documented, or that decoding a delimited message consumes a byte. A Redis
  script or command is atomic; the clocks of the node and of the server agree.

  \<^bold>\<open>The bundle.\<close> Numbers of the scheduler and of the placement engine are rationals (no rounding);
  heap indices stay below \<open>2 ^ 31\<close>, where the code's shifts are exact. Texts are their UTF-8 bytes.
  The scheduler's host is the message channel; one message of it is run with fuel twice the number
  of tasks and one more, which \<open>scheduler_message_returns\<close> proves enough. The admin page is a state
  machine over the requests in flight and the timers that are set, with ids from a counter.

  \<^bold>\<open>What the lemmas show.\<close> Well-formedness of hub, presence, metrics, heap and scheduler, kept by
  every operation (\<open>*_wf\<close>, \<open>*_inv\<close>); what each hub, stream and presence operation does to the maps
  they stand for; that any call of any engine and any command of any session or API client leaves
  other connections as they were, except those whose own queue was full (\<open>*_shrinks\<close>, \<open>*_others\<close>);
  round trips of length prefixes, frames, conversions, positions, paths and forms; equivalence of
  the glob matcher, class lists and heap with their specifications; termination of every loop. The
  properties, numbered \<open>C1\<close> to \<open>C40\<close> beside their theorems, rest on these.
\<close>

text \<open>
  \<^bold>\<open>Not modelled.\<close>

  \<^item> Connecting to Redis: parsing of URLs, resolution of a master, opening connections. Offsets of a
    Redis history are taken below \<open>10 ^ 14\<close>, from where Lua writes numbers with an exponent.
  \<^item> HTTP proxies (\<open>proxy_http.rs\<close>), seen through the proxy interface only; configuration, command
    line, start-up, routing and embedded files (\<open>config.rs\<close>, \<open>cli.rs\<close>, \<open>main.rs\<close>, \<open>http.rs\<close>, \<open>webui.rs\<close>):
    tables and glue over third-party crates.
  \<^item> The HTTP upgrade and the SockJS session URLs, the async runtime's scheduling inside a handler,
    and the fairness of \<open>select!\<close>: the order of events is an input.
  \<^item> In the bundle: jQuery, Bootstrap, Ace, React and its reconciler, React Router and
    path-to-regexp, which drive the document; the browser and hash histories; popper's reading of
    sizes and boundaries, which is a parameter, and its writing of styles; the scheduler's fallback
    host for pages without a message channel.
\<close>

end
